(* ===== verification/Prelude.thy ===== *)
theory Prelude
  imports Complex_Main "HOL-Library.Word" "HOL-Library.AList" "HOL-Library.Char_ord"
    "HOL-Library.List_Lexorder" "HOL-Library.Sublist" "HOL-Library.Multiset"
begin

text \<open>
  Shared ground of the development: the named collections the component theories extend,
  type synonyms for the machine types of the source, the association lists that stand for
  Rust's \<open>HashMap\<close> and \<open>BTreeMap\<close> together with the interface (a locale) their clients rely
  on, and generic facts on lists.

  A Rust \<open>str\<close> or byte slice is an Isabelle \<^typ>\<open>string\<close>: one \<^typ>\<open>char\<close> per UTF-8
  byte, so that \<open>length\<close> is Rust's \<open>len()\<close> and slicing by byte offsets is \<open>take\<close>/\<open>drop\<close>.
  The order on \<^typ>\<open>string\<close> is the lexicographic order on bytes, which is the order of
  Rust's \<open>str\<close>.
\<close>

unbundle bit_operations_syntax

named_theorems std_simps \<open>equations of the modelled standard library\<close>
named_theorems ship_simps \<open>what an operation delivers to the sink\<close>
named_theorems inv_intros \<open>preservation of component invariants\<close>

type_synonym u64 = "64 word"
type_synonym path = string

section \<open>Lists\<close>

lemma takeWhile_dropWhile_split:
  "dropWhile P xs = y # ys \<Longrightarrow> xs = takeWhile P xs @ y # ys \<and> \<not> P y"
  by (metis hd_dropWhile list.distinct(1) list.sel(1) takeWhile_dropWhile_id)

lemma dropWhile_Nil_iff: "dropWhile P xs = [] \<longleftrightarrow> (\<forall>x \<in> set xs. P x)"
  by (induction xs) auto

lemma takeWhile_append_stop:
  "(\<forall>x \<in> set xs. P x) \<Longrightarrow> \<not> P y \<Longrightarrow> takeWhile P (xs @ y # ys) = xs"
  by (induction xs) auto

lemma dropWhile_append_stop:
  "(\<forall>x \<in> set xs. P x) \<Longrightarrow> \<not> P y \<Longrightarrow> dropWhile P (xs @ y # ys) = y # ys"
  by (induction xs) auto

lemma drop_length_add: "drop (length xs + n) (xs @ ys) = drop n ys"
  by simp

text \<open>The index of the first element that satisfies a predicate (Rust's \<open>position\<close>).\<close>

fun position :: "('a \<Rightarrow> bool) \<Rightarrow> 'a list \<Rightarrow> nat option" where
  "position P [] = None"
| "position P (x # xs) = (if P x then Some 0 else map_option Suc (position P xs))"

lemma position_None_iff: "position P xs = None \<longleftrightarrow> (\<forall>x \<in> set xs. \<not> P x)"
  by (induction xs) auto

lemma position_Some:
  "position P xs = Some i \<Longrightarrow> i < length xs \<and> P (xs ! i) \<and> (\<forall>j < i. \<not> P (xs ! j))"
proof (induction xs arbitrary: i)
  case (Cons x xs)
  then show ?case
    by (auto split: if_splits simp: nth_Cons split: nat.splits)
qed simp

lemma position_eq_None: "position ((=) c) xs = None \<longleftrightarrow> c \<notin> set xs"
  by (auto simp: position_None_iff)

lemma position_eq_Some:
  assumes "position ((=) c) xs = Some i"
  shows "take (Suc i) xs = take i xs @ [c]" and "c \<notin> set (take i xs)" and "i < length xs"
proof -
  from position_Some [OF assms] have *: "i < length xs" "xs ! i = c" "\<forall>j < i. xs ! j \<noteq> c"
    by auto
  then show "take (Suc i) xs = take i xs @ [c]" and "i < length xs"
    by (simp_all add: take_Suc_conv_app_nth)
  show "c \<notin> set (take i xs)" using * by (auto simp: in_set_conv_nth)
qed

lemma position_takeWhile:
  "position P xs = Some i \<Longrightarrow> takeWhile (\<lambda>x. \<not> P x) xs = take i xs"
  by (induction xs arbitrary: i) (auto split: if_splits)

lemma position_dropWhile:
  "position P xs = Some i \<Longrightarrow> dropWhile (\<lambda>x. \<not> P x) xs = drop i xs"
  by (induction xs arbitrary: i) (auto split: if_splits)

lemma map_of_eq_if_unique:
  "(k, v) \<in> set kvs \<Longrightarrow> \<forall>w. (k, w) \<in> set kvs \<longrightarrow> w = v \<Longrightarrow> map_of kvs k = Some v"
  by (metis map_of_SomeD weak_map_of_SomeI)

section \<open>Keyed stores\<close>

text \<open>
  What the code relies on of a map: a lookup after an insert or a remove. The two
  providers are \<open>HashMap\<close> (an association list with distinct keys, any order) and
  \<open>BTreeMap\<close>, the representation of \<open>serde_json::Map\<close> (sorted by key).
\<close>

locale keyed_store =
  fixes get :: "'m \<Rightarrow> 'k \<Rightarrow> 'v option"
    and ins :: "'k \<Rightarrow> 'v \<Rightarrow> 'm \<Rightarrow> 'm"
    and del :: "'k \<Rightarrow> 'm \<Rightarrow> 'm"
    and wf :: "'m \<Rightarrow> bool"
  assumes get_ins: "wf m \<Longrightarrow> get (ins k v m) k' = (if k' = k then Some v else get m k')"
    and get_del: "wf m \<Longrightarrow> get (del k m) k' = (if k' = k then None else get m k')"
    and wf_ins: "wf m \<Longrightarrow> wf (ins k v m)"
    and wf_del: "wf m \<Longrightarrow> wf (del k m)"
begin

text \<open>Inserting a list of pairs in order: the last binding of a key wins.\<close>

lemma wf_fold_ins: "wf m \<Longrightarrow> wf (fold (\<lambda>(k, v). ins k v) kvs m)"
  by (induction kvs arbitrary: m) (auto simp: wf_ins)

lemma get_fold_ins:
  "wf m \<Longrightarrow> get (fold (\<lambda>(k, v). ins k v) kvs m) k' =
     (case map_of (rev kvs) k' of Some v \<Rightarrow> Some v | None \<Rightarrow> get m k')"
proof (induction kvs arbitrary: m)
  case (Cons kv kvs)
  then show ?case
    by (cases kv) (auto simp: get_ins wf_ins map_add_def split: option.splits)
qed simp

text \<open>\<open>entry(k).or_insert(v)\<close>: a present binding is kept.\<close>

lemma get_or_insert:
  "wf m \<Longrightarrow> get (case get m k of Some _ \<Rightarrow> m | None \<Rightarrow> ins k v m) k' =
     (case get m k' of Some w \<Rightarrow> Some w | None \<Rightarrow> if k' = k then Some v else None)"
  by (auto simp: get_ins split: option.splits)

end

type_synonym ('k, 'v) hash_map = "('k \<times> 'v) list"

definition hash_wf :: "('k, 'v) hash_map \<Rightarrow> bool" where
  "hash_wf m \<longleftrightarrow> distinct (map fst m)"

interpretation hash: keyed_store map_of AList.update AList.delete hash_wf
  by unfold_locales
    (auto simp: hash_wf_def update_conv' delete_conv' distinct_update distinct_delete)

type_synonym ('k, 'v) btree_map = "('k \<times> 'v) list"

fun bt_insert :: "'k::linorder \<Rightarrow> 'v \<Rightarrow> ('k, 'v) btree_map \<Rightarrow> ('k, 'v) btree_map" where
  "bt_insert k v [] = [(k, v)]"
| "bt_insert k v ((k', v') # m) =
     (if k < k' then (k, v) # (k', v') # m
      else if k = k' then (k, v) # m
      else (k', v') # bt_insert k v m)"

definition bt_remove :: "'k \<Rightarrow> ('k, 'v) btree_map \<Rightarrow> ('k, 'v) btree_map" where
  "bt_remove k m = filter (\<lambda>(k', _). k' \<noteq> k) m"

definition bt_wf :: "('k::linorder, 'v) btree_map \<Rightarrow> bool" where
  "bt_wf m \<longleftrightarrow> sorted_wrt (<) (map fst m)"

lemma set_bt_insert: "fst ` set (bt_insert k v m) = insert k (fst ` set m)"
  by (induction k v m rule: bt_insert.induct) auto

lemma bt_insert_sorted: "bt_wf m \<Longrightarrow> bt_wf (bt_insert k v m)"
proof (induction k v m rule: bt_insert.induct)
  case (2 k v k' v' m)
  then show ?case
    using set_bt_insert [of k v m] by (auto simp: bt_wf_def)
qed (simp add: bt_wf_def)

lemma bt_remove_sorted: "bt_wf m \<Longrightarrow> bt_wf (bt_remove k m)"
  by (induction m) (auto simp: bt_wf_def bt_remove_def)

lemma bt_lookup_insert: "map_of (bt_insert k v m) k' = (if k' = k then Some v else map_of m k')"
  by (induction k v m rule: bt_insert.induct) auto

lemma bt_lookup_remove: "map_of (bt_remove k m) k' = (if k' = k then None else map_of m k')"
  unfolding bt_remove_def by (induction m) auto

interpretation btree: keyed_store map_of bt_insert bt_remove bt_wf
  by unfold_locales
    (simp_all add: bt_lookup_insert bt_lookup_remove bt_insert_sorted bt_remove_sorted)

end
