(* ===== verification/Rust_Str.thy ===== *)
theory Rust_Str
  imports Prelude
begin

text \<open>
  The part of Rust's standard library on strings and bytes that the source uses: UTF-8
  validation and lossy decoding, trimming by Unicode white space, searching and splitting
  at byte offsets, decimal and hexadecimal integer parsing and printing, character
  boundaries. All functions work on the UTF-8 bytes of a string.
\<close>

section \<open>Bytes\<close>

definition code :: "char \<Rightarrow> nat" where
  "code c = of_char c"

abbreviation NL :: char where "NL \<equiv> CHR 0x0A"
abbreviation CR :: char where "CR \<equiv> CHR 0x0D"
abbreviation TAB :: char where "TAB \<equiv> CHR 0x09"
abbreviation SP :: char where "SP \<equiv> CHR '' ''"
abbreviation DQ :: char where "DQ \<equiv> CHR 0x22"
abbreviation BSL :: char where "BSL \<equiv> CHR 0x5C"

lemma code_less [simp]: "code c < 256"
  by (simp add: code_def)

definition is_ascii_digit :: "char \<Rightarrow> bool" where
  "is_ascii_digit c \<longleftrightarrow> 48 \<le> code c \<and> code c \<le> 57"

definition is_ascii_uppercase :: "char \<Rightarrow> bool" where
  "is_ascii_uppercase c \<longleftrightarrow> 65 \<le> code c \<and> code c \<le> 90"

definition is_ascii_alphabetic :: "char \<Rightarrow> bool" where
  "is_ascii_alphabetic c \<longleftrightarrow> is_ascii_uppercase c \<or> (97 \<le> code c \<and> code c \<le> 122)"

definition is_ascii_alphanumeric :: "char \<Rightarrow> bool" where
  "is_ascii_alphanumeric c \<longleftrightarrow> is_ascii_alphabetic c \<or> is_ascii_digit c"

definition is_ascii_whitespace :: "char \<Rightarrow> bool" where
  "is_ascii_whitespace c \<longleftrightarrow> code c \<in> {9, 10, 12, 13, 32}"

definition to_ascii_lower :: "char \<Rightarrow> char" where
  "to_ascii_lower c = (if is_ascii_uppercase c then char_of (code c + 32) else c)"

definition to_ascii_lowercase :: "string \<Rightarrow> string" where
  "to_ascii_lowercase s = map to_ascii_lower s"

definition eq_ignore_ascii_case :: "string \<Rightarrow> string \<Rightarrow> bool" where
  "eq_ignore_ascii_case a b \<longleftrightarrow> to_ascii_lowercase a = to_ascii_lowercase b"

lemmas ascii_defs = is_ascii_digit_def is_ascii_uppercase_def is_ascii_alphabetic_def
  is_ascii_alphanumeric_def is_ascii_whitespace_def code_def

section \<open>UTF-8\<close>

definition is_cont :: "char \<Rightarrow> bool" where
  "is_cont c \<longleftrightarrow> 128 \<le> code c \<and> code c < 192"

text \<open>The second byte a three- or four-byte sequence may have, by its first byte.\<close>

definition utf8_second_ok :: "nat \<Rightarrow> char \<Rightarrow> bool" where
  "utf8_second_ok w c \<longleftrightarrow>
     is_cont c \<and> (w = 224 \<longrightarrow> 160 \<le> code c) \<and> (w = 237 \<longrightarrow> code c < 160)
       \<and> (w = 240 \<longrightarrow> 144 \<le> code c) \<and> (w = 244 \<longrightarrow> code c < 144)"

text \<open>
  One step of the validation: whether a well-formed character starts here, and how many
  bytes it has (or how many bytes the maximal ill-formed chunk has, as in
  \<open>Utf8Chunks\<close>).
\<close>

fun utf8_next :: "string \<Rightarrow> bool \<times> nat" where
  "utf8_next [] = (True, 0)"
| "utf8_next (b # bs) =
     (let w = code b in
      if w < 128 then (True, 1)
      else if 194 \<le> w \<and> w \<le> 223 then
        (case bs of [] \<Rightarrow> (False, 1) | c1 # _ \<Rightarrow> if is_cont c1 then (True, 2) else (False, 1))
      else if 224 \<le> w \<and> w \<le> 239 then
        (case bs of [] \<Rightarrow> (False, 1)
         | c1 # r1 \<Rightarrow>
             if \<not> utf8_second_ok w c1 then (False, 1)
             else (case r1 of [] \<Rightarrow> (False, 2)
                   | c2 # _ \<Rightarrow> if is_cont c2 then (True, 3) else (False, 2)))
      else if 240 \<le> w \<and> w \<le> 244 then
        (case bs of [] \<Rightarrow> (False, 1)
         | c1 # r1 \<Rightarrow>
             if \<not> utf8_second_ok w c1 then (False, 1)
             else (case r1 of [] \<Rightarrow> (False, 2)
                   | c2 # r2 \<Rightarrow>
                       if \<not> is_cont c2 then (False, 2)
                       else (case r2 of [] \<Rightarrow> (False, 3)
                             | c3 # _ \<Rightarrow> if is_cont c3 then (True, 4) else (False, 3))))
      else (False, 1))"

lemma utf8_next_bounds:
  "utf8_next (b # bs) = (ok, n) \<Longrightarrow> 0 < n \<and> n \<le> Suc (length bs)"
  by (auto simp: Let_def split: if_splits list.splits)

lemma utf8_next_append:
  "s \<noteq> [] \<Longrightarrow> utf8_next s = (True, n) \<Longrightarrow> utf8_next (s @ t) = (True, n)"
  by (cases s) (auto simp: Let_def split: if_splits list.splits)

lemma utf8_next_take:
  "s \<noteq> [] \<Longrightarrow> utf8_next s = (True, n) \<Longrightarrow> utf8_next (take n s) = (True, n)"
  by (cases s) (auto simp: Let_def split: if_splits list.splits)

lemma utf8_next_tail_conts:
  "s \<noteq> [] \<Longrightarrow> utf8_next s = (True, n) \<Longrightarrow> list_all is_cont (tl (take n s))"
  by (cases s) (auto simp: Let_def utf8_second_ok_def split: if_splits list.splits)

lemma utf8_next_conts:
  assumes "s \<noteq> []" and "utf8_next s = (True, n)" and "0 < j" and "j < n" and "n \<le> length s"
  shows "is_cont (s ! j)"
proof -
  have "tl (take n s) ! (j - 1) = s ! j" and "j - 1 < length (tl (take n s))"
    using assms by (simp_all add: nth_tl)
  then show ?thesis
    using utf8_next_tail_conts [OF assms(1,2)] by (metis list_all_length)
qed

lemma utf8_next_ascii: "code b < 128 \<Longrightarrow> utf8_next (b # bs) = (True, 1)"
  by simp

declare utf8_next.simps(2) [simp del]

function utf8_valid :: "string \<Rightarrow> bool" where
  "utf8_valid s =
     (if s = [] then True
      else (case utf8_next s of (ok, n) \<Rightarrow> ok \<and> utf8_valid (drop n s)))"
  by pat_completeness auto
termination
  by (relation "measure length")
    (auto, metis diff_less length_greater_0_conv list.exhaust utf8_next_bounds)

declare utf8_valid.simps [simp del]

text \<open>U+FFFD, the replacement character, and \<open>String::from_utf8_lossy\<close>.\<close>

definition replacement :: string where
  "replacement = [CHR 0xEF, CHR 0xBF, CHR 0xBD]"

function from_utf8_lossy :: "string \<Rightarrow> string" where
  "from_utf8_lossy s =
     (if s = [] then []
      else (case utf8_next s of (ok, n) \<Rightarrow>
        (if ok then take n s else replacement) @ from_utf8_lossy (drop n s)))"
  by pat_completeness auto
termination
  by (relation "measure length")
    (auto, metis diff_less length_greater_0_conv list.exhaust utf8_next_bounds)

declare from_utf8_lossy.simps [simp del]

lemma utf8_valid_Nil [simp]: "utf8_valid []"
  by (simp add: utf8_valid.simps)

lemma from_utf8_lossy_Nil [simp]: "from_utf8_lossy [] = []"
  by (simp add: from_utf8_lossy.simps)

lemma utf8_valid_step:
  "s \<noteq> [] \<Longrightarrow> utf8_next s = (ok, n) \<Longrightarrow> utf8_valid s \<longleftrightarrow> ok \<and> utf8_valid (drop n s)"
  by (subst utf8_valid.simps) simp

lemma from_utf8_lossy_step:
  "s \<noteq> [] \<Longrightarrow> utf8_next s = (ok, n) \<Longrightarrow>
     from_utf8_lossy s = (if ok then take n s else replacement) @ from_utf8_lossy (drop n s)"
  by (subst from_utf8_lossy.simps) simp

lemma utf8_next_le_length: "s \<noteq> [] \<Longrightarrow> utf8_next s = (ok, n) \<Longrightarrow> 0 < n \<and> n \<le> length s"
  by (cases s) (auto dest: utf8_next_bounds)

text \<open>Induction over the characters of a well-formed string.\<close>

lemma utf8_valid_induct [consumes 1, case_names Nil Char]:
  assumes "utf8_valid s" and "P []"
    and "\<And>s n. s \<noteq> [] \<Longrightarrow> utf8_next s = (True, n) \<Longrightarrow> 0 < n \<Longrightarrow> n \<le> length s \<Longrightarrow>
           utf8_valid (drop n s) \<Longrightarrow> P (drop n s) \<Longrightarrow> P s"
  shows "P s"
  using assms(1)
proof (induction s rule: length_induct)
  case (1 s)
  show ?case
  proof (cases "s = []")
    case True
    then show ?thesis by (simp add: assms(2))
  next
    case False
    obtain ok n where nx: "utf8_next s = (ok, n)" by fastforce
    note b = utf8_next_le_length [OF False nx]
    from 1(2) utf8_valid_step [OF False nx] have v: "ok" "utf8_valid (drop n s)" by auto
    have "length (drop n s) < length s" using b False by simp
    with 1(1) v(2) have "P (drop n s)" by blast
    with assms(3) [OF False] nx v b show ?thesis by simp
  qed
qed

lemma from_utf8_lossy_valid: "utf8_valid s \<Longrightarrow> from_utf8_lossy s = s"
proof (induction rule: utf8_valid_induct)
  case (Char s n)
  then show ?case by (simp add: from_utf8_lossy_step [of s True n])
qed simp

text \<open>A well-formed prefix decodes independently of what follows.\<close>

lemma from_utf8_lossy_append:
  "utf8_valid s \<Longrightarrow> from_utf8_lossy (s @ t) = s @ from_utf8_lossy t"
proof (induction rule: utf8_valid_induct)
  case (Char s n)
  have "utf8_next (s @ t) = (True, n)"
    using Char(1,2) by (rule utf8_next_append)
  with Char show ?case by (simp add: from_utf8_lossy_step [of "s @ t" True n] flip: append_assoc)
qed simp

lemma utf8_valid_append: "utf8_valid s \<Longrightarrow> utf8_valid t \<Longrightarrow> utf8_valid (s @ t)"
proof (induction rule: utf8_valid_induct)
  case (Char s n)
  have "utf8_next (s @ t) = (True, n)"
    using Char(1,2) by (rule utf8_next_append)
  with Char show ?case by (simp add: utf8_valid_step [of "s @ t" True n])
qed simp

lemma utf8_valid_appendD: "utf8_valid s \<Longrightarrow> utf8_valid (s @ t) \<Longrightarrow> utf8_valid t"
proof (induction rule: utf8_valid_induct)
  case (Char s n)
  have "utf8_next (s @ t) = (True, n)"
    using Char(1,2) by (rule utf8_next_append)
  with Char show ?case by (simp add: utf8_valid_step [of "s @ t" True n])
qed simp

lemma utf8_valid_replacement: "utf8_valid replacement"
  by (simp add: replacement_def utf8_valid.simps utf8_next.simps utf8_second_ok_def is_cont_def
      code_def)

lemma utf8_valid_char: "s \<noteq> [] \<Longrightarrow> utf8_next s = (True, n) \<Longrightarrow> utf8_valid (take n s)"
  using utf8_next_take [of s n] utf8_next_le_length [of s True n]
  by (simp add: utf8_valid_step [of "take n s" True n])

lemma utf8_valid_lossy: "utf8_valid (from_utf8_lossy s)"
proof (induction s rule: from_utf8_lossy.induct)
  case (1 s)
  show ?case
  proof (cases "s = []")
    case False
    obtain ok n where nx: "utf8_next s = (ok, n)" by fastforce
    have "utf8_valid (from_utf8_lossy (drop n s))" using 1 [OF False nx [symmetric]] .
    moreover have "utf8_valid (if ok then take n s else replacement)"
      using utf8_valid_char [OF False] nx utf8_valid_replacement by simp
    ultimately show ?thesis
      by (simp add: from_utf8_lossy_step [OF False nx] utf8_valid_append)
  qed simp
qed

lemma utf8_valid_ascii: "(\<forall>c \<in> set s. code c < 128) \<Longrightarrow> utf8_valid s"
proof (induction s)
  case (Cons c s)
  then show ?case by (simp add: utf8_valid_step [of "c # s" True 1] utf8_next_ascii)
qed simp

section \<open>Character boundaries\<close>

definition is_char_boundary :: "string \<Rightarrow> nat \<Rightarrow> bool" where
  "is_char_boundary s i \<longleftrightarrow> i = length s \<or> (i < length s \<and> \<not> is_cont (s ! i))"

fun floor_boundary :: "string \<Rightarrow> nat \<Rightarrow> nat" where
  "floor_boundary s 0 = 0"
| "floor_boundary s (Suc i) = (if is_cont (s ! Suc i) then floor_boundary s i else Suc i)"

definition floor_char_boundary :: "string \<Rightarrow> nat \<Rightarrow> nat" where
  "floor_char_boundary s i = (if length s \<le> i then length s else floor_boundary s i)"

lemma floor_boundary_le: "floor_boundary s i \<le> i"
  by (induction s i rule: floor_boundary.induct) auto

lemma floor_char_boundary_le: "floor_char_boundary s i \<le> i \<and> floor_char_boundary s i \<le> length s"
  using floor_boundary_le [of s i] by (auto simp: floor_char_boundary_def)

lemma floor_boundary_stop: "floor_boundary s i = 0 \<or> \<not> is_cont (s ! floor_boundary s i)"
  by (induction s i rule: floor_boundary.induct) auto

lemma utf8_valid_take:
  "utf8_valid s \<Longrightarrow> i \<le> length s \<Longrightarrow> i = 0 \<or> is_char_boundary s i \<Longrightarrow> utf8_valid (take i s)"
proof (induction arbitrary: i rule: utf8_valid_induct)
  case (Char s n)
  show ?case
  proof (cases "i < n")
    case True
    with Char utf8_next_conts [of s n i] have "i = 0"
      by (auto simp: is_char_boundary_def)
    then show ?thesis by simp
  next
    case False
    then have "i - n = 0 \<or> is_char_boundary (drop n s) (i - n)"
      using Char by (auto simp: is_char_boundary_def)
    moreover have "i - n \<le> length (drop n s)" using Char by auto
    ultimately have v: "utf8_valid (take (i - n) (drop n s))" using Char by blast
    have "take i s = take n s @ take (i - n) (drop n s)"
      using False by (metis le_add_diff_inverse linorder_not_less take_add)
    then show ?thesis using utf8_valid_append [OF utf8_valid_char v] Char by simp
  qed
qed simp

lemma utf8_valid_floor:
  assumes "utf8_valid s"
  shows "utf8_valid (take (floor_char_boundary s i) s)"
proof (rule utf8_valid_take [OF assms])
  show "floor_char_boundary s i \<le> length s" by (simp add: floor_char_boundary_le)
  show "floor_char_boundary s i = 0 \<or> is_char_boundary s (floor_char_boundary s i)"
    using floor_boundary_stop [of s i] floor_boundary_le [of s i]
    by (auto simp: floor_char_boundary_def is_char_boundary_def)
qed

end
