(* ===== verification/Rust_Scan.thy ===== *)
theory Rust_Scan
  imports Rust_Str
begin

text \<open>
  The part of Rust's standard library that scans strings: trimming by Unicode white space,
  searching, splitting at separators, lines and words, and parsing and printing of unsigned
  integers, with the round trips the persistence formats rely on.
\<close>

section \<open>Trimming\<close>

text \<open>The UTF-8 encodings of the characters with the Unicode property \<open>White_Space\<close>.\<close>

definition ws_seqs :: "string list" where
  "ws_seqs =
     [[CHR 0x09], [CHR 0x0A], [CHR 0x0B], [CHR 0x0C], [CHR 0x0D], [CHR 0x20],
      [CHR 0xC2, CHR 0x85], [CHR 0xC2, CHR 0xA0], [CHR 0xE1, CHR 0x9A, CHR 0x80],
      [CHR 0xE2, CHR 0x80, CHR 0x80], [CHR 0xE2, CHR 0x80, CHR 0x81],
      [CHR 0xE2, CHR 0x80, CHR 0x82], [CHR 0xE2, CHR 0x80, CHR 0x83],
      [CHR 0xE2, CHR 0x80, CHR 0x84], [CHR 0xE2, CHR 0x80, CHR 0x85],
      [CHR 0xE2, CHR 0x80, CHR 0x86], [CHR 0xE2, CHR 0x80, CHR 0x87],
      [CHR 0xE2, CHR 0x80, CHR 0x88], [CHR 0xE2, CHR 0x80, CHR 0x89],
      [CHR 0xE2, CHR 0x80, CHR 0x8A], [CHR 0xE2, CHR 0x80, CHR 0xA8],
      [CHR 0xE2, CHR 0x80, CHR 0xA9], [CHR 0xE2, CHR 0x80, CHR 0xAF],
      [CHR 0xE2, CHR 0x81, CHR 0x9F], [CHR 0xE3, CHR 0x80, CHR 0x80]]"

fun strip_one :: "string list \<Rightarrow> string \<Rightarrow> string option" where
  "strip_one [] s = None"
| "strip_one (w # ws) s = (if prefix w s then Some (drop (length w) s) else strip_one ws s)"

function trim_front :: "string list \<Rightarrow> string \<Rightarrow> string" where
  "trim_front ws s =
     (case strip_one ws s of None \<Rightarrow> s
      | Some r \<Rightarrow> if length r < length s then trim_front ws r else s)"
  by pat_completeness auto
termination
  by (relation "measure (\<lambda>(ws, s). length s)") auto

declare trim_front.simps [simp del]

definition trim_start :: "string \<Rightarrow> string" where
  "trim_start s = trim_front ws_seqs s"

definition trim_end :: "string \<Rightarrow> string" where
  "trim_end s = rev (trim_front (map rev ws_seqs) (rev s))"

definition trim :: "string \<Rightarrow> string" where
  "trim s = trim_end (trim_start s)"

definition strip_prefix :: "string \<Rightarrow> string \<Rightarrow> string option" where
  "strip_prefix p s = (if prefix p s then Some (drop (length p) s) else None)"

definition starts_with :: "string \<Rightarrow> string \<Rightarrow> bool" where
  "starts_with s p \<longleftrightarrow> prefix p s"

lemma strip_one_suffix: "strip_one ws s = Some r \<Longrightarrow> suffix r s"
  by (induction ws s rule: strip_one.induct) (auto simp: suffix_drop split: if_splits)

lemma trim_front_suffix: "suffix (trim_front ws s) s"
proof (induction ws s rule: trim_front.induct)
  case (1 ws s)
  show ?case
    by (subst trim_front.simps)
      (auto split: option.splits dest: 1 strip_one_suffix intro: suffix_order.trans)
qed

lemma trim_start_suffix: "suffix (trim_start s) s"
  by (simp add: trim_start_def trim_front_suffix)

lemma trim_end_prefix: "prefix (trim_end s) s"
  using trim_front_suffix [of "map rev ws_seqs" "rev s"]
  by (simp add: trim_end_def suffix_to_prefix)

lemma length_trim_end: "length (trim_end s) \<le> length s"
  by (simp add: prefix_length_le trim_end_prefix)

lemma length_trim_start: "length (trim_start s) \<le> length s"
  by (simp add: suffix_length_le trim_start_suffix)

lemma length_trim: "length (trim s) \<le> length s"
  using length_trim_end [of "trim_start s"] length_trim_start [of s] by (simp add: trim_def)

lemma trim_front_id: "strip_one ws s = None \<Longrightarrow> trim_front ws s = s"
  by (subst trim_front.simps) simp

lemma trim_front_None: "strip_one ws (trim_front ws s) = None \<or> (\<exists>r. strip_one ws (trim_front ws s) = Some r
    \<and> length (trim_front ws s) \<le> length r)"
proof (induction ws s rule: trim_front.induct)
  case (1 ws s)
  show ?case
  proof (cases "strip_one ws s")
    case None
    then show ?thesis by (simp add: trim_front_id)
  next
    case (Some r)
    then show ?thesis
      using 1 [OF Some] by (cases "length r < length s") (simp_all add: trim_front.simps [of ws s])
  qed
qed

lemma trim_front_idem: "trim_front ws (trim_front ws s) = trim_front ws s"
  using trim_front_None [of ws s] by (subst trim_front.simps) auto

lemma trim_end_idem: "trim_end (trim_end s) = trim_end s"
  by (simp add: trim_end_def trim_front_idem)

lemma trim_Nil [simp]: "trim_start [] = []" "trim_end [] = []" "trim [] = []"
  by (simp_all add: trim_start_def trim_end_def trim_def trim_front.simps ws_seqs_def)

section \<open>Searching and splitting\<close>

fun find_sub :: "string \<Rightarrow> string \<Rightarrow> nat option" where
  "find_sub n [] = (if n = [] then Some 0 else None)"
| "find_sub n (c # cs) = (if prefix n (c # cs) then Some 0 else map_option Suc (find_sub n cs))"

definition rfind_char :: "char \<Rightarrow> string \<Rightarrow> nat option" where
  "rfind_char c s = map_option (\<lambda>i. length s - 1 - i) (position ((=) c) (rev s))"

definition split_once :: "char \<Rightarrow> string \<Rightarrow> (string \<times> string) option" where
  "split_once c s = map_option (\<lambda>i. (take i s, drop (Suc i) s)) (position ((=) c) s)"

fun split_char :: "char \<Rightarrow> string \<Rightarrow> string list" where
  "split_char c [] = [[]]"
| "split_char c (x # xs) =
     (if x = c then [] # split_char c xs
      else (case split_char c xs of [] \<Rightarrow> [[x]] | p # ps \<Rightarrow> (x # p) # ps))"

fun splitn :: "nat \<Rightarrow> char \<Rightarrow> string \<Rightarrow> string list" where
  "splitn 0 c s = []"
| "splitn (Suc 0) c s = [s]"
| "splitn (Suc (Suc n)) c s =
     (case split_once c s of None \<Rightarrow> [s] | Some (a, b) \<Rightarrow> a # splitn (Suc n) c b)"

definition strip_cr :: "string \<Rightarrow> string" where
  "strip_cr s = (if s \<noteq> [] \<and> last s = CR then butlast s else s)"

lemma split_once_Some: "split_once c s = Some (a, b) \<Longrightarrow> s = a @ c # b \<and> c \<notin> set a"
proof -
  assume "split_once c s = Some (a, b)"
  then obtain i where i: "position ((=) c) s = Some i" "a = take i s" "b = drop (Suc i) s"
    by (auto simp: split_once_def)
  from position_Some [OF i(1)] i(2,3) show ?thesis
    by (auto simp: id_take_nth_drop [symmetric] in_set_conv_nth)
qed

lemma position_append_stop:
  "(\<forall>x \<in> set a. \<not> P x) \<Longrightarrow> P c \<Longrightarrow> position P (a @ c # b) = Some (length a)"
  by (induction a) auto

lemma split_once_append: "c \<notin> set a \<Longrightarrow> split_once c (a @ c # b) = Some (a, b)"
proof -
  assume "c \<notin> set a"
  then have "position ((=) c) (a @ c # b) = Some (length a)"
    by (intro position_append_stop) auto
  then show ?thesis by (simp add: split_once_def)
qed

lemma split_once_None: "split_once c s = None \<longleftrightarrow> c \<notin> set s"
  by (auto simp: split_once_def position_None_iff)

lemma split_once_shorter: "split_once c s = Some (a, b) \<Longrightarrow> length b < length s"
  by (drule split_once_Some) auto

function str_lines :: "string \<Rightarrow> string list" where
  "str_lines s =
     (if s = [] then []
      else (case split_once NL s of None \<Rightarrow> [s] | Some (a, b) \<Rightarrow> strip_cr a # str_lines b))"
  by pat_completeness auto
termination
  by (relation "measure length") (auto dest: split_once_shorter)

declare str_lines.simps [simp del]

lemma str_lines_Nil [simp]: "str_lines [] = []"
  by (simp add: str_lines.simps)

lemma str_lines_Cons: "NL \<notin> set a \<Longrightarrow> str_lines (a @ NL # b) = strip_cr a # str_lines b"
  by (subst str_lines.simps) (simp add: split_once_append)

lemma str_lines_concat:
  assumes "\<forall>l \<in> set ls. NL \<notin> set l \<and> strip_cr l = l"
  shows "str_lines (concat (map (\<lambda>l. l @ [NL]) ls)) = ls"
  using assms by (induction ls) (simp_all add: str_lines_Cons)

fun until_ws :: "string \<Rightarrow> string \<times> string" where
  "until_ws [] = ([], [])"
| "until_ws (c # cs) =
     (if strip_one ws_seqs (c # cs) \<noteq> None then ([], c # cs)
      else (let (a, b) = until_ws cs in (c # a, b)))"

lemma until_ws_append: "until_ws s = (a, b) \<Longrightarrow> s = a @ b"
  by (induction s arbitrary: a b) (auto split: if_splits prod.splits)

lemma until_ws_shorter: "until_ws (trim_start s) = (a, b) \<Longrightarrow> a \<noteq> [] \<Longrightarrow> length b < length s"
  using until_ws_append [of "trim_start s" a b] length_trim_start [of s] by (cases a) auto

function split_whitespace :: "string \<Rightarrow> string list" where
  "split_whitespace s =
     (case until_ws (trim_start s) of (a, b) \<Rightarrow>
        if a = [] then [] else a # split_whitespace b)"
  by pat_completeness auto
termination
  by (relation "measure length") (auto dest: until_ws_shorter [OF sym])

declare split_whitespace.simps [simp del]

section \<open>Unsigned integers\<close>

definition digit_val :: "nat \<Rightarrow> char \<Rightarrow> nat option" where
  "digit_val radix c =
     (let n = code c;
          v = (if 48 \<le> n \<and> n \<le> 57 then n - 48
               else if 97 \<le> n \<and> n \<le> 122 then n - 87
               else if 65 \<le> n \<and> n \<le> 90 then n - 55 else 36)
      in if v < radix then Some v else None)"

fun parse_digits :: "nat \<Rightarrow> nat \<Rightarrow> string \<Rightarrow> nat option" where
  "parse_digits radix acc [] = Some acc"
| "parse_digits radix acc (c # cs) =
     (case digit_val radix c of None \<Rightarrow> None
      | Some v \<Rightarrow> parse_digits radix (acc * radix + v) cs)"

text \<open>
  \<open>from_str_radix\<close> of an unsigned type with \<open>bound\<close> values: an optional plus sign, at
  least one digit, no overflow. Digits only increase the accumulator, so testing the final
  value is the same as testing at every digit.
\<close>

definition parse_uint :: "nat \<Rightarrow> nat \<Rightarrow> string \<Rightarrow> nat option" where
  "parse_uint radix bound s =
     (let ds = (case s of [] \<Rightarrow> [] | c # r \<Rightarrow> if c = CHR ''+'' then r else s)
      in if ds = [] then None
         else (case parse_digits radix 0 ds of None \<Rightarrow> None
               | Some n \<Rightarrow> if n < bound then Some n else None))"

abbreviation parse_u64 :: "string \<Rightarrow> nat option" where
  "parse_u64 \<equiv> parse_uint 10 (2 ^ 64)"

abbreviation parse_u32 :: "string \<Rightarrow> nat option" where
  "parse_u32 \<equiv> parse_uint 10 (2 ^ 32)"

definition digit_chr :: "nat \<Rightarrow> char" where
  "digit_chr n = char_of (48 + n)"

fun show_nat :: "nat \<Rightarrow> string" where
  "show_nat n = (if n < 10 then [digit_chr n] else show_nat (n div 10) @ [digit_chr (n mod 10)])"

declare show_nat.simps [simp del]

lemma parse_uint_bound: "parse_uint radix bound s = Some n \<Longrightarrow> n < bound"
  by (auto simp: parse_uint_def Let_def split: if_splits option.splits list.splits)

lemma code_digit_chr: "n < 10 \<Longrightarrow> code (digit_chr n) = 48 + n"
  by (simp add: code_def digit_chr_def)

lemma digit_val_chr: "n < 10 \<Longrightarrow> digit_val 10 (digit_chr n) = Some n"
  by (simp add: digit_val_def code_digit_chr)

lemma parse_digits_append:
  "parse_digits r acc (xs @ ys) =
     (case parse_digits r acc xs of None \<Rightarrow> None | Some n \<Rightarrow> parse_digits r n ys)"
  by (induction xs arbitrary: acc) (auto split: option.splits)

lemma parse_digits_show: "parse_digits 10 0 (show_nat n) = Some n"
proof (induction n rule: show_nat.induct)
  case (1 n)
  show ?case
  proof (cases "n < 10")
    case True
    then show ?thesis by (simp add: show_nat.simps [of n] digit_val_chr)
  next
    case False
    with 1 show ?thesis
      by (simp add: show_nat.simps [of n] parse_digits_append digit_val_chr)
  qed
qed

lemma show_nat_digits: "c \<in> set (show_nat n) \<Longrightarrow> is_ascii_digit c"
  by (induction n rule: show_nat.induct)
    (subst (asm) (2) show_nat.simps,
     auto simp: is_ascii_digit_def code_digit_chr split: if_splits)

lemma show_nat_nonempty: "show_nat n \<noteq> []"
  by (subst show_nat.simps) simp

text \<open>Printing a number and parsing it back.\<close>

lemma parse_show_nat: "n < bound \<Longrightarrow> parse_uint 10 bound (show_nat n) = Some n"
proof -
  assume n: "n < bound"
  obtain c r where s: "show_nat n = c # r" using show_nat_nonempty [of n] by (cases "show_nat n") auto
  then have "is_ascii_digit c" using show_nat_digits [of c n] by simp
  then have "c \<noteq> CHR ''+''" by (auto simp: is_ascii_digit_def code_def)
  with s n parse_digits_show [of n] show ?thesis by (simp add: parse_uint_def)
qed

lemma show_nat_no_sep: "\<not> is_ascii_digit c \<Longrightarrow> c \<notin> set (show_nat n)"
  using show_nat_digits by blast

lemma show_nat_inject: "show_nat m = show_nat n \<Longrightarrow> m = n"
  using parse_digits_show by (metis option.inject)

end
