(* ===== verification/Rust_Words.thy ===== *)
theory Rust_Words
  imports Rust_Scan
begin

text \<open>
  Trimming and splitting of text made of printable ASCII words, for the round trips of the
  line formats the agent reads.
\<close>

section \<open>Trimming\<close>

text \<open>Trimming does nothing to text without white space.\<close>

lemma strip_one_None: "(\<forall>w \<in> set ws. \<not> prefix w s) \<Longrightarrow> strip_one ws s = None"
  by (induction ws) auto

lemma trim_visible:
  assumes "\<forall>c \<in> set s. 32 < code c \<and> code c < 128"
  shows "trim s = s"
proof -
  have h: "\<not> prefix w t" if "set t \<subseteq> set s" "w \<in> set ws_seqs \<union> set (map rev ws_seqs)" for w t
  proof
    assume "prefix w t"
    moreover have w: "w \<noteq> []" and inv: "\<not> (32 < code (hd w) \<and> code (hd w) < 128)"
      using that(2) by (auto simp: ws_seqs_def code_def)
    ultimately have "hd w \<in> set t" using set_mono_prefix by (metis hd_in_set subsetD)
    with that(1) assms inv show False by auto
  qed
  have a: "strip_one ws_seqs s = None" by (rule strip_one_None) (use h [of s] in auto)
  have b: "strip_one (map rev ws_seqs) (rev s) = None" by (rule strip_one_None) (use h [of "rev s"] in auto)
  show ?thesis
    using a b by (simp add: trim_def trim_start_def trim_end_def trim_front_id)
qed

lemma show_nat_visible: "c \<in> set (show_nat n) \<Longrightarrow> 32 < code c \<and> code c < 128"
  using show_nat_digits by (fastforce simp: is_ascii_digit_def)

section \<open>Words\<close>

definition visible :: "char \<Rightarrow> bool" where
  "visible c \<longleftrightarrow> 32 < code c \<and> code c < 128"

definition is_word :: "string \<Rightarrow> bool" where
  "is_word w \<longleftrightarrow> w \<noteq> [] \<and> (\<forall>c \<in> set w. visible c)"

lemma trim_word: "is_word w \<Longrightarrow> trim w = w"
  by (intro trim_visible) (simp add: is_word_def visible_def)

lemma ws_heads: "\<forall>w \<in> set ws_seqs. w \<noteq> [] \<and> \<not> visible (hd w)"
  by (simp add: ws_seqs_def visible_def code_def)

lemma strip_one_visible: "visible c \<Longrightarrow> strip_one ws_seqs (c # s) = None"
  by (rule strip_one_None) (use ws_heads in \<open>auto simp: prefix_def Cons_eq_append_conv\<close>)

lemma strip_one_SP: "strip_one ws_seqs (SP # s) = Some s"
  by (simp add: ws_seqs_def)

lemma trim_start_visible: "visible c \<Longrightarrow> trim_start (c # s) = c # s"
  by (simp add: trim_start_def trim_front_id strip_one_visible)

lemma trim_start_SP: "trim_start (SP # s) = trim_start s"
  unfolding trim_start_def by (subst trim_front.simps) (simp add: strip_one_SP)

lemma until_ws_word: "\<forall>c \<in> set w. visible c \<Longrightarrow> until_ws (w @ SP # s) = (w, SP # s)"
  by (induction w) (simp_all add: strip_one_visible strip_one_SP)

lemma until_ws_end: "\<forall>c \<in> set w. visible c \<Longrightarrow> until_ws w = (w, [])"
  by (induction w) (simp_all add: strip_one_visible)

lemma split_whitespace_SP: "split_whitespace (SP # s) = split_whitespace s"
  by (subst (1 2) split_whitespace.simps) (simp add: trim_start_SP)

lemma split_whitespace_Nil [simp]: "split_whitespace [] = []"
  by (simp add: split_whitespace.simps)

lemma split_whitespace_end: "is_word w \<Longrightarrow> split_whitespace w = [w]"
  by (cases w; subst split_whitespace.simps)
    (auto simp: is_word_def trim_start_visible until_ws_end strip_one_visible)

lemma split_whitespace_word: "is_word w \<Longrightarrow> split_whitespace (w @ SP # s) = w # split_whitespace s"
proof (cases w)
  case (Cons c r)
  assume w: "is_word w"
  then have "trim_start (w @ SP # s) = w @ SP # s" by (simp add: is_word_def Cons trim_start_visible)
  moreover have "until_ws (w @ SP # s) = (w, SP # s)" using w by (simp add: is_word_def until_ws_word)
  ultimately show ?thesis
    using w split_whitespace_SP [of s] by (subst split_whitespace.simps) (simp add: is_word_def)
qed (simp add: is_word_def)

lemma split_whitespace_words:
  "\<forall>w \<in> set ws. is_word w \<Longrightarrow> split_whitespace (concat (map (\<lambda>w. SP # w) ws)) = ws"
proof (induction ws)
  case (Cons w ws)
  show ?case
  proof (cases ws)
    case Nil
    with Cons.prems show ?thesis by (simp add: split_whitespace_SP split_whitespace_end)
  next
    case (Cons v vs)
    with Cons.IH Cons.prems show ?thesis
      by (simp add: split_whitespace_SP split_whitespace_word)
  qed
qed simp

lemma is_word_show_nat: "is_word (show_nat n)"
  using show_nat_visible show_nat_nonempty by (simp add: is_word_def visible_def)

end
