(* ===== verification/External.thy ===== *)
theory External
  imports Rust_Words
begin

text \<open>
  What the agent calls but the repository does not contain. Each third-party function is a
  field of the record \<open>deps\<close>, an argument of every definition that calls it; the documented
  behaviour a theorem relies on is a named predicate on that record. The data types the
  agent exchanges with these crates (\<open>serde_json::Value\<close>, \<open>tell::LogLevel\<close>, a log entry)
  are declared here with the constructors the source uses.
\<close>

section \<open>Data exchanged with the crates\<close>

text \<open>\<open>tell::LogLevel\<close>, with the syslog severities the source names.\<close>

datatype log_level = Emergency | Alert | Critical | Error | Warning | Notice | Info | Debug

fun severity :: "log_level \<Rightarrow> nat" where
  "severity Emergency = 0" | "severity Alert = 1" | "severity Critical = 2"
| "severity Error = 3" | "severity Warning = 4" | "severity Notice = 5"
| "severity Info = 6" | "severity Debug = 7"

lemma severity_inject: "severity a = severity b \<Longrightarrow> a = b"
  by (cases a; cases b) auto

text \<open>Levels are ordered by urgency: the most urgent level is the greatest.\<close>

instantiation log_level :: linorder
begin

definition less_eq_log_level :: "log_level \<Rightarrow> log_level \<Rightarrow> bool" where
  "a \<le> b \<longleftrightarrow> severity b \<le> severity a"

definition less_log_level :: "log_level \<Rightarrow> log_level \<Rightarrow> bool" where
  "a < b \<longleftrightarrow> severity b < severity a"

instance
  by standard (auto simp: less_eq_log_level_def less_log_level_def severity_inject)

end

text \<open>\<open>serde_json::Number\<close> and \<open>serde_json::Value\<close>; an object is a \<open>BTreeMap\<close>.\<close>

datatype jnum = PosInt nat | NegInt int | Float rat

datatype json =
  JNull | JBool bool | JNumber jnum | JString string | JArray "json list"
| JObject "(string \<times> json) list"

text \<open>\<open>Number::as_u64\<close>.\<close>

fun as_u64 :: "jnum \<Rightarrow> nat option" where
  "as_u64 (PosInt n) = Some n"
| "as_u64 _ = None"

text \<open>The arguments of one \<open>tell.try_log_with_service\<close> call.\<close>

record log_entry =
  le_level :: log_level
  le_message :: string
  le_component :: "string option"
  le_service :: "string option"
  le_payload :: "json option"

datatype f64 = Fin rat | PosInf | NegInf | NaN

datatype temporality = Delta | Cumulative

type_synonym labels = "(string \<times> string) list"

datatype tell_call =
  Tell_log log_entry bool
| Tell_gauge string f64 labels
| Tell_gauge_dyn string f64 labels
| Tell_counter string f64 labels
| Tell_counter_dyn string f64 labels
| Tell_counter_dyn_with_temporality string f64 labels temporality

text \<open>The resume position of the unified log, which \<open>serde_json\<close> stores.\<close>

record checkpoint =
  boot_uuid :: string
  mach_timestamp :: nat
  wall_timestamp :: string

text \<open>
  Events of the XML pull reader (\<open>quick_xml::Reader\<close>): a tag has a name and, for each attribute
  name, an error or its decoded value if present; a text or a resolved reference is absent when
  decoding fails. The end of the list is the end of the document.
\<close>

record xml_tag =
  tag_name :: string
  tag_attr :: "string \<Rightarrow> unit + string option"

datatype xml_event =
  X_Start xml_tag | X_Empty xml_tag | X_Text "string option" | X_Ref "string option"
| X_CData string | X_End string | X_Other | X_Error

text \<open>A value of a TOML document, as \<open>toml\<close> hands it to the generated deserialisers.\<close>

datatype toml =
  T_String string | T_Integer int | T_Float rat | T_Boolean bool | T_Datetime string
| T_Array "toml list" | T_Table "(string \<times> toml) list"

section \<open>Functions of the crates\<close>

text \<open>
  \<^item> \<open>simd_from_utf8\<close>: whether \<open>simdutf8::basic::from_utf8\<close> returns \<open>Ok\<close>;
  \<^item> \<open>memchr\<close>: \<open>memchr::memchr\<close>;
  \<^item> \<open>serde_from_str\<close>, \<open>serde_to_string\<close>: \<open>serde_json::from_str::<Value>\<close> and
    \<open>Value::to_string\<close>;
  \<^item> \<open>serde_members\<close>: the members of the JSON object a text denotes, in order and with
    repetitions, as the generated \<open>Deserialize\<close> implementations see them;
  \<^item> \<open>cp_to_vec\<close>, \<open>cp_from_slice\<close>: \<open>serde_json\<close> on the checkpoint of the unified log;
  \<^item> \<open>xml_read\<close>: the events \<open>quick_xml\<close> reads from a document;
  \<^item> \<open>toml_read\<close>: the root table of a TOML document, absent when it does not parse;
  \<^item> \<open>to_lowercase\<close>: \<open>str::to_lowercase\<close>, which depends on the Unicode tables;
  \<^item> \<open>regex_is_match\<close>: the compiled \<open>regex_lite::Regex\<close> of a pattern, applied to a line;
  \<^item> \<open>regex_new\<close>: whether \<open>regex_lite::Regex::new\<close> accepts a pattern;
  \<^item> \<open>glob_new\<close>, \<open>glob_matches\<close>: \<open>glob::Pattern::new\<close> and \<open>Pattern::matches\<close>;
  \<^item> \<open>tell_accepts\<close>: whether the SDK channel takes a log entry, as a function of every
    call made so far (the history grows with each attempt, so any sequence of refusals and
    acceptances is some such function).
\<close>

record deps =
  simd_from_utf8 :: "string \<Rightarrow> bool"
  memchr :: "char \<Rightarrow> string \<Rightarrow> nat option"
  serde_from_str :: "string \<Rightarrow> json option"
  serde_to_string :: "json \<Rightarrow> string"
  serde_members :: "string \<Rightarrow> (string \<times> json) list option"
  cp_to_vec :: "checkpoint \<Rightarrow> string"
  cp_from_slice :: "string \<Rightarrow> checkpoint option"
  xml_read :: "string \<Rightarrow> xml_event list"
  to_lowercase :: "string \<Rightarrow> string"
  toml_read :: "string \<Rightarrow> (string \<times> toml) list option"
  regex_new :: "string \<Rightarrow> bool"
  regex_is_match :: "string \<Rightarrow> string \<Rightarrow> bool"
  glob_new :: "string \<Rightarrow> bool"
  glob_matches :: "string \<Rightarrow> string \<Rightarrow> bool"
  tell_accepts :: "tell_call list \<Rightarrow> log_entry \<Rightarrow> bool"

definition memchr_ok :: "deps \<Rightarrow> bool" where
  "memchr_ok d \<longleftrightarrow> (\<forall>c s. memchr d c s = position ((=) c) s)"

definition simd_ok :: "deps \<Rightarrow> bool" where
  "simd_ok d \<longleftrightarrow> (\<forall>s. simd_from_utf8 d s = utf8_valid s)"

definition lowercase_ok :: "deps \<Rightarrow> bool" where
  "lowercase_ok d \<longleftrightarrow>
     (\<forall>s. (\<forall>c \<in> set s. code c < 128) \<longrightarrow> to_lowercase d s = to_ascii_lowercase s)"

text \<open>
  A concrete instance that meets the predicates, on which theorems about the model are
  evaluated. Its JSON reader knows no document, and its channel accepts every entry.
\<close>

definition ref_deps :: deps where
  "ref_deps =
     \<lparr>simd_from_utf8 = utf8_valid, memchr = (\<lambda>c. position ((=) c)),
      serde_from_str = (\<lambda>_. None), serde_to_string = (\<lambda>_. []), serde_members = (\<lambda>_. None),
      cp_to_vec = (\<lambda>c. boot_uuid c @ [NL] @ show_nat (mach_timestamp c) @ [NL] @ wall_timestamp c),
      cp_from_slice = (\<lambda>s. case splitn 3 NL s of [b, m, w] \<Rightarrow>
         map_option (\<lambda>n. \<lparr>boot_uuid = b, mach_timestamp = n, wall_timestamp = w\<rparr>) (parse_u64 m) | _ \<Rightarrow> None),
      xml_read = (\<lambda>_. []),
      to_lowercase = to_ascii_lowercase, toml_read = (\<lambda>_. None), regex_new = (\<lambda>_. True),
      regex_is_match = (\<lambda>p s. prefix p s), glob_new = (\<lambda>_. True), glob_matches = (\<lambda>p s. p = s),
      tell_accepts = (\<lambda>_ _. True)\<rparr>"

lemma ref_deps_ok: "memchr_ok ref_deps" "simd_ok ref_deps" "lowercase_ok ref_deps"
  by (simp_all add: ref_deps_def memchr_ok_def simd_ok_def lowercase_ok_def)

text \<open>The reference instance with another channel.\<close>

definition full_deps :: deps where
  "full_deps = ref_deps\<lparr>tell_accepts := (\<lambda>_ _. False)\<rparr>"

lemma full_deps_ok: "memchr_ok full_deps" "simd_ok full_deps"
  by (simp_all add: full_deps_def ref_deps_def memchr_ok_def simd_ok_def)

end
