(* ===== verification/Syslog.thy ===== *)
theory Syslog
  imports External
begin

text \<open>
  \<open>src/logs/syslog.rs\<close>: extraction of program name and body from a syslog line, with the
  shape of every line it accepts and the envelope it inverts.
\<close>

record syslog_parsed =
  program :: string
  body :: string

definition is_program_byte :: "char \<Rightarrow> bool" where
  "is_program_byte b \<longleftrightarrow>
     is_ascii_alphanumeric b \<or> b = CHR ''-'' \<or> b = CHR ''_'' \<or> b = CHR ''.''"

fun is_valid_program :: "string \<Rightarrow> bool" where
  "is_valid_program [] = False"
| "is_valid_program (b # bs) = (is_ascii_alphabetic b \<and> list_all is_program_byte bs)"

definition strip_pid :: "string \<Rightarrow> string" where
  "strip_pid tag = (case position ((=) CHR ''['') tag of Some i \<Rightarrow> take i tag | None \<Rightarrow> tag)"

definition syslog_parse :: "string \<Rightarrow> syslog_parsed option" where
  "syslog_parse line =
     (case find_sub '': '' line of
        None \<Rightarrow> None
      | Some sep \<Rightarrow>
          (case rfind_char SP (take sep line) of
             None \<Rightarrow> None
           | Some i \<Rightarrow>
               (let prog = strip_pid (drop (i + 1) (take sep line)) in
                if is_valid_program prog
                then Some \<lparr>program = prog, body = drop (sep + 2) line\<rparr> else None)))"

section \<open>Searching\<close>

lemma find_sub_Some:
  "find_sub n s = Some i \<Longrightarrow> s = take i s @ n @ drop (i + length n) s \<and> i + length n \<le> length s"
proof (induction s arbitrary: i)
  case (Cons c s)
  show ?case
  proof (cases "prefix n (c # s)")
    case True
    then obtain zs where "c # s = n @ zs" by (auto simp: prefix_def)
    with Cons.prems True show ?thesis by (metis add_0 append_Nil append_eq_conv_conj find_sub.simps(2)
          le_add1 length_append option.inject take0)
  next
    case False
    with Cons.prems obtain j where j: "find_sub n s = Some j" "i = Suc j" by auto
    from Cons.IH [OF j(1)] j(2) show ?thesis by auto
  qed
qed (auto split: if_splits)

lemma find_sub_colon:
  assumes "find_sub '': '' a = None" and "a = [] \<or> last a \<noteq> CHR '':''"
  shows "find_sub '': '' (a @ '': '' @ b) = Some (length a)"
  using assms
proof (induction a)
  case (Cons x a)
  have "\<not> prefix '': '' ((x # a) @ '': '' @ b)"
    using Cons.prems by (cases a) (auto split: if_splits)
  moreover have "find_sub '': '' (a @ '': '' @ b) = Some (length a)"
    using Cons by (auto split: if_splits)
  ultimately show ?case by simp
qed simp

lemma rfind_char_Some:
  assumes "rfind_char c s = Some i"
  shows "i < length s" and "s = take i s @ c # drop (Suc i) s" and "c \<notin> set (drop (Suc i) s)"
proof -
  from assms obtain j where j: "position ((=) c) (rev s) = Some j" "i = length s - 1 - j"
    by (auto simp: rfind_char_def)
  note p = position_Some [OF j(1)]
  from p have jl: "j < length s" by simp
  with j(2) show il: "i < length s" by simp
  have si: "s ! i = c" using p jl j(2) by (auto simp: rev_nth)
  with il show "s = take i s @ c # drop (Suc i) s" by (metis id_take_nth_drop)
  show "c \<notin> set (drop (Suc i) s)"
  proof
    assume "c \<in> set (drop (Suc i) s)"
    then obtain m where m: "m < length s - Suc i" "s ! (Suc i + m) = c"
      by (auto simp: in_set_conv_nth)
    then have "rev s ! (length s - 1 - (Suc i + m)) = c" by (auto simp: rev_nth)
    moreover have "length s - 1 - (Suc i + m) < j" using m(1) j(2) jl by simp
    ultimately show False using p by auto
  qed
qed

lemma rfind_char_append:
  assumes "c \<notin> set b"
  shows "rfind_char c (a @ c # b) = Some (length a)"
proof -
  have "position ((=) c) (rev b @ c # rev a) = Some (length (rev b))"
    using assms by (intro position_append_stop) auto
  then show ?thesis by (simp add: rfind_char_def)
qed

section \<open>What is accepted, and the envelope\<close>

lemma strip_pid_split: "\<exists>mid. tag = strip_pid tag @ mid \<and> (mid = [] \<or> hd mid = CHR ''['')"
proof (cases "position ((=) CHR ''['') tag")
  case (Some i)
  from position_Some [OF this] have "hd (drop i tag) = CHR ''[''"
    by (auto simp: hd_drop_conv_nth)
  moreover have "tag = strip_pid tag @ drop i tag" by (simp add: strip_pid_def Some)
  ultimately show ?thesis by blast
qed (simp add: strip_pid_def)

lemma strip_pid_bracket: "CHR ''['' \<notin> set p \<Longrightarrow> strip_pid (p @ CHR ''['' # q) = p"
proof -
  assume "CHR ''['' \<notin> set p"
  then have "position ((=) CHR ''['') (p @ CHR ''['' # q) = Some (length p)"
    by (intro position_append_stop) auto
  then show ?thesis by (simp add: strip_pid_def)
qed

lemma valid_program_bytes:
  "is_valid_program p \<Longrightarrow> c \<in> set p \<Longrightarrow> is_program_byte c"
  by (cases p) (auto simp: list_all_iff is_program_byte_def is_ascii_alphanumeric_def)

lemma valid_program_no_delim:
  "is_valid_program p \<Longrightarrow> CHR ''['' \<notin> set p \<and> SP \<notin> set p \<and> CHR '':'' \<notin> set p"
  using valid_program_bytes [of p] by (fastforce simp: is_program_byte_def ascii_defs)

lemma syslog_parse_sound:
  assumes "syslog_parse line = Some r"
  shows "\<exists>pre pid. line = pre @ [SP] @ program r @ pid @ '': '' @ body r
    \<and> is_valid_program (program r) \<and> (pid = [] \<or> hd pid = CHR ''['') \<and> SP \<notin> set pid"
proof -
  from assms obtain sep i where sep: "find_sub '': '' line = Some sep"
    and i: "rfind_char SP (take sep line) = Some i"
    and v: "is_valid_program (strip_pid (drop (i + 1) (take sep line)))"
    and r: "r = \<lparr>program = strip_pid (drop (i + 1) (take sep line)), body = drop (sep + 2) line\<rparr>"
    by (auto simp: syslog_parse_def Let_def split: option.splits if_splits)
  obtain mid where mid: "drop (i + 1) (take sep line) = program r @ mid"
    "mid = [] \<or> hd mid = CHR ''[''"
    using strip_pid_split [of "drop (i + 1) (take sep line)"] r by auto
  have before: "take sep line = take i (take sep line) @ SP # program r @ mid"
    using rfind_char_Some(2) [OF i] mid(1) by (metis Suc_eq_plus1)
  have "SP \<notin> set mid" using rfind_char_Some(3) [OF i] mid(1) by simp
  moreover have "line = take i (take sep line) @ [SP] @ program r @ mid @ '': '' @ body r"
  proof -
    have "line = take sep line @ '': '' @ body r" using find_sub_Some [OF sep] r by simp
    also have "\<dots> = (take i (take sep line) @ SP # program r @ mid) @ '': '' @ body r"
      using arg_cong [OF before, of "\<lambda>x. x @ '': '' @ body r"] .
    finally show ?thesis by simp
  qed
  ultimately show ?thesis using v r mid(2) by fastforce
qed

lemma syslog_parse_at:
  assumes "find_sub '': '' (a @ '': '' @ msg) = Some (length a)"
    and "rfind_char SP a = Some i" and "strip_pid (drop (i + 1) a) = prog"
    and "is_valid_program prog"
  shows "syslog_parse (a @ '': '' @ msg) = Some \<lparr>program = prog, body = msg\<rparr>"
  using assms by (simp add: syslog_parse_def)

lemma syslog_parse_envelope:
  assumes "find_sub '': '' (pre @ [SP] @ prog @ pid) = None"
    and "is_valid_program prog" and "pid = [] \<or> hd pid = CHR ''['' \<and> SP \<notin> set pid \<and> last pid \<noteq> CHR '':''"
  shows "syslog_parse (pre @ [SP] @ prog @ pid @ '': '' @ msg) = Some \<lparr>program = prog, body = msg\<rparr>"
proof -
  let ?a = "pre @ [SP] @ prog @ pid"
  have nd: "CHR ''['' \<notin> set prog" "SP \<notin> set prog" "CHR '':'' \<notin> set prog" "prog \<noteq> []"
    using valid_program_no_delim [OF assms(2)] assms(2) by auto
  have "last prog \<in> set prog" using nd(4) by simp
  then have "last prog \<noteq> CHR '':''" using nd(3) by (cases "last prog = CHR '':''") simp_all
  then have "last ?a \<noteq> CHR '':''"
    using assms(3) nd(4) by (cases "pid = []") simp_all
  then have f: "find_sub '': '' (?a @ '': '' @ msg) = Some (length ?a)"
    using find_sub_colon [OF assms(1), of msg] by simp
  have rf: "rfind_char SP ?a = Some (length pre)"
    using rfind_char_append [of SP "prog @ pid" pre] nd assms(3) by auto
  have "strip_pid (prog @ pid) = prog"
  proof (cases pid)
    case Nil
    with nd(1) show ?thesis by (simp add: strip_pid_def position_eq_None [THEN iffD2])
  next
    case (Cons x xs)
    with assms(3) nd(1) show ?thesis by (simp add: strip_pid_bracket)
  qed
  then have tag: "strip_pid (drop (length pre + 1) ?a) = prog" by simp
  show ?thesis using syslog_parse_at [OF f rf tag assms(2)] by simp
qed

section \<open>Properties\<close>

text \<open>
  The syslog parser inverts the envelope. For any text before the tag, any valid
  program name and any optional bracketed suffix, the parser returns exactly the program
  and the message, provided no colon-space occurs before the tag ends.
\<close>

theorem syslog_roundtrip:
  assumes "find_sub '': '' (pre @ [SP] @ prog @ pid) = None"
    and "is_valid_program prog" and "pid = [] \<or> hd pid = CHR ''['' \<and> SP \<notin> set pid \<and> last pid \<noteq> CHR '':''"
  shows "syslog_parse (pre @ [SP] @ prog @ pid @ '': '' @ msg) = Some \<lparr>program = prog, body = msg\<rparr>"
  by (rule syslog_parse_envelope [OF assms])

theorem syslog_roundtrip_witness:
  "syslog_parse (''Jan 5 host'' @ [SP] @ ''sshd'' @ ''[42]'' @ '': '' @ ''ok: yes'') = Some \<lparr>program = ''sshd'', body = ''ok: yes''\<rparr>"
  by (rule syslog_roundtrip) (simp_all add: is_program_byte_def ascii_defs)

text \<open>
  Whatever the parser accepts has the shape of an envelope: the line is some text, a
  space, the returned program (a valid name), an optional bracketed suffix without spaces,
  a colon-space and the returned body; nothing is lost or invented.
\<close>

theorem syslog_sound:
  assumes "syslog_parse line = Some r"
  shows "\<exists>pre pid. line = pre @ [SP] @ program r @ pid @ '': '' @ body r
    \<and> is_valid_program (program r) \<and> (pid = [] \<or> hd pid = CHR ''['') \<and> SP \<notin> set pid"
  by (rule syslog_parse_sound [OF assms])

theorem syslog_sound_witness:
  "\<exists>pre pid. ''a cron: x'' = pre @ [SP] @ ''cron'' @ pid @ '': '' @ ''x''"
proof -
  have "syslog_parse ''a cron: x'' = Some \<lparr>program = ''cron'', body = ''x''\<rparr>"
    by (simp add: syslog_parse_def rfind_char_def strip_pid_def is_program_byte_def ascii_defs)
  from syslog_sound [OF this] show ?thesis by auto
qed

end
