(* ===== verification/Structured.thy ===== *)
theory Structured
  imports Syslog
begin

text \<open>
  \<open>src/logs/structured.rs\<close>: extraction of an event phrase and fields from JSON or logfmt
  text, and severity detection. Loops over a byte index become recursion on the rest of
  the string after that index; \<open>logfmt_field_start\<close> keeps its indices, because it walks
  backwards.
\<close>

record file_parse_opts =
  o_syslog :: bool
  o_structured :: bool
  o_levels :: bool

record classified =
  c_level :: log_level
  c_body :: string
  c_service :: "string option"
  c_payload :: "json option"

section \<open>Logfmt\<close>

definition is_logfmt_key_byte :: "char \<Rightarrow> bool" where
  "is_logfmt_key_byte b \<longleftrightarrow>
     is_ascii_alphanumeric b \<or> b = CHR ''_'' \<or> b = CHR ''-'' \<or> b = CHR ''.''"

text \<open>\<open>memchr_iter\<close>: the positions of a byte, each found from the one before.\<close>

function memchr_iter :: "deps \<Rightarrow> char \<Rightarrow> string \<Rightarrow> nat \<Rightarrow> nat list" where
  "memchr_iter d c s off =
     (if length s \<le> off then []
      else (case memchr d c (drop off s) of
              None \<Rightarrow> []
            | Some i \<Rightarrow> (off + i) # memchr_iter d c s (off + i + 1)))"
  by pat_completeness auto
termination
  by (relation "measure (\<lambda>(d, c, s, off). length s - off)") auto

declare memchr_iter.simps [simp del]

fun key_back :: "string \<Rightarrow> nat \<Rightarrow> nat" where
  "key_back s 0 = 0"
| "key_back s (Suc k) = (if is_logfmt_key_byte (s ! k) then key_back s k else Suc k)"

fun logfmt_first :: "string \<Rightarrow> nat list \<Rightarrow> nat option" where
  "logfmt_first s [] = None"
| "logfmt_first s (eq # eqs) =
     (let k = key_back s eq in
      if k < eq \<and> 0 < k \<and> s ! (k - 1) = SP then Some (k - 1) else logfmt_first s eqs)"

definition logfmt_field_start :: "deps \<Rightarrow> string \<Rightarrow> nat option" where
  "logfmt_field_start d s = logfmt_first s (memchr_iter d (CHR ''='') s 0)"

text \<open>A quoted value after its opening quote: the unescaped text and what follows.\<close>

fun read_quoted :: "string \<Rightarrow> string \<times> string" where
  "read_quoted [] = ([], [])"
| "read_quoted (c # cs) =
     (if c = DQ then ([], cs)
      else if c = BSL then
        (case cs of
           [] \<Rightarrow> ([c], [])
         | e # es \<Rightarrow>
             if e = DQ then (let (v, r) = read_quoted es in (DQ # v, r))
             else if e = BSL then (let (v, r) = read_quoted es in (BSL # v, r))
             else if e = CHR ''n'' then (let (v, r) = read_quoted es in (NL # v, r))
             else (let (v, r) = read_quoted cs in (c # v, r)))
      else (let (v, r) = read_quoted cs in (c # v, r)))"

lemma read_quoted_cases:
  assumes "read_quoted (c # cs) = (v, r)"
  obtains "r = cs" | "r = []" | e es w where "cs = e # es" "read_quoted es = (w, r)"
    | w where "read_quoted cs = (w, r)"
  using assms
  by (auto simp del: read_quoted.simps simp: read_quoted.simps(2) [of c cs] Let_def
      split: if_splits list.splits prod.splits)

lemma read_quoted_length: "read_quoted s = (v, r) \<Longrightarrow> length r \<le> length s"
proof (induction s arbitrary: v rule: length_induct)
  case (1 s)
  show ?case
  proof (cases s)
    case Nil
    with 1(2) show ?thesis by simp
  next
    case (Cons c cs)
    have IH: "length t < length s \<Longrightarrow> read_quoted t = (w, r) \<Longrightarrow> length r \<le> length t" for t w
      using 1(1) by blast
    from 1(2) Cons have "read_quoted (c # cs) = (v, r)" by simp
    then show ?thesis
    proof (cases rule: read_quoted_cases)
      case (3 e es w)
      then show ?thesis using IH [of es w] Cons by simp
    next
      case (4 w)
      then show ?thesis using IH [of cs w] Cons by simp
    qed (simp_all add: Cons)
  qed
qed

text \<open>
  One round of the field loop: \<open>None\<close> at the end, otherwise the field it pushed, if any,
  and the rest of the string.
\<close>

definition logfmt_step :: "string \<Rightarrow> ((string \<times> string) option \<times> string) option" where
  "logfmt_step s =
     (let s1 = dropWhile ((=) SP) s;
          key = takeWhile is_logfmt_key_byte s1;
          rest = dropWhile is_logfmt_key_byte s1 in
      if s1 = [] then None
      else if key = [] \<or> rest = [] \<or> hd rest \<noteq> CHR ''=''
      then Some (None, dropWhile ((\<noteq>) SP) rest)
      else if tl rest \<noteq> [] \<and> hd (tl rest) = DQ
      then (case read_quoted (tl (tl rest)) of (v, r) \<Rightarrow> Some (Some (key, v), r))
      else Some (Some (key, takeWhile ((\<noteq>) SP) (tl rest)), dropWhile ((\<noteq>) SP) (tl rest)))"

lemma logfmt_step_shorter:
  assumes "logfmt_step s = Some (kv, r)"
  shows "length r < length s"
proof -
  define s1 where "s1 = dropWhile ((=) SP) s"
  define key where "key = takeWhile is_logfmt_key_byte s1"
  define rest where "rest = dropWhile is_logfmt_key_byte s1"
  note defs = s1_def [symmetric] key_def [symmetric] rest_def [symmetric]
  have s1: "s1 \<noteq> []" "length s1 \<le> length s"
    using assms length_dropWhile_le [of "(=) SP" s] by (auto simp: logfmt_step_def Let_def defs)
  have len: "length key + length rest = length s1"
    unfolding key_def rest_def by (metis length_append takeWhile_dropWhile_id)
  consider (bad) "key = [] \<or> rest = [] \<or> hd rest \<noteq> CHR ''=''" "r = dropWhile ((\<noteq>) SP) rest"
    | (quoted) v where "key \<noteq> []" "rest \<noteq> []" "read_quoted (tl (tl rest)) = (v, r)"
    | (bare) "key \<noteq> []" "rest \<noteq> []" "r = dropWhile ((\<noteq>) SP) (tl rest)"
    using assms s1(1) by (auto simp: logfmt_step_def Let_def defs split: if_splits prod.splits)
  then have "length r < length s1"
  proof cases
    case bad
    show ?thesis
    proof (cases "key = []")
      case True
      then have "rest = s1" using len by (metis append_Nil key_def rest_def takeWhile_dropWhile_id)
      moreover have "hd s1 \<noteq> SP" using s1(1) hd_dropWhile [of "(=) SP" s] by (auto simp: s1_def)
      ultimately have "r = dropWhile ((\<noteq>) SP) (tl s1)" using s1(1) bad(2) by (cases s1) auto
      then show ?thesis using s1(1) length_dropWhile_le [of "(\<noteq>) SP" "tl s1"] by (cases s1) auto
    next
      case False
      then show ?thesis using len bad(2) length_dropWhile_le [of "(\<noteq>) SP" rest] by (cases key) auto
    qed
  next
    case quoted
    then show ?thesis using len read_quoted_length [of "tl (tl rest)" v r]
      by (cases key; cases rest) auto
  next
    case bare
    then show ?thesis using len length_dropWhile_le [of "(\<noteq>) SP" "tl rest"]
      by (cases key; cases rest) auto
  qed
  with s1(2) show ?thesis by simp
qed

function parse_logfmt_fields :: "string \<Rightarrow> (string \<times> string) list" where
  "parse_logfmt_fields s =
     (case logfmt_step s of
        None \<Rightarrow> []
      | Some (kv, r) \<Rightarrow> (case kv of None \<Rightarrow> [] | Some f \<Rightarrow> [f]) @ parse_logfmt_fields r)"
  by pat_completeness auto
termination
  by (relation "measure length") (auto dest: logfmt_step_shorter)

declare parse_logfmt_fields.simps [simp del]

text \<open>Collecting the fields into a JSON object.\<close>

definition logfmt_object :: "(string \<times> string) list \<Rightarrow> (string \<times> json) list" where
  "logfmt_object kvs = fold (\<lambda>(k, v). bt_insert k v) (map (\<lambda>(k, v). (k, JString v)) kvs) []"

section \<open>Message and fields\<close>

definition json_text :: "deps \<Rightarrow> json \<Rightarrow> string" where
  "json_text d v = (case v of JString s \<Rightarrow> s | _ \<Rightarrow> serde_to_string d v)"

definition non_empty_object :: "(string \<times> json) list \<Rightarrow> json option" where
  "non_empty_object obj = (if obj = [] then None else Some (JObject obj))"

definition split_json :: "deps \<Rightarrow> string \<Rightarrow> (string \<times> json) list \<Rightarrow> string \<times> json option" where
  "split_json d message obj =
     (case map_of obj ''msg'' of
        Some v \<Rightarrow> (json_text d v, non_empty_object (bt_remove ''msg'' obj))
      | None \<Rightarrow>
          (case map_of obj ''message'' of
             Some v \<Rightarrow> (json_text d v, non_empty_object (bt_remove ''message'' obj))
           | None \<Rightarrow> (message, non_empty_object obj)))"

definition split_logfmt :: "deps \<Rightarrow> string \<Rightarrow> string \<times> json option" where
  "split_logfmt d message =
     (case logfmt_field_start d message of
        Some i \<Rightarrow> (take i message, non_empty_object (logfmt_object (parse_logfmt_fields (drop (i + 1) message))))
      | None \<Rightarrow> (message, None))"

definition split_message :: "deps \<Rightarrow> string \<Rightarrow> string \<times> json option" where
  "split_message d message =
     (let trimmed = trim_start message in
      if starts_with trimmed ''{'' then
        (case serde_from_str d trimmed of
           Some (JObject obj) \<Rightarrow> split_json d message obj
         | _ \<Rightarrow> split_logfmt d message)
      else split_logfmt d message)"

section \<open>Severity\<close>

fun numeric_level :: "nat \<Rightarrow> log_level option" where
  "numeric_level n =
     (if n = 0 then Some Emergency else if n = 1 then Some Alert else if n = 2 then Some Critical
      else if n = 3 then Some Error else if n = 4 then Some Warning else if n = 5 then Some Notice
      else if n = 6 then Some Info else if n = 7 then Some Debug else None)"

definition level_names :: "(string \<times> log_level) list" where
  "level_names =
     [(''trace'', Debug), (''debug'', Debug), (''info'', Info), (''notice'', Notice),
      (''warn'', Warning), (''warning'', Warning), (''err'', Error), (''error'', Error),
      (''crit'', Critical), (''critical'', Critical), (''fatal'', Critical), (''panic'', Critical)]"

definition level_from_str :: "string \<Rightarrow> log_level option" where
  "level_from_str s =
     (let t = trim s in
      case parse_u64 t of
        Some n \<Rightarrow> numeric_level n
      | None \<Rightarrow> map_of level_names (to_ascii_lowercase t))"

fun level_from_value :: "json \<Rightarrow> log_level option" where
  "level_from_value (JString s) = level_from_str s"
| "level_from_value (JNumber n) = (case as_u64 n of Some k \<Rightarrow> numeric_level k | None \<Rightarrow> None)"
| "level_from_value _ = None"

definition LEVEL_KEYS :: "string list" where
  "LEVEL_KEYS = [''level'', ''severity'', ''lvl'']"

definition is_level_key :: "string \<Rightarrow> bool" where
  "is_level_key k \<longleftrightarrow> (\<exists>c \<in> set LEVEL_KEYS. eq_ignore_ascii_case k c)"

definition take_level :: "(string \<times> json) list \<Rightarrow> (log_level \<times> (string \<times> json) list) option" where
  "take_level obj =
     (case List.find (\<lambda>(k, _). is_level_key k) obj of
        None \<Rightarrow> None
      | Some (k, _) \<Rightarrow>
          (case map_of obj k of
             None \<Rightarrow> None
           | Some v \<Rightarrow>
               (case level_from_value v of
                  None \<Rightarrow> None
                | Some l \<Rightarrow> Some (l, bt_remove k obj))))"

definition LEVEL_SCAN_WINDOW :: nat where
  "LEVEL_SCAN_WINDOW = 96"

definition is_word_byte :: "char \<Rightarrow> bool" where
  "is_word_byte b \<longleftrightarrow> is_ascii_alphanumeric b \<or> b = CHR ''_''"

definition token_levels :: "(string \<times> log_level) list" where
  "token_levels =
     [(''TRACE'', Debug), (''trace'', Debug), (''DEBUG'', Debug), (''debug'', Debug),
      (''INFO'', Info), (''info'', Info), (''NOTICE'', Notice), (''notice'', Notice),
      (''WARN'', Warning), (''warn'', Warning), (''WARNING'', Warning), (''warning'', Warning),
      (''ERR'', Error), (''err'', Error), (''ERROR'', Error), (''error'', Error),
      (''CRIT'', Critical), (''crit'', Critical), (''CRITICAL'', Critical), (''critical'', Critical),
      (''FATAL'', Critical), (''fatal'', Critical), (''PANIC'', Critical), (''panic'', Critical)]"

definition level_for_token :: "string \<Rightarrow> log_level option" where
  "level_for_token w = map_of token_levels w"

function scan_tokens :: "string \<Rightarrow> log_level option" where
  "scan_tokens s =
     (let r = dropWhile (\<lambda>c. \<not> is_word_byte c) s in
      if r = [] then None
      else (case level_for_token (takeWhile is_word_byte r) of
              Some l \<Rightarrow> Some l
            | None \<Rightarrow> scan_tokens (dropWhile is_word_byte r)))"
  by pat_completeness auto

lemma dropWhile_word_shorter:
  assumes "dropWhile (\<lambda>c. \<not> P c) s \<noteq> []"
  shows "length (dropWhile P (dropWhile (\<lambda>c. \<not> P c) s)) < length s"
proof -
  obtain x xs where r: "dropWhile (\<lambda>c. \<not> P c) s = x # xs"
    using assms by (cases "dropWhile (\<lambda>c. \<not> P c) s") auto
  have "P x" using hd_dropWhile [OF assms] r by simp
  then have "length (dropWhile P (x # xs)) < length (x # xs)"
    using length_dropWhile_le [of P xs] by (simp add: le_imp_less_Suc)
  also have "\<dots> \<le> length s" using length_dropWhile_le [of "\<lambda>c. \<not> P c" s] r by simp
  finally show ?thesis using r by simp
qed

termination scan_tokens
  by (relation "measure length") (auto simp del: dropWhile_eq_Nil_conv dest: dropWhile_word_shorter)

declare scan_tokens.simps [simp del]

definition scan_line_level :: "string \<Rightarrow> log_level option" where
  "scan_line_level line = scan_tokens (take LEVEL_SCAN_WINDOW line)"

section \<open>Classification\<close>

definition classify_line :: "deps \<Rightarrow> string \<Rightarrow> file_parse_opts \<Rightarrow> classified" where
  "classify_line d line opts =
     (let (body_src, service) =
            (if o_syslog opts
             then (case syslog_parse line of
                     Some p \<Rightarrow> (body p, Some (program p)) | None \<Rightarrow> (line, None))
             else (line, None));
          (bdy, fs, found) =
            (if o_structured opts
             then (let (b, fs) = split_message d body_src in
                   if o_levels opts
                   then (case fs of
                           Some (JObject obj) \<Rightarrow>
                             (case take_level obj of
                                Some (l, obj') \<Rightarrow> (b, Some (JObject obj'), Some l)
                              | None \<Rightarrow> (b, fs, None))
                         | _ \<Rightarrow> (b, fs, None))
                   else (b, fs, None))
             else (body_src, None, None));
          payload = (case fs of Some (JObject []) \<Rightarrow> None | other \<Rightarrow> other);
          level = (case found of
                     Some l \<Rightarrow> l
                   | None \<Rightarrow>
                       if o_levels opts
                       then (case scan_line_level bdy of Some l \<Rightarrow> l | None \<Rightarrow> Info)
                       else Info)
      in \<lparr>c_level = level, c_body = bdy, c_service = service, c_payload = payload\<rparr>)"

end
