(* ===== verification/Structured_Props.thy ===== *)
theory Structured_Props
  imports Structured
begin

text \<open>
  Facts about \<open>Structured\<close>: the backward search for the first logfmt field against the
  forward probe it optimises, the inverse of the logfmt reader, the tokens the severity
  scan can see, and what consuming a level key does to a payload.
\<close>

section \<open>Where the first logfmt field starts\<close>

lemma memchr_iter_filter:
  assumes "memchr_ok d"
  shows "memchr_iter d c s off = filter (\<lambda>i. s ! i = c) [off..<length s]"
  using assms
proof (induction d c s off rule: memchr_iter.induct)
  case (1 d c s off)
  have mc: "memchr d c (drop off s) = position ((=) c) (drop off s)"
    using 1(2) by (simp add: memchr_ok_def)
  consider (stop) "length s \<le> off" | (none) "off < length s" "position ((=) c) (drop off s) = None"
    | (some) i where "off < length s" "position ((=) c) (drop off s) = Some i"
    by fastforce
  then show ?case
  proof cases
    case none
    then have "\<forall>j \<in> set [off..<length s]. s ! j \<noteq> c"
      by (auto simp: position_eq_None in_set_conv_nth) (metis add_diff_inverse_nat diff_less_mono less_le_not_le linorder_not_less nth_drop)
    then show ?thesis
      using none mc by (subst memchr_iter.simps) (auto simp: filter_empty_conv)
  next
    case (some i)
    note p = position_Some [OF some(2)]
    have oi: "off + i < length s" using p by auto
    have split: "[off..<length s] = [off..<off + i] @ (off + i) # [off + i + 1..<length s]"
      using upt_add_eq_append [of off "off + i" "length s - (off + i)"] oi
        upt_conv_Cons [OF oi] by (simp add: add_diff_inverse_nat)
    have "\<forall>j \<in> set [off..<off + i]. s ! j \<noteq> c"
    proof
      fix j assume "j \<in> set [off..<off + i]"
      then show "s ! j \<noteq> c" using p some(1) spec [of "\<lambda>m. m < i \<longrightarrow> c \<noteq> drop off s ! m" "j - off"] by auto
    qed
    moreover have "s ! (off + i) = c" using p some(1) by auto
    ultimately show ?thesis
      using 1(1) [OF _ _ 1(2), of i] some mc
      by (subst memchr_iter.simps) (simp add: split filter_empty_conv)
  qed (simp add: memchr_iter.simps)
qed

text \<open>The reference: probe at every space for a key run followed by an equals sign.\<close>

definition key_then_eq :: "string \<Rightarrow> bool" where
  "key_then_eq cs \<longleftrightarrow>
     takeWhile is_logfmt_key_byte cs \<noteq> [] \<and> dropWhile is_logfmt_key_byte cs \<noteq> []
       \<and> hd (dropWhile is_logfmt_key_byte cs) = CHR ''=''"

fun logfmt_probe :: "string \<Rightarrow> nat option" where
  "logfmt_probe [] = None"
| "logfmt_probe (c # cs) =
     (if c = SP \<and> key_then_eq cs then Some 0 else map_option Suc (logfmt_probe cs))"

text \<open>\<open>field_at s e i\<close>: a space at \<open>i\<close>, key bytes after it, and an equals sign at \<open>e\<close>.\<close>

definition field_at :: "string \<Rightarrow> nat \<Rightarrow> nat \<Rightarrow> bool" where
  "field_at s e i \<longleftrightarrow>
     e < length s \<and> s ! e = CHR ''='' \<and> Suc i < e \<and> s ! i = SP
       \<and> (\<forall>j. i < j \<longrightarrow> j < e \<longrightarrow> is_logfmt_key_byte (s ! j))"

lemma not_key_byte [simp]:
  "\<not> is_logfmt_key_byte SP" "\<not> is_logfmt_key_byte (CHR ''='')" "\<not> is_logfmt_key_byte DQ"
  by (simp_all add: is_logfmt_key_byte_def ascii_defs)

lemma key_then_eq_append:
  "key_then_eq cs \<longleftrightarrow>
     (\<exists>k r. cs = k @ CHR ''='' # r \<and> k \<noteq> [] \<and> (\<forall>c \<in> set k. is_logfmt_key_byte c))"
proof
  assume *: "key_then_eq cs"
  then have "cs = takeWhile is_logfmt_key_byte cs @ CHR ''='' # tl (dropWhile is_logfmt_key_byte cs)"
    unfolding key_then_eq_def by (metis list.collapse takeWhile_dropWhile_id)
  with * show "\<exists>k r. cs = k @ CHR ''='' # r \<and> k \<noteq> [] \<and> (\<forall>c \<in> set k. is_logfmt_key_byte c)"
    unfolding key_then_eq_def by (metis set_takeWhileD)
next
  assume "\<exists>k r. cs = k @ CHR ''='' # r \<and> k \<noteq> [] \<and> (\<forall>c \<in> set k. is_logfmt_key_byte c)"
  then show "key_then_eq cs"
    by (auto simp: key_then_eq_def takeWhile_append_stop dropWhile_append_stop)
qed

lemma field_at_drop: "(\<exists>e. field_at s e i) \<longleftrightarrow> i < length s \<and> s ! i = SP \<and> key_then_eq (drop (Suc i) s)"
proof
  assume "\<exists>e. field_at s e i"
  then obtain e where e: "field_at s e i" ..
  have "drop (Suc i) s = take (e - Suc i) (drop (Suc i) s)
      @ CHR ''='' # drop (Suc (e - Suc i)) (drop (Suc i) s)"
    using e id_take_nth_drop [of "e - Suc i" "drop (Suc i) s"] by (auto simp: field_at_def)
  moreover have "\<forall>c \<in> set (take (e - Suc i) (drop (Suc i) s)). is_logfmt_key_byte c"
    using e by (auto simp: field_at_def in_set_conv_nth)
  moreover have "take (e - Suc i) (drop (Suc i) s) \<noteq> []" using e by (auto simp: field_at_def)
  ultimately have "key_then_eq (drop (Suc i) s)" unfolding key_then_eq_append by blast
  with e show "i < length s \<and> s ! i = SP \<and> key_then_eq (drop (Suc i) s)"
    by (auto simp: field_at_def)
next
  assume *: "i < length s \<and> s ! i = SP \<and> key_then_eq (drop (Suc i) s)"
  then obtain k r where kr: "drop (Suc i) s = k @ CHR ''='' # r" "k \<noteq> []"
    "\<forall>c \<in> set k. is_logfmt_key_byte c" by (auto simp: key_then_eq_append)
  have at: "s ! (Suc i + m) = (k @ CHR ''='' # r) ! m" if "Suc i + m < length s" for m
    using that by (simp flip: kr(1))
  have len: "length s = Suc i + length k + Suc (length r)"
    using kr(1) * by (metis add.assoc add_Suc_right append_take_drop_id length_Cons length_append
        length_take min.absorb4 Suc_leI min.absorb2)
  have "field_at s (Suc i + length k) i"
    unfolding field_at_def
  proof (intro conjI allI impI)
    fix j assume "i < j" "j < Suc i + length k"
    then have "s ! j = k ! (j - Suc i)" "j - Suc i < length k"
      using at [of "j - Suc i"] len by (auto simp: nth_append)
    then show "is_logfmt_key_byte (s ! j)" using kr(3) by auto
  qed (use * kr(2) len at [of "length k"] in auto)
  then show "\<exists>e. field_at s e i" ..
qed

lemma key_back_le: "key_back s e \<le> e"
  by (induction s e rule: key_back.induct) auto

lemma key_back_run: "key_back s e \<le> j \<Longrightarrow> j < e \<Longrightarrow> is_logfmt_key_byte (s ! j)"
  by (induction s e rule: key_back.induct) (auto split: if_splits simp: less_Suc_eq)

lemma key_back_stop: "0 < key_back s e \<Longrightarrow> \<not> is_logfmt_key_byte (s ! (key_back s e - 1))"
  by (induction s e rule: key_back.induct) (auto split: if_splits)

text \<open>The condition the loop tests at an equals sign at \<open>e\<close>.\<close>

definition eq_hit :: "string \<Rightarrow> nat \<Rightarrow> bool" where
  "eq_hit s e \<longleftrightarrow> key_back s e < e \<and> 0 < key_back s e \<and> s ! (key_back s e - 1) = SP"

lemma eq_hit_field_at:
  assumes "e < length s" and "s ! e = CHR ''=''"
  shows "field_at s e i \<longleftrightarrow> eq_hit s e \<and> i = key_back s e - 1"
proof
  assume f: "field_at s e i"
  have "key_back s e = Suc i"
  proof (rule ccontr)
    assume "key_back s e \<noteq> Suc i"
    then consider "key_back s e \<le> i" | "Suc i < key_back s e" by linarith
    then show False
    proof cases
      case 1
      then have "is_logfmt_key_byte (s ! i)" using f key_back_run [of s e i] by (simp add: field_at_def)
      with f show False by (simp add: field_at_def)
    next
      case 2
      then have "is_logfmt_key_byte (s ! (key_back s e - 1))"
        using f key_back_le [of s e] by (auto simp: field_at_def)
      with key_back_stop [of s e] 2 show False by simp
    qed
  qed
  with f show "eq_hit s e \<and> i = key_back s e - 1" by (auto simp: eq_hit_def field_at_def)
next
  assume "eq_hit s e \<and> i = key_back s e - 1"
  then show "field_at s e i"
    using assms key_back_run [of s e] by (auto simp: eq_hit_def field_at_def)
qed

lemma logfmt_first_find:
  "logfmt_first s eqs = map_option (\<lambda>e. key_back s e - 1) (List.find (eq_hit s) eqs)"
  by (induction s eqs rule: logfmt_first.induct) (auto simp: Let_def eq_hit_def)

lemma find_filter_upt_Some:
  "List.find P (filter Q [0..<n]) = Some e \<Longrightarrow>
     e < n \<and> Q e \<and> P e \<and> (\<forall>e' < e. \<not> (Q e' \<and> P e'))"
proof (induction n)
  case (Suc n)
  have app: "List.find P (xs @ ys) = (case List.find P xs of None \<Rightarrow> List.find P ys | Some x \<Rightarrow> Some x)"
    for xs ys by (induction xs) auto
  show ?case
  proof (cases "List.find P (filter Q [0..<n])")
    case None
    then have "\<forall>e' < n. \<not> (Q e' \<and> P e')" by (auto simp: find_None_iff)
    with Suc.prems None show ?thesis by (auto simp: app split: if_splits)
  next
    case (Some e')
    with Suc show ?thesis by (auto simp: app)
  qed
qed simp

text \<open>The least position with a field determines both searches.\<close>

definition first_field :: "string \<Rightarrow> nat option \<Rightarrow> bool" where
  "first_field s r \<longleftrightarrow>
     (case r of
        None \<Rightarrow> \<forall>e i. \<not> field_at s e i
      | Some i \<Rightarrow> (\<exists>e. field_at s e i) \<and> (\<forall>j < i. \<forall>e. \<not> field_at s e j))"

lemma first_field_unique: "first_field s r \<Longrightarrow> first_field s r' \<Longrightarrow> r = r'"
  by (cases r; cases r') (auto simp: first_field_def, metis linorder_neqE_nat)

lemma first_field_back:
  assumes "memchr_ok d"
  shows "first_field s (logfmt_field_start d s)"
proof -
  let ?eqs = "filter (\<lambda>i. s ! i = CHR ''='') [0..<length s]"
  have st: "logfmt_field_start d s = map_option (\<lambda>e. key_back s e - 1) (List.find (eq_hit s) ?eqs)"
    by (simp add: logfmt_field_start_def logfmt_first_find memchr_iter_filter [OF assms])
  have hit: "e < length s \<and> s ! e = CHR ''='' \<and> eq_hit s e" if "field_at s e i" for e i
    using that eq_hit_field_at [of e s i] by (auto simp: field_at_def)
  show ?thesis
  proof (cases "List.find (eq_hit s) ?eqs")
    case None
    then have "\<not> field_at s e i" for e i using hit [of e i] by (auto simp: find_None_iff)
    with None show ?thesis by (simp add: st first_field_def)
  next
    case (Some e)
    note e = find_filter_upt_Some [OF Some]
    define i where "i = key_back s e - 1"
    have f: "field_at s e i" using e eq_hit_field_at [of e s i] by (auto simp: i_def)
    have "\<not> field_at s e' j" if "j < i" for e' j
    proof
      assume g: "field_at s e' j"
      have "e' \<noteq> i" using f g by (auto simp: field_at_def)
      moreover have "\<not> i < e'" using f g that by (auto simp: field_at_def)
      ultimately have "e' < e" using f by (auto simp: field_at_def)
      with hit [OF g] e show False by auto
    qed
    with Some f show ?thesis by (auto simp: st first_field_def i_def)
  qed
qed

lemma logfmt_probe_Some:
  "logfmt_probe s = Some i \<Longrightarrow> i < length s \<and> s ! i = SP \<and> key_then_eq (drop (Suc i) s)
     \<and> (\<forall>j < i. \<not> (s ! j = SP \<and> key_then_eq (drop (Suc j) s)))"
proof (induction s arbitrary: i)
  case (Cons c cs)
  then show ?case
    by (auto split: if_splits simp: less_Suc_eq_0_disj)
qed simp

lemma logfmt_probe_None:
  "logfmt_probe s = None \<Longrightarrow> j < length s \<Longrightarrow> \<not> (s ! j = SP \<and> key_then_eq (drop (Suc j) s))"
  by (induction s arbitrary: j) (auto split: if_splits simp: less_Suc_eq_0_disj)

lemma first_field_probe: "first_field s (logfmt_probe s)"
proof (cases "logfmt_probe s")
  case None
  then have "\<not> field_at s e i" for e i
    using field_at_drop [of s i] logfmt_probe_None [OF None, of i] by blast
  with None show ?thesis by (simp add: first_field_def)
next
  case (Some i)
  note p = logfmt_probe_Some [OF Some]
  then have "\<exists>e. field_at s e i" using field_at_drop [of s i] by blast
  moreover have "\<not> field_at s e j" if "j < i" for e j
    using p that field_at_drop [of s j] by blast
  ultimately show ?thesis using Some by (simp add: first_field_def)
qed

section \<open>Printing fields and reading them back\<close>

definition escape_byte :: "char \<Rightarrow> string" where
  "escape_byte c =
     (if c = DQ then [BSL, DQ] else if c = BSL then [BSL, BSL] else if c = NL then [BSL, CHR ''n''] else [c])"

definition print_field :: "string \<times> string \<Rightarrow> string" where
  "print_field = (\<lambda>(k, v). SP # k @ CHR ''='' # DQ # concat (map escape_byte v) @ [DQ])"

definition print_fields :: "(string \<times> string) list \<Rightarrow> string" where
  "print_fields kvs = concat (map print_field kvs)"

definition logfmt_key :: "string \<Rightarrow> bool" where
  "logfmt_key k \<longleftrightarrow> k \<noteq> [] \<and> (\<forall>c \<in> set k. is_logfmt_key_byte c)"

lemma read_quoted_escaped: "read_quoted (concat (map escape_byte v) @ DQ # r) = (v, r)"
  by (induction v) (auto simp: escape_byte_def)

lemma logfmt_step_field:
  assumes "logfmt_key k"
  shows "logfmt_step (print_field (k, v) @ r) = Some (Some (k, v), r)"
proof -
  obtain x xs where k: "k = x # xs" using assms by (cases k) (auto simp: logfmt_key_def)
  have x: "x \<noteq> SP" using assms k not_key_byte(1) by (auto simp: logfmt_key_def)
  have all: "\<forall>c \<in> set k. is_logfmt_key_byte c" using assms by (simp add: logfmt_key_def)
  let ?t = "CHR ''='' # DQ # concat (map escape_byte v) @ DQ # r"
  have "dropWhile ((=) SP) (print_field (k, v) @ r) = k @ ?t"
    using x k by (simp add: print_field_def)
  moreover have "takeWhile is_logfmt_key_byte (k @ ?t) = k" "dropWhile is_logfmt_key_byte (k @ ?t) = ?t"
    using all by (simp_all add: takeWhile_append_stop dropWhile_append_stop)
  ultimately show ?thesis
    using k by (simp add: logfmt_step_def Let_def read_quoted_escaped)
qed

lemma logfmt_step_Nil [simp]: "logfmt_step [] = None"
  by (simp add: logfmt_step_def)

lemma parse_print_fields:
  "\<forall>(k, v) \<in> set kvs. logfmt_key k \<Longrightarrow> parse_logfmt_fields (print_fields kvs) = kvs"
proof (induction kvs)
  case Nil
  then show ?case by (simp add: parse_logfmt_fields.simps print_fields_def)
next
  case (Cons kv kvs)
  obtain k v where kv: "kv = (k, v)" by fastforce
  with Cons show ?case
    by (subst parse_logfmt_fields.simps)
      (simp add: print_fields_def logfmt_step_field)
qed

lemma logfmt_step_leading_space: "logfmt_step (SP # s) = logfmt_step s"
  by (simp add: logfmt_step_def)

lemma parse_logfmt_leading_space: "parse_logfmt_fields (SP # s) = parse_logfmt_fields s"
  by (subst (1 2) parse_logfmt_fields.simps) (simp add: logfmt_step_leading_space)

lemma logfmt_probe_append:
  assumes "CHR ''='' \<notin> set p" and "key_then_eq r"
  shows "logfmt_probe (p @ SP # r) = Some (length p)"
  using assms(1)
proof (induction p)
  case Nil
  with assms(2) show ?case by simp
next
  case (Cons c p)
  have "\<not> key_then_eq (p @ SP # r)"
  proof
    assume "key_then_eq (p @ SP # r)"
    then obtain k q where kq: "p @ SP # r = k @ CHR ''='' # q" "\<forall>c \<in> set k. is_logfmt_key_byte c"
      by (auto simp: key_then_eq_append)
    from kq(1) obtain us where "p = k @ us \<and> us @ SP # r = CHR ''='' # q \<or> p @ us = k \<and> SP # r = us @ CHR ''='' # q"
      by (auto simp: append_eq_append_conv2)
    then show False
    proof
      assume "p = k @ us \<and> us @ SP # r = CHR ''='' # q"
      with Cons.prems show False by (cases us) auto
    next
      assume "p @ us = k \<and> SP # r = us @ CHR ''='' # q"
      with kq(2) show False by (cases us) auto
    qed
  qed
  with Cons show ?case by simp
qed

lemma split_logfmt_printed:
  assumes "memchr_ok d" and "CHR ''='' \<notin> set phrase" and "kvs \<noteq> []"
    and "\<forall>(k, v) \<in> set kvs. logfmt_key k"
  shows "split_logfmt d (phrase @ print_fields kvs) = (phrase, Some (JObject (logfmt_object kvs)))"
proof -
  obtain k v kvs' where kvs: "kvs = (k, v) # kvs'" using assms(3) by (cases kvs) auto
  define r where "r = tl (print_fields kvs)"
  have pf: "print_fields kvs = SP # r"
    by (simp add: r_def kvs print_fields_def print_field_def)
  have "key_then_eq r"
    using assms(4) unfolding key_then_eq_append r_def kvs
    by (auto simp: print_fields_def print_field_def logfmt_key_def)
  then have "logfmt_field_start d (phrase @ print_fields kvs) = Some (length phrase)"
    using logfmt_probe_append [OF assms(2)] first_field_unique [OF first_field_back [OF assms(1)] first_field_probe]
    by (simp add: pf)
  moreover have "parse_logfmt_fields r = kvs"
    using parse_print_fields [OF assms(4)] by (simp add: pf parse_logfmt_leading_space)
  moreover have "logfmt_object kvs \<noteq> []"
  proof
    assume "logfmt_object kvs = []"
    moreover have "map_of (logfmt_object kvs) k = map_of (rev (map (\<lambda>(k, v). (k, JString v)) kvs)) k"
      by (simp add: logfmt_object_def btree.get_fold_ins bt_wf_def split: option.splits)
    moreover have "map_of (rev (map (\<lambda>(k, v). (k, JString v)) kvs)) k \<noteq> None"
      by (simp add: map_of_eq_None_iff kvs)
    ultimately show False by simp
  qed
  ultimately show ?thesis
    by (simp add: split_logfmt_def non_empty_object_def pf)
qed

section \<open>Delimited tokens\<close>

definition delimited :: "string \<Rightarrow> string \<Rightarrow> bool" where
  "delimited s w \<longleftrightarrow>
     (\<exists>a b. s = a @ w @ b \<and> w \<noteq> [] \<and> (\<forall>c \<in> set w. is_word_byte c)
        \<and> (a = [] \<or> \<not> is_word_byte (last a)) \<and> (b = [] \<or> \<not> is_word_byte (hd b)))"

lemma scan_tokens_step:
  "scan_tokens s =
     (let r = dropWhile (\<lambda>c. \<not> is_word_byte c) s in
      if r = [] then None
      else (case level_for_token (takeWhile is_word_byte r) of
              Some l \<Rightarrow> Some l | None \<Rightarrow> scan_tokens (dropWhile is_word_byte r)))"
  by (rule scan_tokens.simps)

lemma delimited_head:
  fixes s
  defines "r \<equiv> dropWhile (\<lambda>c. \<not> is_word_byte c) s"
  assumes "r \<noteq> []"
  shows "delimited s (takeWhile is_word_byte r)"
proof -
  have s: "s = takeWhile (\<lambda>c. \<not> is_word_byte c) s @ takeWhile is_word_byte r @ dropWhile is_word_byte r"
    by (simp add: r_def)
  have "is_word_byte (hd r)" using assms hd_dropWhile [of "\<lambda>c. \<not> is_word_byte c" s] by simp
  then have ne: "takeWhile is_word_byte r \<noteq> []" using assms(2) by (cases r) auto
  have l: "takeWhile (\<lambda>c. \<not> is_word_byte c) s = [] \<or> \<not> is_word_byte (last (takeWhile (\<lambda>c. \<not> is_word_byte c) s))"
    by (metis last_in_set set_takeWhileD)
  have "dropWhile is_word_byte r = [] \<or> \<not> is_word_byte (hd (dropWhile is_word_byte r))"
    by (metis hd_dropWhile)
  with s ne l show ?thesis
    unfolding delimited_def by (metis set_takeWhileD)
qed

lemma delimited_later:
  fixes s
  defines "r \<equiv> dropWhile (\<lambda>c. \<not> is_word_byte c) s"
  assumes "delimited (dropWhile is_word_byte r) w"
  shows "delimited s w"
proof -
  let ?t = "dropWhile is_word_byte r"
  obtain a b where ab: "?t = a @ w @ b" "w \<noteq> []" "\<forall>c \<in> set w. is_word_byte c"
    "a = [] \<or> \<not> is_word_byte (last a)" "b = [] \<or> \<not> is_word_byte (hd b)"
    using assms(2) by (auto simp: delimited_def)
  have "a \<noteq> []"
  proof
    assume "a = []"
    then have "hd ?t = hd w" "?t \<noteq> []" using ab(1,2) by auto
    then show False using ab(2,3) hd_dropWhile [of is_word_byte r] by auto
  qed
  define p where "p = takeWhile (\<lambda>c. \<not> is_word_byte c) s @ takeWhile is_word_byte r"
  have "s = p @ ?t" by (simp add: p_def r_def)
  then have "s = (p @ a) @ w @ b" using ab(1) by simp
  with ab \<open>a \<noteq> []\<close> show ?thesis
    unfolding delimited_def by (metis last_appendR append_is_Nil_conv)
qed

lemma scan_tokens_sound: "scan_tokens s = Some l \<Longrightarrow> \<exists>w. delimited s w \<and> level_for_token w = Some l"
proof (induction s rule: scan_tokens.induct)
  case (1 s)
  let ?r = "dropWhile (\<lambda>c. \<not> is_word_byte c) s"
  have ne: "?r \<noteq> []" using 1(2) by (subst (asm) scan_tokens_step) (auto simp: Let_def split: if_splits)
  show ?case
  proof (cases "level_for_token (takeWhile is_word_byte ?r)")
    case None
    with 1(2) ne have "scan_tokens (dropWhile is_word_byte ?r) = Some l"
      by (subst (asm) scan_tokens_step) (simp add: Let_def del: dropWhile_eq_Nil_conv)
    with 1(1) [OF refl ne None] delimited_later [of s] show ?thesis by blast
  next
    case (Some l')
    with 1(2) ne have "l' = l" by (subst (asm) scan_tokens_step) (simp add: Let_def del: dropWhile_eq_Nil_conv)
    with Some delimited_head [OF ne] show ?thesis by blast
  qed
qed

lemma dropWhile_append_word:
  assumes "x \<in> set a" and "\<not> P x"
  shows "dropWhile P (a @ b) = dropWhile P a @ b" "dropWhile P a \<noteq> []" "last (dropWhile P a) = last a"
    "takeWhile P (a @ b) = takeWhile P a"
proof -
  show "dropWhile P (a @ b) = dropWhile P a @ b" "takeWhile P (a @ b) = takeWhile P a"
    using assms by (simp_all add: dropWhile_append1 takeWhile_append1)
  show ne: "dropWhile P a \<noteq> []" using assms by auto
  show "last (dropWhile P a) = last a" using ne by (metis last_appendR takeWhile_dropWhile_id)
qed

lemma scan_tokens_complete:
  assumes "delimited s w" and "level_for_token w = Some l"
  shows "scan_tokens s \<noteq> None"
  using assms(1)
proof (induction s rule: scan_tokens.induct)
  case (1 s)
  let ?r = "dropWhile (\<lambda>c. \<not> is_word_byte c) s"
  from 1(2) obtain a b where ab: "s = a @ w @ b" "w \<noteq> []" "\<forall>c \<in> set w. is_word_byte c"
    "a = [] \<or> \<not> is_word_byte (last a)" "b = [] \<or> \<not> is_word_byte (hd b)"
    by (auto simp: delimited_def)
  have w0: "w = hd w # tl w" "is_word_byte (hd w)" using ab(2,3) by auto
  show ?case
  proof (cases "\<exists>x \<in> set a. is_word_byte x")
    case False
    then have r: "?r = w @ b"
      using w0 dropWhile_append_stop [of a "\<lambda>c. \<not> is_word_byte c" "hd w" "tl w @ b"] ab(1)
      by (metis append_Cons)
    have "takeWhile is_word_byte (w @ b) = w"
      using ab(3,5) takeWhile_append_stop [of w is_word_byte "hd b" "tl b"]
      by (cases b) (auto simp: takeWhile_eq_all_conv)
    then show ?thesis
      using assms(2) ab(2) r by (subst scan_tokens_step) (simp add: Let_def del: dropWhile_eq_Nil_conv)
  next
    case True
    then obtain x where x: "x \<in> set a" "\<not> \<not> is_word_byte x" by auto
    define a1 where "a1 = dropWhile (\<lambda>c. \<not> is_word_byte c) a"
    have a1: "?r = a1 @ w @ b" "a1 \<noteq> []" "last a1 = last a"
      using dropWhile_append_word(1) [of x a "\<lambda>c. \<not> is_word_byte c" "w @ b"]
        dropWhile_append_word(2,3) [of x a "\<lambda>c. \<not> is_word_byte c"] x ab(1) by (simp_all add: a1_def)
    have nl: "last a1 \<in> set a1" using a1(2) by (rule last_in_set)
    have nl2: "\<not> is_word_byte (last a1)" using a1 ab(4) x(1) by auto
    define a2 where "a2 = dropWhile is_word_byte a1"
    have a2: "dropWhile is_word_byte ?r = a2 @ w @ b" "a2 \<noteq> []" "last a2 = last a1"
      using dropWhile_append_word(1) [of "last a1" a1 is_word_byte "w @ b"]
        dropWhile_append_word(2,3) [of "last a1" a1 is_word_byte] nl nl2 a1(1) by (simp_all add: a2_def)
    have "delimited (dropWhile is_word_byte ?r) w"
      unfolding delimited_def using a2 nl2 ab by (metis append_is_Nil_conv)
    then have "level_for_token (takeWhile is_word_byte ?r) = None \<Longrightarrow>
        scan_tokens (dropWhile is_word_byte ?r) \<noteq> None"
      using 1(1) [OF refl] a1 by simp
    then show ?thesis
      using a1(1,2) by (subst scan_tokens_step) (auto simp: Let_def simp del: dropWhile_eq_Nil_conv split: option.splits)
  qed
qed

section \<open>Consuming the level key\<close>

lemma take_level_Some:
  assumes "take_level obj = Some (l, obj')"
  shows "\<exists>k v. is_level_key k \<and> map_of obj k = Some v \<and> level_from_value v = Some l
    \<and> obj' = bt_remove k obj"
proof -
  from assms obtain k v w where f: "List.find (\<lambda>(k, _). is_level_key k) obj = Some (k, w)"
    and v: "map_of obj k = Some v" "level_from_value v = Some l" "obj' = bt_remove k obj"
    by (auto simp: take_level_def split: option.splits)
  from f have "is_level_key k" unfolding find_Some_iff by force
  with v show ?thesis by blast
qed

lemma numeric_level_severity: "numeric_level n = Some l \<longleftrightarrow> n = severity l"
  by (cases l) (auto split: if_splits)

section \<open>Properties\<close>

text \<open>
  C29: the optimised search for the first logfmt field (visit each equals sign and walk
  back over the key) returns the same position as the reference search (at each space, test
  for a key followed by an equals sign).
\<close>

theorem logfmt_field_start_reference:
  assumes "memchr_ok d"
  shows "logfmt_field_start d s = logfmt_probe s"
  by (rule first_field_unique [OF first_field_back [OF assms] first_field_probe])

theorem logfmt_field_start_reference_witness: "logfmt_field_start ref_deps ''up a=1'' = Some 2"
  using logfmt_field_start_reference [OF ref_deps_ok(1), of "''up a=1''"]
  by (simp add: key_then_eq_def is_logfmt_key_byte_def ascii_defs)

text \<open>
  Round trip of logfmt. A message without an equals sign followed by printed fields
  (keys of key bytes, values quoted and escaped, any bytes) is split back into the message
  and the object of exactly these fields, the last binding of a repeated key winning.
\<close>

theorem logfmt_roundtrip:
  assumes "memchr_ok d" and "CHR ''='' \<notin> set phrase" and "kvs \<noteq> []"
    and "\<forall>(k, v) \<in> set kvs. logfmt_key k"
  shows "split_logfmt d (phrase @ print_fields kvs) = (phrase, Some (JObject (logfmt_object kvs)))
    \<and> map_of (logfmt_object kvs) key = map_option JString (map_of (rev kvs) key)"
proof
  show "split_logfmt d (phrase @ print_fields kvs) = (phrase, Some (JObject (logfmt_object kvs)))"
    by (rule split_logfmt_printed [OF assms])
  have "map_of (rev (map (\<lambda>(k, v). (k, JString v)) kvs)) key = map_option JString (map_of (rev kvs) key)"
    by (simp add: map_of_map rev_map)
  then show "map_of (logfmt_object kvs) key = map_option JString (map_of (rev kvs) key)"
    by (simp add: logfmt_object_def btree.get_fold_ins bt_wf_def split: option.splits)
qed

theorem logfmt_roundtrip_witness:
  "split_logfmt ref_deps (''up'' @ print_fields [(''a'', ''x y'')]) = (''up'', Some (JObject [(''a'', JString ''x y'')]))"
  using logfmt_roundtrip [OF ref_deps_ok(1), of "''up''" "[(''a'', ''x y'')]"]
  by (simp add: logfmt_key_def is_logfmt_key_byte_def ascii_defs logfmt_object_def)

text \<open>
  C30: severity detection is exact up to the window: the scan finds a level if and only if
  some token (a maximal run of word bytes) of the first 96 bytes is a known level word, and
  the level it returns is that of such a token.
\<close>

theorem scan_line_level_exact:
  "(scan_line_level line \<noteq> None \<longleftrightarrow> (\<exists>w. delimited (take LEVEL_SCAN_WINDOW line) w \<and> level_for_token w \<noteq> None))
   \<and> (\<forall>l. scan_line_level line = Some l \<longrightarrow>
        (\<exists>w. delimited (take LEVEL_SCAN_WINDOW line) w \<and> level_for_token w = Some l))"
  unfolding scan_line_level_def
  using scan_tokens_sound scan_tokens_complete by (metis not_None_eq)

theorem scan_line_level_exact_witness: "scan_line_level ''a ERROR b'' = Some Error"
proof -
  have f: "\<exists>l. scan_line_level ''a ERROR b'' = Some l"
    by (simp add: scan_line_level_def LEVEL_SCAN_WINDOW_def scan_tokens.simps is_word_byte_def ascii_defs
        level_for_token_def token_levels_def)
  then obtain l where l: "scan_line_level ''a ERROR b'' = Some l" ..
  moreover have "l = Error"
    using l by (simp add: scan_line_level_def LEVEL_SCAN_WINDOW_def scan_tokens.simps is_word_byte_def ascii_defs
        level_for_token_def token_levels_def)
  moreover have "\<exists>w. delimited (take LEVEL_SCAN_WINDOW ''a ERROR b'') w \<and> level_for_token w = Some l"
    using scan_line_level_exact [of "''a ERROR b''"] l by blast
  ultimately show ?thesis by simp
qed

text \<open>
  The window is cut by bytes, so a word that straddles its end is judged by its
  prefix: a line whose 96th byte ends the prefix \<open>error\<close> of \<open>errors\<close> gets the level Error,
  although no token of the line is a level word.
\<close>

theorem scan_window_cuts_word:
  "scan_line_level (replicate 91 SP @ ''errors'') = Some Error \<and> scan_tokens (replicate 91 SP @ ''errors'') = None"
proof -
  have drop: "dropWhile (\<lambda>c. \<not> is_word_byte c) (replicate n SP @ CHR ''e'' # w) = CHR ''e'' # w" for n w
    by (induction n) (simp_all add: is_word_byte_def ascii_defs)
  have tk: "take 96 (replicate 91 SP @ ''errors'') = replicate 91 SP @ ''error''" by simp
  have "scan_tokens (replicate 91 SP @ ''error'') = Some Error"
    by (subst scan_tokens.simps)
      (simp only: drop, simp add: Let_def is_word_byte_def ascii_defs level_for_token_def token_levels_def)
  moreover have "scan_tokens (replicate 91 SP @ ''errors'') = None"
    by (subst scan_tokens.simps)
      (simp only: drop, simp add: Let_def is_word_byte_def ascii_defs level_for_token_def token_levels_def scan_tokens.simps)
  ultimately show ?thesis unfolding scan_line_level_def LEVEL_SCAN_WINDOW_def tk by blast
qed

text \<open>
  Classification of a structured syslog line, end to end. With all parsers enabled, the
  service is the program of the envelope, the body is the message without its fields, a
  recognised level key sets the level and is removed from the payload, and otherwise the
  payload is complete and the level comes from the text.
\<close>

theorem classify_structured_syslog:
  assumes "memchr_ok d" and "o_syslog opts" and "o_structured opts" and "o_levels opts"
    and "syslog_parse line = Some \<lparr>program = prog, body = phrase @ print_fields kvs\<rparr>"
    and "\<not> starts_with (trim_start (phrase @ print_fields kvs)) ''{''"
    and "CHR ''='' \<notin> set phrase" and "kvs \<noteq> []" and "\<forall>(k, v) \<in> set kvs. logfmt_key k"
  shows "classify_line d line opts =
    (case take_level (logfmt_object kvs) of
       Some (l, rest) \<Rightarrow> \<lparr>c_level = l, c_body = phrase, c_service = Some prog, c_payload = non_empty_object rest\<rparr>
     | None \<Rightarrow> \<lparr>c_level = (case scan_line_level phrase of Some l \<Rightarrow> l | None \<Rightarrow> Info), c_body = phrase,
                c_service = Some prog, c_payload = non_empty_object (logfmt_object kvs)\<rparr>)"
proof -
  have sl: "split_logfmt d (phrase @ print_fields kvs) = (phrase, Some (JObject (logfmt_object kvs)))"
    by (rule split_logfmt_printed [OF assms(1,7-9)])
  have "non_empty_object (logfmt_object kvs) = Some (JObject (logfmt_object kvs))"
    using sl by (auto simp: split_logfmt_def non_empty_object_def split: option.splits if_splits)
  then have ne: "logfmt_object kvs \<noteq> []" by (auto simp: non_empty_object_def)
  show ?thesis
    using assms(2-6) sl ne
    by (auto simp: classify_line_def split_message_def Let_def non_empty_object_def
        split: option.splits list.splits)
qed

theorem classify_structured_syslog_witness:
  "classify_line ref_deps (''h sshd: up'' @ print_fields [(''level'', ''warn'')])
      \<lparr>o_syslog = True, o_structured = True, o_levels = True\<rparr> =
    \<lparr>c_level = Warning, c_body = ''up'', c_service = Some ''sshd'', c_payload = None\<rparr>"
proof -
  let ?o = "\<lparr>o_syslog = True, o_structured = True, o_levels = True\<rparr>" and ?kvs = "[(''level'', ''warn'')]"
  have key: "logfmt_key ''level''" by (simp add: logfmt_key_def is_logfmt_key_byte_def ascii_defs)
  have sp: "syslog_parse (''h'' @ [SP] @ ''sshd'' @ [] @ '': '' @ ''up'' @ print_fields ?kvs) =
      Some \<lparr>program = ''sshd'', body = ''up'' @ print_fields ?kvs\<rparr>"
    by (rule syslog_parse_envelope) (simp_all add: is_program_byte_def ascii_defs)
  have tl: "take_level (logfmt_object ?kvs) = Some (Warning, [])"
    by (simp add: take_level_def logfmt_object_def is_level_key_def LEVEL_KEYS_def eq_ignore_ascii_case_def
        bt_remove_def level_from_str_def trim_def trim_start_def trim_end_def trim_front.simps ws_seqs_def
        parse_uint_def digit_val_def code_def to_ascii_lowercase_def to_ascii_lower_def is_ascii_uppercase_def level_names_def Let_def)
  have ts: "\<not> starts_with (trim_start (''up'' @ print_fields ?kvs)) ''{''"
    by (simp add: starts_with_def trim_start_def trim_front.simps ws_seqs_def)
  from classify_structured_syslog [OF ref_deps_ok(1), of ?o "''h sshd: up'' @ print_fields ?kvs" "''sshd''" "''up''" ?kvs]
    sp ts key tl show ?thesis by (simp add: non_empty_object_def)
qed

end
