(* ===== verification/Text.thy ===== *)
theory Text
  imports External
begin

text \<open>
  \<open>src/logs/text.rs\<close>: lossy decoding with a validated fast path, and reading one line from
  a buffered reader. A \<open>BufRead\<close> is the list of outcomes its \<open>fill_buf\<close> calls will have;
  the end of the list is the end of the file.
\<close>

section \<open>Lossy decoding\<close>

definition lossy :: "deps \<Rightarrow> string \<Rightarrow> string" where
  "lossy d bytes = (if simd_from_utf8 d bytes then bytes else from_utf8_lossy bytes)"

lemma lossy_from_utf8_lossy: "simd_ok d \<Longrightarrow> lossy d bytes = from_utf8_lossy bytes"
  by (simp add: lossy_def simd_ok_def from_utf8_lossy_valid)

lemma lossy_valid [simp]: "simd_ok d \<Longrightarrow> utf8_valid s \<Longrightarrow> lossy d s = s"
  by (simp add: lossy_def simd_ok_def)

lemma utf8_valid_lossy_d: "simd_ok d \<Longrightarrow> utf8_valid (lossy d s)"
  by (simp add: lossy_from_utf8_lossy utf8_valid_lossy)

section \<open>Buffered readers\<close>

datatype fill = Chunk string | Interrupted | IoError

type_synonym reader = "fill list"

definition reader_size :: "reader \<Rightarrow> nat" where
  "reader_size r = sum_list (map (\<lambda>f. case f of Chunk c \<Rightarrow> Suc (length c) | _ \<Rightarrow> 1) r)"

text \<open>\<open>consume n\<close> after a \<open>fill_buf\<close> that returned the chunk at the front.\<close>

definition consume :: "nat \<Rightarrow> string \<Rightarrow> reader \<Rightarrow> reader" where
  "consume n c r = (if n < length c then Chunk (drop n c) # r else r)"

text \<open>The bytes a reader yields before it reports the end of the file or an error.\<close>

fun reader_bytes :: "reader \<Rightarrow> string" where
  "reader_bytes [] = []"
| "reader_bytes (Interrupted # r) = reader_bytes r"
| "reader_bytes (IoError # r) = []"
| "reader_bytes (Chunk c # r) = (if c = [] then [] else c @ reader_bytes r)"

text \<open>
  The bytes of all chunks up to the first error: a file that grows while it is read yields
  more bytes after an end of file was reported.
\<close>

fun reader_all :: "reader \<Rightarrow> string" where
  "reader_all [] = []"
| "reader_all (Interrupted # r) = reader_all r"
| "reader_all (IoError # r) = []"
| "reader_all (Chunk c # r) = c @ reader_all r"

text \<open>
  The loop of \<open>read_line\<close>; \<open>Inl\<close> is the I/O error, \<open>Inr\<close> the number of bytes appended to
  the buffer.
\<close>

fun read_line :: "deps \<Rightarrow> reader \<Rightarrow> string \<Rightarrow> nat \<Rightarrow> (unit + nat) \<times> string \<times> reader" where
  "read_line d [] buf n = (Inr n, buf, [])"
| "read_line d (Interrupted # r) buf n = read_line d r buf n"
| "read_line d (IoError # r) buf n = (Inl (), buf, r)"
| "read_line d (Chunk c # r) buf n =
     (case memchr d NL c of
        Some i \<Rightarrow> (Inr (n + Suc i), buf @ take (Suc i) c, consume (Suc i) c r)
      | None \<Rightarrow> if c = [] then (Inr n, buf, r)
                else read_line d r (buf @ c) (n + length c))"

lemma reader_size_Cons: "reader_size (f # r) = (case f of Chunk c \<Rightarrow> Suc (length c) | _ \<Rightarrow> 1) + reader_size r"
  by (simp add: reader_size_def)

lemma reader_size_consume: "reader_size (consume (Suc i) c r) < reader_size (Chunk c # r)"
  by (auto simp: consume_def reader_size_Cons)

lemma read_line_size:
  "read_line d r buf n = (res, buf', r') \<Longrightarrow>
     reader_size r' \<le> reader_size r \<and> (res = Inr n' \<longrightarrow> n < n' \<longrightarrow> reader_size r' < reader_size r)"
proof (induction d r buf n rule: read_line.induct)
  case (4 d c r buf n)
  show ?case
  proof (cases "memchr d NL c")
    case None
    with 4 show ?thesis
      by (cases "c = []") (auto simp: reader_size_Cons)
  next
    case (Some i)
    with 4(2) reader_size_consume [of i c r] show ?thesis by auto
  qed
qed (auto simp: reader_size_Cons)

lemma read_line_progress:
  "read_line d r [] 0 = (Inr n, buf, r') \<Longrightarrow> n \<noteq> 0 \<Longrightarrow> reader_size r' < reader_size r"
  using read_line_size [of d r "[]" 0 "Inr n" buf r' n] by simp

section \<open>Reading a line does not depend on the chunks\<close>

text \<open>The specification on the bytes: up to and including the first newline.\<close>

definition first_line :: "string \<Rightarrow> string" where
  "first_line bs = (case position ((=) NL) bs of Some i \<Rightarrow> take (Suc i) bs | None \<Rightarrow> bs)"

lemma first_line_append_None:
  "position ((=) NL) c = None \<Longrightarrow> first_line (c @ bs) = c @ first_line bs"
proof (induction c)
  case (Cons x c)
  then have "x \<noteq> NL" "position ((=) NL) c = None" by (auto split: if_splits)
  with Cons.IH show ?case by (auto simp: first_line_def split: option.splits)
qed simp

lemma first_line_append_Some:
  "position ((=) NL) c = Some i \<Longrightarrow> first_line (c @ bs) = take (Suc i) c"
proof -
  assume i: "position ((=) NL) c = Some i"
  have "position ((=) NL) (c @ bs) = Some i"
    using i by (induction c arbitrary: i) (auto split: if_splits)
  with position_eq_Some(3) [OF i] show ?thesis by (simp add: first_line_def)
qed

lemma first_line_Nil [simp]: "first_line [] = []"
  by (simp add: first_line_def)

lemma first_line_cases:
  "(\<exists>l. first_line bs = l @ [NL] \<and> NL \<notin> set l) \<or> (first_line bs = bs \<and> NL \<notin> set bs)"
proof (cases "position ((=) NL) bs")
  case None
  then show ?thesis using position_eq_None [of NL bs] by (simp add: first_line_def)
next
  case (Some i)
  then show ?thesis using position_eq_Some [OF Some] by (auto simp: first_line_def)
qed

lemma reader_all_consume:
  "i < length c \<Longrightarrow> reader_all (consume (Suc i) c r) = drop (Suc i) c @ reader_all r"
  by (auto simp: consume_def)

lemma read_line_gen:
  assumes "memchr_ok d"
  shows "read_line d r buf n = (Inr n', buf', r') \<Longrightarrow>
    buf' = buf @ first_line (reader_bytes r) \<and> n' = n + length (first_line (reader_bytes r))
    \<and> reader_all r = first_line (reader_bytes r) @ reader_all r'"
  using assms
proof (induction d r buf n rule: read_line.induct)
  case (4 d c r buf n)
  have mc: "memchr d NL c = position ((=) NL) c" using 4(3) by (simp add: memchr_ok_def)
  show ?case
  proof (cases "position ((=) NL) c")
    case None
    show ?thesis
    proof (cases "c = []")
      case True
      with 4(2) mc show ?thesis by simp
    next
      case False
      with 4(1) [OF _ False _ 4(3)] 4(2) None mc show ?thesis
        by (simp add: first_line_append_None)
    qed
  next
    case (Some i)
    note i = position_eq_Some [OF Some]
    have "c \<noteq> []" using i(3) by auto
    moreover have "first_line (c @ reader_bytes r) = take (Suc i) c"
      by (rule first_line_append_Some [OF Some])
    ultimately show ?thesis
      using 4(2) mc Some i(3) by (auto simp: reader_all_consume simp flip: append_assoc)
  qed
qed auto

lemma read_line_Ok:
  assumes "memchr_ok d" and "read_line d r [] 0 = (Inr n, buf, r')"
  shows "buf = first_line (reader_bytes r)" and "n = length buf"
    and "reader_all r = buf @ reader_all r'"
  using read_line_gen [OF assms] by auto

text \<open>What a successful call appends: a whole line with its newline, or bytes without one.\<close>

lemma read_line_piece:
  assumes "memchr_ok d" and "read_line d r [] 0 = (Inr n, buf, r')"
  shows "(\<exists>l. buf = l @ [NL] \<and> NL \<notin> set l) \<or> NL \<notin> set buf"
  using first_line_cases [of "reader_bytes r"] read_line_Ok(1) [OF assms] by metis

section \<open>Well-formed text cut at newlines\<close>

lemma utf8_valid_before_nl: "utf8_valid (x @ NL # y) \<Longrightarrow> utf8_valid x"
  using utf8_valid_take [of "x @ NL # y" "length x"]
  by (simp add: is_char_boundary_def is_cont_def code_def nth_append)

lemma utf8_valid_line: "utf8_valid (x @ NL # y) \<Longrightarrow> utf8_valid (x @ [NL])"
  by (drule utf8_valid_before_nl, erule utf8_valid_append) (simp add: utf8_valid_ascii code_def)

text \<open>
  Between two ends of file (or errors) a reader delivers well-formed UTF-8: no character is
  cut by the moment the file was read.
\<close>

fun reader_valid :: "string \<Rightarrow> reader \<Rightarrow> bool" where
  "reader_valid acc [] \<longleftrightarrow> utf8_valid acc"
| "reader_valid acc (Interrupted # r) \<longleftrightarrow> reader_valid acc r"
| "reader_valid acc (IoError # r) \<longleftrightarrow> utf8_valid acc \<and> reader_valid [] r"
| "reader_valid acc (Chunk c # r) \<longleftrightarrow>
     (if c = [] then utf8_valid acc \<and> reader_valid [] r else reader_valid (acc @ c) r)"

lemma reader_valid_drop: "reader_valid (a @ b) r \<Longrightarrow> utf8_valid a \<Longrightarrow> reader_valid b r"
proof (induction r arbitrary: b)
  case (Cons f r)
  then show ?case by (cases f) (auto dest: utf8_valid_appendD split: if_splits)
qed (auto dest: utf8_valid_appendD)

lemma reader_valid_extends: "reader_valid acc r \<Longrightarrow> \<exists>e. utf8_valid (acc @ e)"
proof (induction acc r rule: reader_valid.induct)
  case (4 acc c r)
  then show ?case by (cases "c = []") (auto intro: exI [of _ "[]"])
qed (auto intro: exI [of _ "[]"])

lemma reader_valid_read_line:
  assumes "memchr_ok d"
  shows "read_line d r buf n = (Inr n', buf', r') \<Longrightarrow> reader_valid buf r \<Longrightarrow>
    utf8_valid buf' \<and> reader_valid [] r'"
  using assms
proof (induction d r buf n rule: read_line.induct)
  case (4 d c r buf n)
  have mc: "memchr d NL c = position ((=) NL) c" using 4(4) by (simp add: memchr_ok_def)
  show ?case
  proof (cases "position ((=) NL) c")
    case None
    show ?thesis
    proof (cases "c = []")
      case True
      with 4(2,3) mc show ?thesis by simp
    next
      case False
      with 4(1) [OF _ False _ _ 4(4)] 4(2,3) None mc show ?thesis by simp
    qed
  next
    case (Some i)
    note i = position_eq_Some [OF Some]
    let ?l = "buf @ take i c" and ?rest = "drop (Suc i) c"
    have c: "c = take i c @ NL # ?rest" using i by (metis append.assoc append_Cons append_Nil append_take_drop_id)
    have "reader_valid (buf @ c) r" using 4(3) i(3) by (auto split: if_splits)
    then have whole: "reader_valid ((?l @ [NL]) @ ?rest) r" using c by (metis append.assoc append_Cons append_Nil)
    obtain e where "utf8_valid (?l @ NL # ?rest @ e)"
      using reader_valid_extends [OF whole] by auto
    then have line: "utf8_valid (?l @ [NL])" by (rule utf8_valid_line)
    have "reader_valid [] (consume (Suc i) c r)"
      using reader_valid_drop [OF whole line] i(3) by (auto simp: consume_def)
    with 4(2) mc Some i(1) line show ?thesis by simp
  qed
qed auto

section \<open>Properties\<close>

text \<open>
  Decoding. With a correct validator the fast path never shows: the result is the
  standard lossy decoding, it is always well-formed, and well-formed input is unchanged.
\<close>

theorem lossy_correct:
  assumes "simd_ok d"
  shows "lossy d bytes = from_utf8_lossy bytes \<and> utf8_valid (lossy d bytes)
    \<and> (utf8_valid bytes \<longrightarrow> lossy d bytes = bytes)"
  using assms by (simp add: lossy_from_utf8_lossy utf8_valid_lossy from_utf8_lossy_valid)

theorem lossy_correct_witness: "lossy ref_deps ''ok'' = ''ok'' \<and> utf8_valid (lossy ref_deps [CHR 0xFF])"
proof -
  have "utf8_valid ''ok''" by (simp add: utf8_valid_ascii code_def)
  then show ?thesis
    using lossy_correct [OF ref_deps_ok(2), of "''ok''"] lossy_correct [OF ref_deps_ok(2), of "[CHR 0xFF]"]
    by blast
qed

text \<open>
  C31: reading a line does not depend on how the operating system delivers the bytes:
  whatever the chunks and interrupts, a successful call returns the bytes up to and
  including the first newline (or all bytes before the end of the file), reports their
  number, and leaves exactly the rest in the reader.
\<close>

theorem read_line_chunks:
  assumes "memchr_ok d" and "read_line d r [] 0 = (Inr n, buf, r')"
  shows "buf = first_line (reader_bytes r) \<and> n = length buf \<and> reader_all r = buf @ reader_all r'"
  using read_line_Ok [OF assms] by simp

theorem read_line_chunks_witness:
  "first_line (reader_bytes [Chunk ''a'', Interrupted, Chunk (''b'' @ [NL] @ ''c'')]) = ''ab'' @ [NL]"
proof -
  have "read_line ref_deps [Chunk ''a'', Interrupted, Chunk (''b'' @ [NL] @ ''c'')] [] 0 = (Inr 3, ''ab'' @ [NL], [Chunk ''c''])"
    by (simp add: ref_deps_def consume_def)
  from read_line_chunks [OF ref_deps_ok(1) this] show ?thesis by simp
qed

end
