(* ===== verification/Sink.thy ===== *)
theory Sink
  imports Text
begin

text \<open>
  \<open>src/sink.rs\<close>: the sink every source and collector writes to. The live variant carries
  the history of calls made on the Tell client (the third-party SDK), the dry-run variant
  its counter, the test variants what they record. Text printed on standard error by the
  dry run is not modelled. The interface the log sources rely on is the locale
  \<open>log_channel\<close>, interpreted here on \<open>try_log_with_service\<close>.
\<close>

section \<open>State\<close>

datatype recorded =
  Rec_Metric string string f64 labels
| Rec_Log string "string option"

datatype sink_inner =
  Live "tell_call list"
| DryRun nat
| Discard
| Full
| Capture "recorded list"

record sink =
  inner :: sink_inner
  tags :: labels

section \<open>Tags\<close>

text \<open>The intern table: the strings leaked so far.\<close>

definition intern :: "string \<Rightarrow> string list \<Rightarrow> string \<times> string list" where
  "intern s table = (if s \<in> set table then (s, table) else (s, s # table))"

fun intern_pairs :: "(string, string) hash_map \<Rightarrow> string list \<Rightarrow> labels \<times> string list" where
  "intern_pairs [] table = ([], table)"
| "intern_pairs ((k, v) # m) table =
     (let (k', t1) = intern k table; (v', t2) = intern v t1; (ps, t3) = intern_pairs m t2
      in ((k', v') # ps, t3))"

definition leak_tags :: "(string, string) hash_map \<Rightarrow> string list \<Rightarrow> labels \<times> string list" where
  "leak_tags m table = (let (ps, t) = intern_pairs m table in (sort_key fst ps, t))"

text \<open>
  \<open>with_merged\<close>: the global tags before the labels, through a fixed buffer of 16 pairs when
  they fit.
\<close>

definition copy_into :: "'a list \<Rightarrow> nat \<Rightarrow> 'a list \<Rightarrow> 'a list" where
  "copy_into buf off xs = take off buf @ xs @ drop (off + length xs) buf"

definition with_merged :: "labels \<Rightarrow> labels \<Rightarrow> labels" where
  "with_merged ts ls =
     (let total = length ts + length ls in
      if total \<le> 16
      then take total (copy_into (copy_into (replicate 16 ([], [])) 0 ts) (length ts) ls)
      else ts @ ls)"

section \<open>Construction\<close>

definition sink_live :: "tell_call list \<Rightarrow> (string, string) hash_map \<Rightarrow> string list \<Rightarrow> sink" where
  "sink_live tell m table = \<lparr>inner = Live tell, tags = fst (leak_tags m table)\<rparr>"

definition sink_dry_run :: "nat \<Rightarrow> (string, string) hash_map \<Rightarrow> string list \<Rightarrow> sink" where
  "sink_dry_run n m table = \<lparr>inner = DryRun n, tags = fst (leak_tags m table)\<rparr>"

definition sink_discard :: sink where
  "sink_discard = \<lparr>inner = Discard, tags = []\<rparr>"

definition sink_full :: sink where
  "sink_full = \<lparr>inner = Full, tags = []\<rparr>"

definition sink_capture :: "recorded list \<Rightarrow> (string, string) hash_map \<Rightarrow> string list \<Rightarrow> sink" where
  "sink_capture c m table = \<lparr>inner = Capture c, tags = fst (leak_tags m table)\<rparr>"

section \<open>Metrics\<close>

definition emit_metric ::
    "(string \<Rightarrow> f64 \<Rightarrow> labels \<Rightarrow> tell_call) \<Rightarrow> string \<Rightarrow> sink \<Rightarrow> string \<Rightarrow> f64 \<Rightarrow> labels \<Rightarrow> sink" where
  "emit_metric call kind s name v ls =
     (case inner s of
        Live h \<Rightarrow> s\<lparr>inner := Live (h @ [call name v (if tags s = [] then ls else with_merged (tags s) ls)])\<rparr>
      | DryRun n \<Rightarrow> s\<lparr>inner := DryRun (Suc n)\<rparr>
      | Discard \<Rightarrow> s
      | Full \<Rightarrow> s
      | Capture c \<Rightarrow> s\<lparr>inner := Capture (c @ [Rec_Metric kind name v (tags s @ ls)])\<rparr>)"

definition gauge :: "sink \<Rightarrow> string \<Rightarrow> f64 \<Rightarrow> labels \<Rightarrow> sink" where
  "gauge = emit_metric Tell_gauge ''gauge''"

definition gauge_dyn :: "sink \<Rightarrow> string \<Rightarrow> f64 \<Rightarrow> labels \<Rightarrow> sink" where
  "gauge_dyn = emit_metric Tell_gauge_dyn ''gauge''"

definition counter :: "sink \<Rightarrow> string \<Rightarrow> f64 \<Rightarrow> labels \<Rightarrow> sink" where
  "counter = emit_metric Tell_counter ''counter''"

definition counter_dyn :: "sink \<Rightarrow> string \<Rightarrow> f64 \<Rightarrow> labels \<Rightarrow> sink" where
  "counter_dyn = emit_metric Tell_counter_dyn ''counter''"

definition counter_dyn_with_temporality ::
    "sink \<Rightarrow> string \<Rightarrow> f64 \<Rightarrow> labels \<Rightarrow> temporality \<Rightarrow> sink" where
  "counter_dyn_with_temporality s name v ls t =
     emit_metric (\<lambda>n v l. Tell_counter_dyn_with_temporality n v l t) ''checkpoint'' s name v ls"

section \<open>Logs\<close>

text \<open>One call on the live client: the history records the entry and the answer.\<close>

definition tell_log :: "deps \<Rightarrow> tell_call list \<Rightarrow> log_entry \<Rightarrow> bool \<times> tell_call list" where
  "tell_log d h e = (let ok = tell_accepts d h e in (ok, h @ [Tell_log e ok]))"

definition try_log_with_service :: "deps \<Rightarrow> sink \<Rightarrow> log_entry \<Rightarrow> bool \<times> sink" where
  "try_log_with_service d s e =
     (case inner s of
        Live h \<Rightarrow> (let (ok, h') = tell_log d h e in (ok, s\<lparr>inner := Live h'\<rparr>))
      | DryRun n \<Rightarrow> (True, s\<lparr>inner := DryRun (Suc n)\<rparr>)
      | Discard \<Rightarrow> (True, s)
      | Full \<Rightarrow> (False, s)
      | Capture c \<Rightarrow> (True, s\<lparr>inner := Capture (c @ [Rec_Log (le_message e) (le_service e)])\<rparr>))"

text \<open>\<open>try_log\<close> has no service argument; \<open>log\<close> ignores the answer.\<close>

definition try_log ::
    "deps \<Rightarrow> sink \<Rightarrow> log_level \<Rightarrow> string \<Rightarrow> string option \<Rightarrow> json option \<Rightarrow> bool \<times> sink" where
  "try_log d s level message component data =
     try_log_with_service d s
       \<lparr>le_level = level, le_message = message, le_component = component,
        le_service = None, le_payload = data\<rparr>"

definition sink_log ::
    "deps \<Rightarrow> sink \<Rightarrow> log_level \<Rightarrow> string \<Rightarrow> string option \<Rightarrow> json option \<Rightarrow> sink" where
  "sink_log d s level message component data = snd (try_log d s level message component data)"

definition log_with_service :: "deps \<Rightarrow> sink \<Rightarrow> log_entry \<Rightarrow> sink" where
  "log_with_service d s e = snd (try_log_with_service d s e)"

section \<open>Lifecycle\<close>

text \<open>The client's answer to \<open>flush\<close> and to \<open>close\<close> is a function of the calls before; the other variants have none.\<close>

definition sink_flush :: "(tell_call list \<Rightarrow> 'e + unit) \<Rightarrow> sink \<Rightarrow> 'e + unit" where
  "sink_flush tell_flush s =
     (case inner s of Live h \<Rightarrow> tell_flush h | DryRun _ \<Rightarrow> Inr () | Discard \<Rightarrow> Inr () | Full \<Rightarrow> Inr () | Capture _ \<Rightarrow> Inr ())"

definition sink_close :: "(tell_call list \<Rightarrow> 'e + unit) \<Rightarrow> sink \<Rightarrow> 'e + unit" where
  "sink_close tell_close s =
     (case inner s of Live h \<Rightarrow> tell_close h | DryRun _ \<Rightarrow> Inr () | Discard \<Rightarrow> Inr () | Full \<Rightarrow> Inr () | Capture _ \<Rightarrow> Inr ())"

text \<open>What the capturing variant has recorded: all of it, and the values of one metric.\<close>

definition capture_events :: "sink \<Rightarrow> recorded list" where
  "capture_events s = (case inner s of Capture c \<Rightarrow> c | _ \<Rightarrow> [])"

definition metric_values :: "sink \<Rightarrow> string \<Rightarrow> f64 list" where
  "metric_values s name =
     List.map_filter (\<lambda>e. case e of Rec_Metric _ n v _ \<Rightarrow> if n = name then Some v else None | Rec_Log _ _ \<Rightarrow> None) (capture_events s)"

section \<open>Labels as text\<close>

fun join :: "string \<Rightarrow> string list \<Rightarrow> string" where
  "join sep [] = []"
| "join sep [x] = x"
| "join sep (x # y # xs) = x @ sep @ join sep (y # xs)"

definition fmt_labels :: "labels \<Rightarrow> labels \<Rightarrow> string" where
  "fmt_labels ts ls =
     (if ts = [] \<and> ls = [] then []
      else ''{'' @ join '','' (map (\<lambda>(k, v). k @ ''='' @ v) (ts @ ls)) @ ''}'')"

section \<open>The channel as the sources see it\<close>

text \<open>
  A channel takes an entry or refuses it; what was taken is appended, a refusal changes
  nothing. \<open>live\<close> says on which states the observation \<open>sent\<close> is kept.
\<close>

locale log_channel =
  fixes send :: "'s \<Rightarrow> 'e \<Rightarrow> bool \<times> 's"
    and sent :: "'s \<Rightarrow> 'e list"
    and live :: "'s \<Rightarrow> bool"
  assumes send_sent: "live s \<Longrightarrow> send s e = (ok, s') \<Longrightarrow> sent s' = sent s @ (if ok then [e] else [])"
    and send_live: "live s \<Longrightarrow> send s e = (ok, s') \<Longrightarrow> live s'"

text \<open>Sending entries one after the other until one is refused.\<close>

fun send_all :: "('s \<Rightarrow> 'e \<Rightarrow> bool \<times> 's) \<Rightarrow> 's \<Rightarrow> 'e list \<Rightarrow> nat \<times> 's" where
  "send_all send s [] = (0, s)"
| "send_all send s (e # es) =
     (case send s e of
        (True, s') \<Rightarrow> (case send_all send s' es of (n, s'') \<Rightarrow> (Suc n, s''))
      | (False, s') \<Rightarrow> (0, s'))"

context log_channel
begin

lemma send_all_sent:
  "live s \<Longrightarrow> send_all send s es = (n, s') \<Longrightarrow>
     live s' \<and> n \<le> length es \<and> sent s' = sent s @ take n es"
proof (induction es arbitrary: s n s')
  case (Cons e es)
  obtain ok s1 where s1: "send s e = (ok, s1)" by fastforce
  note law = send_sent [OF Cons.prems(1) s1] send_live [OF Cons.prems(1) s1]
  show ?case
  proof (cases ok)
    case True
    obtain m s2 where s2: "send_all send s1 es = (m, s2)" by fastforce
    from Cons.IH [OF law(2) s2] Cons.prems(2) s1 s2 True law(1) show ?thesis by auto
  next
    case False
    with Cons.prems(2) s1 law show ?thesis by auto
  qed
qed simp

end

definition is_live :: "sink \<Rightarrow> bool" where
  "is_live s \<longleftrightarrow> (\<exists>h. inner s = Live h)"

text \<open>The entries the live client accepted, in order.\<close>

definition delivered :: "sink \<Rightarrow> log_entry list" where
  "delivered s =
     (case inner s of
        Live h \<Rightarrow> concat (map (\<lambda>c. case c of Tell_log e True \<Rightarrow> [e] | _ \<Rightarrow> []) h)
      | _ \<Rightarrow> [])"

interpretation tell_channel: log_channel "try_log_with_service d" delivered is_live for d
  by unfold_locales
    (auto simp: try_log_with_service_def tell_log_def delivered_def is_live_def Let_def)

text \<open>A channel that refuses nothing.\<close>

definition accepting :: "deps \<Rightarrow> bool" where
  "accepting d \<longleftrightarrow> (\<forall>h e. tell_accepts d h e)"

lemma try_log_accepting: "accepting d \<Longrightarrow> is_live s \<Longrightarrow> try_log_with_service d s e = (ok, s') \<Longrightarrow> ok"
  by (auto simp: accepting_def is_live_def try_log_with_service_def tell_log_def)

lemma ref_deps_accepting: "accepting ref_deps"
  by (simp add: accepting_def ref_deps_def)

definition plain_entry :: "log_level \<Rightarrow> string \<Rightarrow> log_entry" where
  "plain_entry l m =
     \<lparr>le_level = l, le_message = m, le_component = None, le_service = None, le_payload = None\<rparr>"

lemma sink_log_sent:
  assumes "is_live s"
  shows "is_live (sink_log d s l m None None) \<and>
     (\<exists>es. set es \<subseteq> {plain_entry l m} \<and> delivered (sink_log d s l m None None) = delivered s @ es)"
proof -
  obtain ok s' where s': "try_log_with_service d s (plain_entry l m) = (ok, s')" by fastforce
  have "sink_log d s l m None None = s'"
    using s' by (simp add: sink_log_def try_log_def plain_entry_def)
  with tell_channel.send_sent [OF assms s'] tell_channel.send_live [OF assms s'] show ?thesis
    by auto
qed

section \<open>Tags are merged, sorted and interned once\<close>

lemma with_merged_append: "with_merged ts ls = ts @ ls"
  by (auto simp: with_merged_def copy_into_def Let_def)

lemma fst_intern [simp]: "fst (intern s table) = s"
  by (simp add: intern_def)

lemma set_snd_intern [simp]: "set (snd (intern s table)) = insert s (set table)"
  by (auto simp: intern_def)

lemma snd_intern_known: "s \<in> set table \<Longrightarrow> snd (intern s table) = table"
  by (simp add: intern_def)

lemma intern_pairs_Cons:
  "intern_pairs ((k, v) # m) table =
     (let r = intern_pairs m (snd (intern v (snd (intern k table)))) in ((k, v) # fst r, snd r))"
  by (simp add: Let_def split_beta)

lemma intern_pairs_labels: "fst (intern_pairs m table) = m"
  by (induction m arbitrary: table) (auto simp: intern_pairs_Cons Let_def simp del: intern_pairs.simps(2))

lemma intern_pairs_table:
  "set (snd (intern_pairs m table)) = set table \<union> fst ` set m \<union> snd ` set m"
proof (induction m arbitrary: table)
  case (Cons kv m)
  then show ?case
    by (cases kv) (simp add: intern_pairs_Cons Let_def insert_commute del: intern_pairs.simps(2))
qed simp

lemma intern_pairs_known:
  "fst ` set m \<union> snd ` set m \<subseteq> set table \<Longrightarrow> snd (intern_pairs m table) = table"
proof (induction m)
  case (Cons kv m)
  then show ?case
    by (cases kv) (simp add: intern_pairs_Cons Let_def snd_intern_known del: intern_pairs.simps(2))
qed simp

lemma leak_tags_fst: "fst (leak_tags m table) = sort_key fst m"
  using intern_pairs_labels [of m table] by (auto simp: leak_tags_def split: prod.splits)

lemma leak_tags_snd: "snd (leak_tags m table) = snd (intern_pairs m table)"
  by (auto simp: leak_tags_def split: prod.splits)

lemma distinct_map_fst_sort: "distinct (map fst (sort_key fst m)) = distinct (map fst m)"
  by (metis mset_eq_imp_distinct_iff mset_map mset_sort)

lemma mset_eq_distinct_map: "mset m = mset m' \<Longrightarrow> distinct (map fst m) = distinct (map fst m')"
  by (metis mset_eq_imp_distinct_iff mset_map)

lemma sort_key_fst_unique:
  assumes "distinct (map fst m)" and "mset m = mset m'"
  shows "sort_key fst m = sort_key fst m'"
proof (rule map_sorted_distinct_set_unique [where f = fst])
  show "inj_on fst (set (sort_key fst m) \<union> set (sort_key fst m'))"
    using assms by (metis Un_absorb distinct_map mset_eq_setD set_sort)
  show "distinct (map fst (sort_key fst m))" and "distinct (map fst (sort_key fst m'))"
    using assms(1) mset_eq_distinct_map [OF assms(2)] by (simp_all only: distinct_map_fst_sort)
  show "set (sort_key fst m) = set (sort_key fst m')"
    using assms by (metis mset_eq_setD set_sort)
qed simp_all

end
