(* ===== verification/Tail_State.thy ===== *)
theory Tail_State
  imports Structured_Props Sink
begin

text \<open>
  The state of the file tailer (\<open>src/logs/watcher.rs\<close>, \<open>src/logs/multiline.rs\<close>): file
  identities, the per-file record with its optional multiline aggregator, and the file
  system as one call sees it. The Unix configuration is modelled: an open file is its
  (device, inode) pair. Byte offsets are naturals: a file offset is below \<open>2^63\<close>, so the
  additions on \<open>u64\<close> do not wrap.
\<close>

section \<open>Constants\<close>

definition POLL_BASE_MS :: nat where "POLL_BASE_MS = 250"
definition POLL_MAX_MS :: nat where "POLL_MAX_MS = 2000"
definition POLL_CATCHUP_MS :: nat where "POLL_CATCHUP_MS = 50"
definition STALE_THRESHOLD :: nat where "STALE_THRESHOLD = 30"
definition IGNORE_OLDER_SECS :: nat where "IGNORE_OLDER_SECS = 86400"
definition OFFSET_SAVE_MIN_SECS :: nat where "OFFSET_SAVE_MIN_SECS = 1"
definition MAX_PARTIAL_BYTES :: nat where "MAX_PARTIAL_BYTES = 1024 * 1024"
definition MAX_LINES_PER_POLL :: nat where "MAX_LINES_PER_POLL = 32000"

section \<open>File identity\<close>

record file_id =
  dev :: nat
  ino :: nat

fun le_value :: "string \<Rightarrow> nat" where
  "le_value [] = 0"
| "le_value (b # bs) = code b + 256 * le_value bs"

text \<open>
  The Windows identity folded into the same shape; \<open>hash\<close> is the 64-bit hash of the
  standard library, whose algorithm is unspecified.
\<close>

definition fold_file_id :: "(string \<Rightarrow> nat) \<Rightarrow> nat \<Rightarrow> string \<Rightarrow> file_id" where
  "fold_file_id hash volume_serial ident =
     (let low = le_value (take 8 ident); high = le_value (drop 8 (take 16 ident))
      in \<lparr>dev = volume_serial, ino = (if high = 0 then low else hash ident)\<rparr>)"

lemma le_value_bound: "le_value bs < 256 ^ length bs"
proof (induction bs)
  case (Cons b bs)
  then have "256 * Suc (le_value bs) \<le> 256 * 256 ^ length bs" by (intro mult_le_mono) auto
  with code_less [of b] show ?case by (simp del: code_less)
qed simp

lemma le_value_digit:
  assumes "code x + 256 * m = code y + 256 * n"
  shows "code x = code y" and "m = n"
proof -
  have "(code x + 256 * m) mod 256 = (code y + 256 * n) mod 256" using assms by simp
  then show "code x = code y" by simp
  with assms show "m = n" by simp
qed

lemma le_value_inject: "length a = length b \<Longrightarrow> le_value a = le_value b \<Longrightarrow> a = b"
proof (induction a b rule: list_induct2)
  case (Cons x xs y ys)
  then have "code x + 256 * le_value xs = code y + 256 * le_value ys" by simp
  from le_value_digit [OF this] Cons.IH show ?case by (simp add: code_def)
qed simp

section \<open>Byte-order marks\<close>

datatype bom = Utf16Le | Utf16Be | Utf8 | No_bom

fun is_utf16 :: "bom \<Rightarrow> bool" where
  "is_utf16 Utf16Le = True"
| "is_utf16 Utf16Be = True"
| "is_utf16 _ = False"

definition detect_bom :: "string \<Rightarrow> bom" where
  "detect_bom bytes =
     (if starts_with bytes [CHR 0xFF, CHR 0xFE] then Utf16Le
      else if starts_with bytes [CHR 0xFE, CHR 0xFF] then Utf16Be
      else if starts_with bytes [CHR 0xEF, CHR 0xBB, CHR 0xBF] then Utf8
      else No_bom)"

section \<open>Per-file state\<close>

record aggregator =
  agg_record :: string
  record_bytes :: nat
  read_ahead :: nat
  partial_bytes :: nat
  last_append :: "nat option"

record tailed_file =
  tf_path :: path
  pos :: nat
  tf_id :: file_id
  partial :: string
  open_failures :: nat
  retained_fd :: "file_id option"
  skip_utf16 :: bool
  agg :: "aggregator option"

section \<open>The file system\<close>

record file_meta =
  m_id :: file_id
  m_len :: nat
  m_age :: "nat option"

text \<open>
  What one operation sees of the file system: \<open>File::open\<close>, the metadata of an open file
  and of a path (with the age in seconds when the clock and the modification time give
  one), the first bytes of a file, the reader after a successful seek, and the entries of
  the parent directory of a path.
\<close>

record world =
  w_open :: "path \<Rightarrow> file_id option"
  w_meta :: "file_id \<Rightarrow> file_meta option"
  w_stat :: "path \<Rightarrow> file_meta option"
  w_head :: "file_id \<Rightarrow> string"
  w_read :: "file_id \<Rightarrow> nat \<Rightarrow> reader option"
  w_siblings :: "path \<Rightarrow> (path \<times> file_meta option) list"

definition file_is_utf16 :: "world \<Rightarrow> path \<Rightarrow> bool" where
  "file_is_utf16 w p =
     (case w_open w p of None \<Rightarrow> False | Some f \<Rightarrow> is_utf16 (detect_bom (take 3 (w_head w f))))"

section \<open>Partial lines\<close>

definition push_partial :: "deps \<Rightarrow> string \<Rightarrow> string \<Rightarrow> string" where
  "push_partial d part bytes =
     (if MAX_PARTIAL_BYTES \<le> length part then part
      else (let p = part @ lossy d bytes in
            if MAX_PARTIAL_BYTES < length p then take (floor_char_boundary p MAX_PARTIAL_BYTES) p
            else p))"

lemma push_partial_bound: "length part \<le> MAX_PARTIAL_BYTES \<Longrightarrow> length (push_partial d part bytes) \<le> MAX_PARTIAL_BYTES"
  using floor_char_boundary_le [of "part @ lossy d bytes" MAX_PARTIAL_BYTES]
  by (auto simp: push_partial_def Let_def)

lemma push_partial_valid:
  assumes "simd_ok d" and "utf8_valid part"
  shows "utf8_valid (push_partial d part bytes)"
proof -
  have "utf8_valid (part @ lossy d bytes)"
    using assms by (simp add: utf8_valid_append utf8_valid_lossy_d)
  from this utf8_valid_floor [OF this, of MAX_PARTIAL_BYTES] show ?thesis
    using assms(2) by (simp add: push_partial_def Let_def del: take_append)
qed

lemma push_partial_append:
  "length part < MAX_PARTIAL_BYTES \<Longrightarrow> length (part @ lossy d bytes) \<le> MAX_PARTIAL_BYTES \<Longrightarrow>
     push_partial d part bytes = part @ lossy d bytes"
  by (simp add: push_partial_def Let_def)

text \<open>The byte-order mark that survives decoding at the start of a file.\<close>

definition strip_bom :: "string \<Rightarrow> string" where
  "strip_bom s = (case strip_prefix [CHR 0xEF, CHR 0xBB, CHR 0xBF] s of Some r \<Rightarrow> r | None \<Rightarrow> s)"

definition normalize_line :: "string \<Rightarrow> string" where
  "normalize_line line = strip_bom (trim_end line)"

definition entry_of :: "deps \<Rightarrow> file_parse_opts \<Rightarrow> string \<Rightarrow> log_entry" where
  "entry_of d opts line =
     (let c = classify_line d line opts in
      \<lparr>le_level = c_level c, le_message = c_body c, le_component = None,
       le_service = c_service c, le_payload = c_payload c\<rparr>)"

end
