(* ===== verification/Watcher.thy ===== *)
theory Watcher
  imports Tail_State
begin

text \<open>
  The single-line read path of \<open>src/logs/watcher.rs\<close>: emitting a line, flushing a partial
  line, the loop shared by \<open>read_lines\<close> and \<open>drain_retained\<close>, and what one pass delivers.
\<close>

section \<open>Emitting\<close>

text \<open>The result is success, the partial buffer and the sink.\<close>

definition try_emit_line ::
    "deps \<Rightarrow> file_parse_opts \<Rightarrow> string \<Rightarrow> string \<Rightarrow> sink \<Rightarrow> bool \<times> string \<times> sink" where
  "try_emit_line d opts line_bytes part s =
     (let complete = part @ lossy d line_bytes;
          trimmed = strip_bom (trim_end complete)
      in if trimmed = [] then (True, [], s)
         else (case try_log_with_service d s (entry_of d opts trimmed) of
                 (True, s') \<Rightarrow> (True, [], s')
               | (False, s') \<Rightarrow> (False, part, s')))"

definition flush_partial :: "deps \<Rightarrow> tailed_file \<Rightarrow> sink \<Rightarrow> tailed_file \<times> sink" where
  "flush_partial d t s =
     (if partial t = [] then (t, s)
      else (let trimmed = trim (partial t); t' = t\<lparr>partial := []\<rparr>
            in (t', if trimmed = [] then s else sink_log d s Info trimmed None None)))"

section \<open>The read loop\<close>

datatype stop = Stop_Eof | Stop_Error | Stop_Full | Stop_Cap

function tail_loop ::
    "deps \<Rightarrow> file_parse_opts \<Rightarrow> reader \<Rightarrow> tailed_file \<Rightarrow> sink \<Rightarrow> nat \<Rightarrow> nat \<Rightarrow>
       stop \<times> tailed_file \<times> sink \<times> nat" where
  "tail_loop d opts r t s bytes_read lines_emitted =
     (case read_line d r [] 0 of
        (Inl _, _, _) \<Rightarrow> (Stop_Error, t, s, bytes_read)
      | (Inr n, buf, r') \<Rightarrow>
          if n = 0 then (Stop_Eof, t, s, bytes_read)
          else if last buf = NL then
            (case try_emit_line d opts (butlast buf) (partial t) s of
               (False, p, s') \<Rightarrow> (Stop_Full, t\<lparr>partial := p\<rparr>, s', bytes_read)
             | (True, p, s') \<Rightarrow>
                 (let t' = t\<lparr>partial := p, pos := pos t + n\<rparr> in
                  if MAX_LINES_PER_POLL \<le> Suc lines_emitted then (Stop_Cap, t', s', bytes_read + n)
                  else tail_loop d opts r' t' s' (bytes_read + n) (Suc lines_emitted)))
          else tail_loop d opts r'
                 (t\<lparr>pos := pos t + n, partial := push_partial d (partial t) buf\<rparr>) s
                 (bytes_read + n) lines_emitted)"
  by pat_completeness auto
termination
  by (relation "measure (\<lambda>(d, opts, r, t, s, b, l). reader_size r)")
    (auto dest: read_line_progress [OF sym])

declare tail_loop.simps [simp del]

text \<open>\<open>read_lines\<close>: bytes consumed by one live poll.\<close>

definition read_lines ::
    "deps \<Rightarrow> file_parse_opts \<Rightarrow> reader option \<Rightarrow> tailed_file \<Rightarrow> sink \<Rightarrow> tailed_file \<times> sink \<times> nat" where
  "read_lines d opts seeked t s =
     (case seeked of
        None \<Rightarrow> (t, s, 0)
      | Some r \<Rightarrow> (case tail_loop d opts r t s 0 0 of (_, t', s', b) \<Rightarrow> (t', s', b)))"

text \<open>
  \<open>drain_retained\<close>: the descriptor is taken; it is put back when the channel is full or the
  line cap is hit; otherwise the partial line is flushed.
\<close>

definition drain_retained ::
    "deps \<Rightarrow> world \<Rightarrow> file_parse_opts \<Rightarrow> tailed_file \<Rightarrow> sink \<Rightarrow> tailed_file \<times> sink \<times> nat" where
  "drain_retained d w opts t s =
     (case retained_fd t of
        None \<Rightarrow> (t, s, 0)
      | Some fd \<Rightarrow>
          (let t0 = t\<lparr>retained_fd := None\<rparr> in
           case w_read w fd (pos t) of
             None \<Rightarrow> (t0, s, 0)
           | Some r \<Rightarrow>
               (case tail_loop d opts r t0 s 0 0 of
                  (stp, t', s', b) \<Rightarrow>
                    if stp = Stop_Full \<or> stp = Stop_Cap
                    then (t'\<lparr>retained_fd := Some fd\<rparr>, s', b)
                    else (case flush_partial d t' s' of (t'', s'') \<Rightarrow> (t'', s'', b)))))"

section \<open>What one line does\<close>

text \<open>
  A piece is what one \<open>read_line\<close> call returns: a whole line with its newline, or bytes
  without one. Folding pieces over the partial buffer gives the entries the loop sends.
\<close>

definition is_piece :: "string \<Rightarrow> bool" where
  "is_piece p \<longleftrightarrow> p \<noteq> [] \<and> NL \<notin> set (butlast p)"

definition line_entries :: "deps \<Rightarrow> file_parse_opts \<Rightarrow> string \<Rightarrow> log_entry list" where
  "line_entries d opts line =
     (let l = normalize_line line in if l = [] then [] else [entry_of d opts l])"

fun emit_piece ::
    "deps \<Rightarrow> file_parse_opts \<Rightarrow> string \<times> log_entry list \<Rightarrow> string \<Rightarrow> string \<times> log_entry list" where
  "emit_piece d opts (part, es) p =
     (if last p = NL then ([], es @ line_entries d opts (part @ lossy d (butlast p)))
      else (push_partial d part p, es))"

lemma try_emit_line_sent:
  assumes "is_live s" and "try_emit_line d opts line part s = (ok, part', s')"
  shows "is_live s'"
    and "ok \<Longrightarrow> part' = [] \<and> delivered s' = delivered s @ line_entries d opts (part @ lossy d line)"
    and "\<not> ok \<Longrightarrow> part' = part \<and> delivered s' = delivered s"
proof -
  let ?l = "strip_bom (trim_end (part @ lossy d line))"
  obtain ok1 s1 where s1: "try_log_with_service d s (entry_of d opts ?l) = (ok1, s1)" by fastforce
  note law = tell_channel.send_sent [OF assms(1) s1] tell_channel.send_live [OF assms(1) s1]
  from assms(2) s1 law assms(1) show "is_live s'"
    and "ok \<Longrightarrow> part' = [] \<and> delivered s' = delivered s @ line_entries d opts (part @ lossy d line)"
    and "\<not> ok \<Longrightarrow> part' = part \<and> delivered s' = delivered s"
    by (auto simp: try_emit_line_def line_entries_def normalize_line_def Let_def
        split: if_splits bool.splits)
qed

lemma read_line_is_piece:
  assumes "memchr_ok d" and "read_line d r [] 0 = (Inr n, buf, r')" and "n \<noteq> 0"
  shows "is_piece buf" and "n = length buf" and "reader_all r = buf @ reader_all r'"
proof -
  show "n = length buf" "reader_all r = buf @ reader_all r'" using read_line_Ok [OF assms(1,2)] by auto
  then have "buf \<noteq> []" using assms(3) by auto
  with read_line_piece [OF assms(1,2)] show "is_piece buf"
    by (auto simp: is_piece_def dest: in_set_butlastD)
qed

text \<open>One pass of the loop, as a fold over the pieces it consumed.\<close>

definition loop_post ::
    "deps \<Rightarrow> file_parse_opts \<Rightarrow> tailed_file \<Rightarrow> sink \<Rightarrow> string list \<Rightarrow> tailed_file \<Rightarrow> sink \<Rightarrow> bool" where
  "loop_post d opts t s ps t' s' \<longleftrightarrow>
     is_live s' \<and> list_all is_piece ps
     \<and> (partial t', delivered s') = foldl (emit_piece d opts) (partial t, delivered s) ps
     \<and> t' = t\<lparr>pos := pos t + length (concat ps), partial := partial t'\<rparr>"

lemma loop_post_Nil: "is_live s \<Longrightarrow> loop_post d opts t s [] t s"
  by (simp add: loop_post_def)

lemma loop_post_Cons:
  assumes "loop_post d opts t1 s1 ps t' s'" and "is_piece p"
    and "(partial t1, delivered s1) = emit_piece d opts (partial t, delivered s) p"
    and "t1 = t\<lparr>pos := pos t + length p, partial := partial t1\<rparr>"
  shows "loop_post d opts t s (p # ps) t' s'"
proof -
  have "t' = t1\<lparr>pos := pos t1 + length (concat ps), partial := partial t'\<rparr>"
    using assms(1) by (simp add: loop_post_def)
  also have "\<dots> = t\<lparr>pos := pos t + length (concat (p # ps)), partial := partial t'\<rparr>"
    by (subst (1 2) assms(4)) simp
  finally show ?thesis using assms(1-3) by (simp add: loop_post_def del: emit_piece.simps)
qed

lemma tail_loop_spec:
  assumes "memchr_ok d"
  shows "is_live s \<Longrightarrow> tail_loop d opts r t s b n = (stp, t', s', b') \<Longrightarrow>
    \<exists>ps rest. reader_all r = concat ps @ rest \<and> b' = b + length (concat ps)
      \<and> (reader_valid [] r \<longrightarrow> list_all utf8_valid ps) \<and> loop_post d opts t s ps t' s'"
proof (induction "reader_size r" arbitrary: r t s b n rule: less_induct)
  case less
  obtain res buf r' where rl: "read_line d r [] 0 = (res, buf, r')" by (metis prod_cases3)
  note unfold = tail_loop.simps [of d opts r t s b n]
  let ?goal = "\<exists>ps rest. reader_all r = concat ps @ rest \<and> b' = b + length (concat ps)
      \<and> (reader_valid [] r \<longrightarrow> list_all utf8_valid ps) \<and> loop_post d opts t s ps t' s'"
  have nil: ?goal if "t' = t" "s' = s" "b' = b"
    using that less(2) loop_post_Nil [of s d opts t]
    by (intro exI [of _ "[]"] exI [of _ "reader_all r"]) auto
  show ?case
  proof (cases res)
    case (Inl e)
    with less(3) rl show ?thesis by (intro nil) (auto simp: unfold)
  next
    case (Inr m)
    show ?thesis
    proof (cases "m = 0")
      case True
      with less(3) rl Inr show ?thesis by (intro nil) (auto simp: unfold)
    next
      case m: False
      note piece = read_line_is_piece [OF assms rl [unfolded Inr] m]
      note valid = reader_valid_read_line [OF assms rl [unfolded Inr]]
      have smaller: "reader_size r' < reader_size r"
        using read_line_progress [OF rl [unfolded Inr] m] .
      have step: ?goal if "is_live s1" "tail_loop d opts r' t1 s1 (b + m) n1 = (stp, t', s', b')"
        "(partial t1, delivered s1) = emit_piece d opts (partial t, delivered s) buf"
        "t1 = t\<lparr>pos := pos t + length buf, partial := partial t1\<rparr>" for t1 s1 n1
      proof -
        note hyp = that
        obtain ps rest where ih: "reader_all r' = concat ps @ rest" "b' = b + m + length (concat ps)"
          "reader_valid [] r' \<longrightarrow> list_all utf8_valid ps" "loop_post d opts t1 s1 ps t' s'"
          using less(1) [OF smaller hyp(1,2)] by auto
        have "loop_post d opts t s (buf # ps) t' s'"
          by (rule loop_post_Cons [OF ih(4) piece(1) hyp(3,4)])
        with ih piece valid show ?thesis by (intro exI [of _ "buf # ps"] exI [of _ rest]) auto
      qed
      show ?thesis
      proof (cases "last buf = NL")
        case False
        show ?thesis
          by (rule step [of s "t\<lparr>pos := pos t + m, partial := push_partial d (partial t) buf\<rparr>" n])
            (use less(2,3) rl Inr m False piece(2) in \<open>auto simp: unfold\<close>)
      next
        case True
        obtain ok p s1 where te: "try_emit_line d opts (butlast buf) (partial t) s = (ok, p, s1)"
          by (metis prod_cases3)
        note law = try_emit_line_sent [OF less(2) te]
        define t1 where "t1 = t\<lparr>partial := p, pos := pos t + m\<rparr>"
        have fold1: "(partial t1, delivered s1) = emit_piece d opts (partial t, delivered s) buf"
          and upd: "t1 = t\<lparr>pos := pos t + length buf, partial := partial t1\<rparr>" if ok
          using law(2) [OF that] True piece(2) by (simp_all add: t1_def)
        consider (full) "\<not> ok" | (cap) ok "MAX_LINES_PER_POLL \<le> Suc n"
          | (more) ok "\<not> MAX_LINES_PER_POLL \<le> Suc n" by blast
        then show ?thesis
        proof cases
          case full
          with less(3) rl Inr m True te law have "t' = t\<lparr>partial := partial t\<rparr>" "s' = s1" "b' = b"
            by (auto simp: unfold)
          with law full less(2) show ?thesis
            by (intro exI [of _ "[]"] exI [of _ "reader_all r"]) (auto simp: loop_post_def)
        next
          case cap
          with less(3) rl Inr m True te have r: "t' = t1" "s' = s1" "b' = b + m"
            by (auto simp: unfold t1_def Let_def)
          have "loop_post d opts t s [buf] t1 s1"
            by (rule loop_post_Cons [OF loop_post_Nil [OF law(1)] piece(1) fold1 upd]) (rule cap)+
          with r piece valid show ?thesis by (intro exI [of _ "[buf]"] exI [of _ "reader_all r'"]) auto
        next
          case more
          show ?thesis
            by (rule step [of s1 t1 "Suc n"])
              (use law(1) less(3) rl Inr m True te more fold1 upd in \<open>auto simp: unfold t1_def Let_def simp del: emit_piece.simps\<close>)
        qed
      qed
    qed
  qed
qed

end
