(* ===== verification/Watcher_Props.thy ===== *)
theory Watcher_Props
  imports Watcher
begin

text \<open>
  The contract of the single-line tailer: after any sequence of polls the sink holds exactly
  the entries of the complete lines before \<open>pos\<close>, and the partial buffer the bytes after the
  last newline.
\<close>

section \<open>Splitting at newlines\<close>

lemma split_char_nonempty: "split_char c s \<noteq> []"
  by (cases s) (auto split: list.splits)

lemma split_char_free: "c \<notin> set a \<Longrightarrow> split_char c a = [a]"
  by (induction a) auto

lemma split_char_first: "c \<notin> set a \<Longrightarrow> split_char c (a @ c # b) = a # split_char c b"
  by (induction a) auto

lemma split_char_append_free:
  "c \<notin> set b \<Longrightarrow> split_char c (a @ b) = butlast (split_char c a) @ [last (split_char c a) @ b]"
proof (induction a)
  case (Cons x a)
  then show ?case
    using split_char_nonempty [of c a] by (cases "split_char c a") auto
qed (simp add: split_char_free)

lemma split_char_append_sep: "split_char c (a @ [c]) = split_char c a @ [[]]"
proof (induction a)
  case (Cons x a)
  then show ?case using split_char_nonempty [of c a] by (cases "split_char c a") auto
qed simp

lemma split_char_last_free: "c \<notin> set (last (split_char c a))"
proof (induction a)
  case (Cons x a)
  then show ?case using split_char_nonempty [of c a] by (cases "split_char c a") auto
qed simp

lemma split_char_hd_prefix: "length (hd (split_char c a)) \<le> length (hd (split_char c (a @ b)))"
proof (induction a)
  case (Cons x a)
  obtain p ps q qs where "split_char c a = p # ps" "split_char c (a @ b) = q # qs"
    using split_char_nonempty by (metis neq_Nil_conv)
  with Cons show ?case by simp
qed simp

text \<open>Every segment of a prefix is at most as long as a segment of the whole.\<close>

lemma split_char_prefix_bound:
  assumes "\<forall>l \<in> set (split_char c (a @ b)). length l \<le> m"
  shows "\<forall>l \<in> set (split_char c a). length l \<le> m"
  using assms
proof (induction a)
  case (Cons x a)
  obtain p ps q qs where *: "split_char c a = p # ps" "split_char c (a @ b) = q # qs"
    using split_char_nonempty by (metis neq_Nil_conv)
  from Cons * have "\<forall>l \<in> set (p # ps). length l \<le> m" and "x \<noteq> c \<Longrightarrow> length (x # q) \<le> m"
    by (auto split: if_splits)
  moreover have "length p \<le> length q"
    using split_char_hd_prefix [of c a b] * by simp
  ultimately show ?case using * by (simp, metis le_trans Suc_le_mono)
qed (simp add: split_char_nonempty)

section \<open>Folding well-formed pieces\<close>

text \<open>
  The specification: the lines complete in a text, and what follows the last newline.
\<close>

definition spec_entries :: "deps \<Rightarrow> file_parse_opts \<Rightarrow> string \<Rightarrow> log_entry list" where
  "spec_entries d opts bs = concat (map (line_entries d opts) (butlast (split_char NL bs)))"

definition spec_tail :: "string \<Rightarrow> string" where
  "spec_tail bs = last (split_char NL bs)"

lemma spec_append_line:
  "NL \<notin> set l \<Longrightarrow> spec_entries d opts (bs @ l @ [NL]) = spec_entries d opts bs @ line_entries d opts (spec_tail bs @ l)
     \<and> spec_tail (bs @ l @ [NL]) = []"
  using split_char_append_sep [of NL "bs @ l"] split_char_append_free [of NL l bs]
  by (simp add: spec_entries_def spec_tail_def butlast_append)

lemma spec_append_free:
  "NL \<notin> set l \<Longrightarrow> spec_entries d opts (bs @ l) = spec_entries d opts bs
     \<and> spec_tail (bs @ l) = spec_tail bs @ l"
  by (simp add: spec_entries_def spec_tail_def split_char_append_free butlast_append)

lemma is_piece_cases:
  assumes "is_piece p"
  obtains (line) l where "p = l @ [NL]" "NL \<notin> set l" | (free) "p \<noteq> []" "NL \<notin> set p" "last p \<noteq> NL"
proof (cases "last p = NL")
  case True
  with assms have "p = butlast p @ [NL]" "NL \<notin> set (butlast p)"
    by (auto simp: is_piece_def) (metis append_butlast_last_id)
  then show ?thesis by (rule line)
next
  case False
  with assms have "p \<noteq> []" "NL \<notin> set p"
    by (auto simp: is_piece_def) (metis append_butlast_last_id in_set_conv_decomp rotate1.simps(2) set_ConsD set_rotate1)
  then show ?thesis using False by (rule free)
qed

lemma emit_piece_spec:
  assumes "simd_ok d" and "is_piece p" and "utf8_valid p"
    and "\<forall>l \<in> set (split_char NL (bs @ p)). length l \<le> MAX_PARTIAL_BYTES"
  shows "emit_piece d opts (spec_tail bs, base @ spec_entries d opts bs) p =
    (spec_tail (bs @ p), base @ spec_entries d opts (bs @ p))"
  using assms(2)
proof (cases rule: is_piece_cases)
  case (line l)
  then have "utf8_valid l" using assms(3) utf8_valid_before_nl [of l "[]"] by simp
  with line spec_append_line [of l d opts bs] assms(1) show ?thesis by simp
next
  case free
  have "length (spec_tail (bs @ p)) \<le> MAX_PARTIAL_BYTES"
    using assms(4) split_char_nonempty [of NL "bs @ p"] by (simp add: spec_tail_def)
  then have "length (spec_tail bs @ lossy d p) \<le> MAX_PARTIAL_BYTES" "lossy d p = p"
    using spec_append_free [of p] free assms(1,3) by simp_all
  moreover from this free have "length (spec_tail bs) < MAX_PARTIAL_BYTES"
    by (cases p) auto
  ultimately show ?thesis
    using spec_append_free [of p d opts bs] free push_partial_append [of "spec_tail bs" d p] by simp
qed

lemma foldl_emit_piece_spec:
  assumes "simd_ok d"
  shows "list_all is_piece ps \<Longrightarrow> list_all utf8_valid ps \<Longrightarrow>
    \<forall>l \<in> set (split_char NL (bs @ concat ps)). length l \<le> MAX_PARTIAL_BYTES \<Longrightarrow>
    foldl (emit_piece d opts) (spec_tail bs, base @ spec_entries d opts bs) ps =
      (spec_tail (bs @ concat ps), base @ spec_entries d opts (bs @ concat ps))"
proof (induction ps arbitrary: bs)
  case (Cons p ps)
  have "\<forall>l \<in> set (split_char NL (bs @ p)). length l \<le> MAX_PARTIAL_BYTES"
    using Cons.prems(3) split_char_prefix_bound [of NL "bs @ p" "concat ps"] by simp
  with Cons.prems have "emit_piece d opts (spec_tail bs, base @ spec_entries d opts bs) p =
    (spec_tail (bs @ p), base @ spec_entries d opts (bs @ p))"
    by (intro emit_piece_spec [OF assms]) auto
  then show ?case using Cons.IH [of "bs @ p"] Cons.prems by (simp del: emit_piece.simps)
qed simp

section \<open>The contract\<close>

text \<open>
  Tailing began at offset \<open>off\<close> with \<open>base\<close> already delivered; \<open>content\<close> is the file from
  there on. What is delivered and buffered is determined by the offset alone.
\<close>

definition shipped ::
    "deps \<Rightarrow> file_parse_opts \<Rightarrow> nat \<Rightarrow> log_entry list \<Rightarrow> string \<Rightarrow> tailed_file \<Rightarrow> sink \<Rightarrow> bool" where
  "shipped d opts off base content t s \<longleftrightarrow>
     is_live s \<and> off \<le> pos t \<and> pos t \<le> off + length content
     \<and> partial t = spec_tail (take (pos t - off) content)
     \<and> delivered s = base @ spec_entries d opts (take (pos t - off) content)"

lemma shipped_start:
  "is_live s \<Longrightarrow> partial t = [] \<Longrightarrow> pos t = off \<Longrightarrow> shipped d opts off (delivered s) content t s"
  by (simp add: shipped_def spec_tail_def spec_entries_def)

lemma shipped_grow:
  "shipped d opts off base content t s \<Longrightarrow> shipped d opts off base (content @ appended) t s"
  by (auto simp: shipped_def)

lemma tail_loop_shipped:
  assumes "memchr_ok d" and "simd_ok d" and "reader_valid [] r"
    and "prefix (reader_all r) (drop (pos t - off) content)"
    and "\<forall>l \<in> set (split_char NL content). length l \<le> MAX_PARTIAL_BYTES"
    and "shipped d opts off base content t s"
    and "tail_loop d opts r t s b n = (stp, t', s', b')"
  shows "shipped d opts off base content t' s'" and "pos t' + b = pos t + b'"
    and "t'\<lparr>pos := pos t, partial := partial t\<rparr> = t"
proof -
  have live: "is_live s" using assms(6) by (simp add: shipped_def)
  obtain ps rest where ps: "reader_all r = concat ps @ rest" "b' = b + length (concat ps)"
    "list_all utf8_valid ps" "loop_post d opts t s ps t' s'"
    using tail_loop_spec [OF assms(1) live assms(7)] assms(3) by auto
  define seen where "seen = take (pos t - off) content"
  from ps(1) assms(4) obtain e where e: "drop (pos t - off) content = concat ps @ e"
    by (auto simp: prefix_def)
  then have c: "content = seen @ concat ps @ e" by (metis append_take_drop_id seen_def)
  have len: "length seen = pos t - off" using assms(6) by (auto simp: seen_def shipped_def min_def)
  have t': "t' = t\<lparr>pos := pos t + length (concat ps), partial := partial t'\<rparr>" and live': "is_live s'"
    and fold: "(partial t', delivered s') = foldl (emit_piece d opts) (partial t, delivered s) ps"
    and pieces: "list_all is_piece ps"
    using ps(4) by (auto simp: loop_post_def)
  have "\<forall>l \<in> set (split_char NL (seen @ concat ps)). length l \<le> MAX_PARTIAL_BYTES"
    using assms(5) c split_char_prefix_bound [of NL "seen @ concat ps" e] by simp
  then have "(partial t', delivered s') =
      (spec_tail (seen @ concat ps), base @ spec_entries d opts (seen @ concat ps))"
    using foldl_emit_piece_spec [OF assms(2) pieces ps(3), of seen opts base] fold assms(6)
    by (simp add: shipped_def seen_def)
  moreover have p': "pos t' = pos t + length (concat ps)" by (subst t') simp
  moreover have "take (pos t' - off) content = seen @ concat ps"
    using c len p' assms(6) by (simp add: shipped_def)
  ultimately show "shipped d opts off base content t' s'"
    using live' assms(6) c len by (auto simp: shipped_def)
  show "pos t' + b = pos t + b'" using p' ps(2) by simp
  show "t'\<lparr>pos := pos t, partial := partial t\<rparr> = t" by (subst t') simp
qed

section \<open>Progress\<close>

lemma read_line_quiet:
  assumes "memchr_ok d"
  shows "IoError \<notin> set r \<Longrightarrow> Chunk [] \<notin> set r \<Longrightarrow>
    \<exists>n' buf' r'. read_line d r buf n = (Inr n', buf', r') \<and> IoError \<notin> set r' \<and> Chunk [] \<notin> set r'"
  using assms
proof (induction d r buf n rule: read_line.induct)
  case (4 d c r buf n)
  show ?case
  proof (cases "memchr d NL c")
    case None
    with 4 show ?thesis by auto
  next
    case (Some i)
    with 4 show ?thesis by (auto simp: consume_def)
  qed
qed auto

lemma reader_bytes_quiet: "IoError \<notin> set r \<Longrightarrow> Chunk [] \<notin> set r \<Longrightarrow> reader_bytes r = reader_all r"
  by (induction r rule: reader_all.induct) auto

lemma try_emit_line_accepts:
  "is_live s \<Longrightarrow> \<forall>h e. tell_accepts d h e \<Longrightarrow> try_emit_line d opts l p s = (ok, p', s') \<Longrightarrow> ok"
  by (auto simp: try_emit_line_def is_live_def try_log_with_service_def tell_log_def Let_def
      split: if_splits)

lemma tail_loop_all:
  assumes "memchr_ok d" and "\<forall>h e. tell_accepts d h e"
  shows "is_live s \<Longrightarrow> IoError \<notin> set r \<Longrightarrow> Chunk [] \<notin> set r \<Longrightarrow>
    n + length (filter ((=) NL) (reader_all r)) < MAX_LINES_PER_POLL \<Longrightarrow>
    \<exists>t' s'. tail_loop d opts r t s b n = (Stop_Eof, t', s', b + length (reader_all r))"
proof (induction "reader_size r" arbitrary: r t s b n rule: less_induct)
  case less
  obtain m buf r' where rl: "read_line d r [] 0 = (Inr m, buf, r')"
    and quiet: "IoError \<notin> set r'" "Chunk [] \<notin> set r'"
    using read_line_quiet [OF assms(1) less(3,4)] by blast
  note rd = read_line_Ok [OF assms(1) rl] and unfold = tail_loop.simps [of d opts r t s b n]
  show ?case
  proof (cases "m = 0")
    case True
    then have "reader_all r = []"
      using rd(1,2) reader_bytes_quiet [OF less(3,4)] first_line_cases [of "reader_all r"] by auto
    with True rl show ?thesis by (simp add: unfold)
  next
    case False
    note ih = less(1) [OF read_line_progress [OF rl False] _ quiet]
    show ?thesis
    proof (cases "last buf = NL")
      case True
      obtain ok p s1 where te: "try_emit_line d opts (butlast buf) (partial t) s = (ok, p, s1)"
        by (metis prod_cases3)
      have ok: ok and live: "is_live s1"
        using try_emit_line_accepts [OF less(2) assms(2) te] try_emit_line_sent [OF less(2) te] by auto
      have "NL \<in> set buf" using True False rd(2) last_in_set [of buf] by auto
      then have "Suc n + length (filter ((=) NL) (reader_all r')) < MAX_LINES_PER_POLL"
        using less(5) rd(3) by (cases "filter ((=) NL) buf") (auto simp: filter_empty_conv)
      with ih [OF live this, of "t\<lparr>partial := p, pos := pos t + m\<rparr>" "b + m"] rl False True te ok rd(2,3)
      show ?thesis by (simp add: unfold Let_def add.assoc)
    next
      case no_nl: False
      have "n + length (filter ((=) NL) (reader_all r')) < MAX_LINES_PER_POLL" using less(5) rd(3) by auto
      with ih [OF less(2) this, of "t\<lparr>pos := pos t + m, partial := push_partial d (partial t) buf\<rparr>" "b + m"]
        rl False no_nl rd(2,3)
      show ?thesis by (simp add: unfold add.assoc)
    qed
  qed
qed

section \<open>Properties\<close>

text \<open>
  C1: the no-loss, no-duplication contract of the single-line tailer. If the sink holds exactly the
  entries of the complete lines before the offset (and the partial buffer the bytes after
  the last newline), then it does so again after a poll, whatever the sizes of the reads,
  the interrupts, I/O errors and refusals of the channel: a refused line is not counted
  in the offset and will be read again, and no line is sent twice. The hypotheses: no line
  exceeds the partial cap, and no multi-byte character is cut by the moment of reading.
\<close>

theorem read_lines_contract:
  assumes "memchr_ok d" and "simd_ok d" and "reader_valid [] r"
    and "prefix (reader_all r) (drop (pos t - off) content)"
    and "\<forall>l \<in> set (split_char NL content). length l \<le> MAX_PARTIAL_BYTES"
    and "shipped d opts off base content t s"
    and "read_lines d opts (Some r) t s = (t', s', b)"
  shows "shipped d opts off base content t' s' \<and> pos t' = pos t + b"
proof -
  obtain stp where "tail_loop d opts r t s 0 0 = (stp, t', s', b)"
    using assms(7) by (auto simp: read_lines_def split: prod.splits)
  from tail_loop_shipped [OF assms(1-6) this] show ?thesis by simp
qed

definition demo_file :: tailed_file where
  "demo_file =
     \<lparr>tf_path = ''/a'', pos = 0, tf_id = \<lparr>dev = 1, ino = 2\<rparr>, partial = [], open_failures = 0,
      retained_fd = None, skip_utf16 = False, agg = None\<rparr>"

definition demo_sink :: sink where
  "demo_sink = \<lparr>inner = Live [], tags = []\<rparr>"

definition demo_opts :: file_parse_opts where
  "demo_opts = \<lparr>o_syslog = False, o_structured = False, o_levels = False\<rparr>"

lemmas demo_defs = demo_file_def demo_sink_def demo_opts_def

theorem read_lines_contract_witness:
  "\<exists>t' s' b. read_lines ref_deps demo_opts (Some [Chunk ''a'', Interrupted, Chunk ''b'']) demo_file demo_sink = (t', s', b)
     \<and> shipped ref_deps demo_opts 0 [] ''ab'' t' s' \<and> pos t' = b"
proof -
  let ?r = "[Chunk ''a'', Interrupted, Chunk ''b'']"
  obtain t' s' b where r: "read_lines ref_deps demo_opts (Some ?r) demo_file demo_sink = (t', s', b)"
    by (metis prod_cases3)
  have "shipped ref_deps demo_opts 0 [] ''ab'' demo_file demo_sink"
    using shipped_start [of demo_sink demo_file 0 ref_deps demo_opts "''ab''"]
    by (simp add: demo_defs is_live_def delivered_def)
  moreover have "reader_valid [] ?r" by (simp add: utf8_valid_ascii code_def)
  ultimately have "shipped ref_deps demo_opts 0 [] ''ab'' t' s' \<and> pos t' = pos demo_file + b"
    using read_lines_contract [OF ref_deps_ok(1,2) _ _ _ _ r, of 0 "''ab''" "[]"]
    by (simp add: demo_defs MAX_PARTIAL_BYTES_def)
  with r show ?thesis by (auto simp: demo_defs)
qed

text \<open>
  C22: a poll makes progress. When the channel accepts and the reader reports no error, a
  poll over fewer newlines than the per-poll cap consumes every byte available.
\<close>

theorem read_lines_progress:
  assumes "memchr_ok d" and "\<forall>h e. tell_accepts d h e" and "is_live s"
    and "IoError \<notin> set r" and "Chunk [] \<notin> set r"
    and "length (filter ((=) NL) (reader_all r)) < MAX_LINES_PER_POLL"
  shows "snd (snd (read_lines d opts (Some r) t s)) = length (reader_all r)"
  using tail_loop_all [OF assms(1-5), of 0 opts t 0] assms(6) by (auto simp: read_lines_def)

theorem read_lines_progress_witness:
  "snd (snd (read_lines ref_deps demo_opts (Some [Chunk (''a'' @ [NL] @ ''b'')]) demo_file demo_sink)) = 3"
  using read_lines_progress [OF ref_deps_ok(1), of demo_sink "[Chunk (''a'' @ [NL] @ ''b'')]" demo_opts demo_file]
  by (simp add: ref_deps_def demo_defs is_live_def MAX_LINES_PER_POLL_def)

lemma lossy_cut:
  "lossy ref_deps [CHR 0xC3] = replacement" "lossy ref_deps [CHR 0xA9] = replacement"
  by (simp_all add: lossy_def ref_deps_def utf8_valid.simps from_utf8_lossy.simps utf8_next.simps code_def)

lemma trim_replacement: "strip_bom (trim_end (replacement @ replacement)) = replacement @ replacement"
  by (simp add: trim_end_def trim_front.simps ws_seqs_def replacement_def strip_bom_def strip_prefix_def)

lemma entry_of_demo: "entry_of d demo_opts line = plain_entry Info line"
  by (simp add: entry_of_def classify_line_def demo_opts_def plain_entry_def)

lemma first_half:
  "read_lines ref_deps demo_opts (Some [Chunk [CHR 0xC3]]) demo_file demo_sink =
     (demo_file\<lparr>pos := 1, partial := replacement\<rparr>, demo_sink, 1)"
  by (simp add: read_lines_def tail_loop.simps push_partial_def lossy_cut ref_deps_def [THEN arg_cong, of memchr]
      MAX_PARTIAL_BYTES_def demo_file_def replacement_def)

lemma second_half:
  "delivered (fst (snd (read_lines ref_deps demo_opts (Some [Chunk [CHR 0xA9, NL]])
      (demo_file\<lparr>pos := 1, partial := replacement\<rparr>) demo_sink))) = [plain_entry Info (replacement @ replacement)]"
  by (simp add: read_lines_def tail_loop.simps try_emit_line_def lossy_cut trim_replacement entry_of_demo ref_deps_def [THEN arg_cong, of memchr]
      ref_deps_def [THEN arg_cong, of tell_accepts] MAX_LINES_PER_POLL_def replacement_def [THEN arg_cong, of "\<lambda>x. x = []"] consume_def
      try_log_with_service_def tell_log_def demo_sink_def delivered_def)

text \<open>
  A limit of the partial buffer. A two-byte character that two polls deliver one byte
  each (U+00E9, \<open>C3 A9\<close>) is decoded piecewise: the line is shipped as two replacement
  characters, although the file holds well-formed UTF-8.
\<close>

theorem split_char_garbled:
  "(let (t, s, b) = read_lines ref_deps demo_opts (Some [Chunk [CHR 0xC3]]) demo_file demo_sink
    in map le_message (delivered (fst (snd (read_lines ref_deps demo_opts (Some [Chunk [CHR 0xA9, NL]]) t s)))))
   = [replacement @ replacement]"
  using second_half by (simp add: first_half plain_entry_def)

end
