(* ===== verification/Multiline.thy ===== *)
theory Multiline
  imports Watcher_Props
begin

text \<open>
  \<open>src/logs/multiline.rs\<close>: aggregation of physical lines into records. The record, not the
  line, gates the advance of the offset. An instant is a number of milliseconds; \<open>clock n\<close> is
  \<open>Instant::now()\<close> when the pass has committed \<open>n\<close> lines.
\<close>

section \<open>Definitions\<close>

record multiline_opts =
  pattern :: string
  timeout :: nat
  max_bytes :: nat

text \<open>\<open>compile\<close> says whether \<open>regex_lite::Regex::new\<close> accepts the pattern.\<close>

definition multiline_new :: "(string \<Rightarrow> bool) \<Rightarrow> string \<Rightarrow> nat \<Rightarrow> nat \<Rightarrow> unit + multiline_opts" where
  "multiline_new compile p timeout_ms cap =
     (if compile p then Inr \<lparr>pattern = p, timeout = timeout_ms, max_bytes = cap\<rparr> else Inl ())"

definition aggregator_new :: "nat \<Rightarrow> aggregator" where
  "aggregator_new p =
     \<lparr>agg_record = [], record_bytes = 0, read_ahead = p, partial_bytes = 0, last_append = None\<rparr>"

definition has_record :: "aggregator \<Rightarrow> bool" where
  "has_record a \<longleftrightarrow> 0 < record_bytes a"

definition clear_record :: "aggregator \<Rightarrow> aggregator" where
  "clear_record a = a\<lparr>agg_record := [], record_bytes := 0, last_append := None\<rparr>"

definition append_text :: "nat \<Rightarrow> string \<Rightarrow> string \<Rightarrow> string" where
  "append_text cap rcd line =
     (let r = (if rcd \<noteq> [] then rcd @ [NL] else rcd) @ line in
      if cap < length r then take (floor_char_boundary r cap) r else r)"

definition append_to_record :: "aggregator \<Rightarrow> string \<Rightarrow> nat \<Rightarrow> nat \<Rightarrow> aggregator" where
  "append_to_record a line line_span cap =
     a\<lparr>agg_record := append_text cap (agg_record a) line, record_bytes := record_bytes a + line_span\<rparr>"

definition ensure_agg :: "tailed_file \<Rightarrow> tailed_file" where
  "ensure_agg t = (case agg t of None \<Rightarrow> t\<lparr>agg := Some (aggregator_new (pos t))\<rparr> | Some _ \<Rightarrow> t)"

definition reset :: "tailed_file \<Rightarrow> tailed_file" where
  "reset t = t\<lparr>partial := [], agg := map_option (\<lambda>_. aggregator_new (pos t)) (agg t)\<rparr>"

definition fold_partial :: "multiline_opts \<Rightarrow> tailed_file \<Rightarrow> tailed_file" where
  "fold_partial ml t =
     (if partial t = [] then t
      else t\<lparr>partial := [],
             agg := map_option (\<lambda>a. append_to_record (a\<lparr>partial_bytes := 0\<rparr>) (normalize_line (partial t))
                                      (partial_bytes a) (max_bytes ml)) (agg t)\<rparr>)"

definition ship :: "deps \<Rightarrow> file_parse_opts \<Rightarrow> tailed_file \<Rightarrow> sink \<Rightarrow> bool \<times> tailed_file \<times> sink" where
  "ship d opts t s =
     (case agg t of
        None \<Rightarrow> (True, t, s)
      | Some a \<Rightarrow>
          if \<not> has_record a then (True, t, s)
          else if trim (agg_record a) = []
          then (True, t\<lparr>pos := pos t + record_bytes a, agg := Some (clear_record a)\<rparr>, s)
          else (case try_log_with_service d s (entry_of d opts (agg_record a)) of
                  (True, s') \<Rightarrow>
                    (True, t\<lparr>agg := Some (clear_record a), pos := pos t + record_bytes a\<rparr>, s')
                | (False, s') \<Rightarrow> (False, t, s')))"

datatype commit = Commit_Ok | Commit_Backpressure

definition is_start :: "deps \<Rightarrow> multiline_opts \<Rightarrow> string \<Rightarrow> bool" where
  "is_start d ml line \<longleftrightarrow>
     normalize_line line \<noteq> [] \<and> regex_is_match d (pattern ml) (normalize_line line)"

definition commit_line ::
    "deps \<Rightarrow> file_parse_opts \<Rightarrow> multiline_opts \<Rightarrow> nat \<Rightarrow> tailed_file \<Rightarrow> string \<Rightarrow> nat \<Rightarrow> sink \<Rightarrow>
       commit \<times> tailed_file \<times> sink" where
  "commit_line d opts ml now t line_bytes n s =
     (let complete = partial t @ lossy d line_bytes;
          line_span = (case agg t of None \<Rightarrow> 0 | Some a \<Rightarrow> partial_bytes a) + n;
          (ok, t1, s1) =
            (if is_start d ml complete \<and> (case agg t of None \<Rightarrow> False | Some a \<Rightarrow> has_record a)
             then ship d opts t s else (True, t, s))
      in if \<not> ok then (Commit_Backpressure, t1, s1)
         else (case agg t1 of
                 None \<Rightarrow> (Commit_Backpressure, t1, s1)
               | Some a \<Rightarrow>
                   (let a1 = a\<lparr>read_ahead := read_ahead a + n, partial_bytes := 0\<rparr>;
                        a2 = append_to_record a1 (normalize_line complete) line_span (max_bytes ml)
                    in (Commit_Ok, t1\<lparr>partial := [], agg := Some (a2\<lparr>last_append := Some now\<rparr>)\<rparr>, s1))))"

datatype stop_reason = Reason_Eof | Reason_Backpressure | Reason_Cap

text \<open>The result is \<open>ReadOutcome\<close> (bytes consumed and reason) with the file and the sink.\<close>

function read_loop ::
    "deps \<Rightarrow> file_parse_opts \<Rightarrow> multiline_opts \<Rightarrow> (nat \<Rightarrow> nat) \<Rightarrow> reader \<Rightarrow> tailed_file \<Rightarrow> sink \<Rightarrow>
       nat \<Rightarrow> nat \<Rightarrow> (nat \<times> stop_reason) \<times> tailed_file \<times> sink" where
  "read_loop d opts ml clock r t s consumed lins =
     (case read_line d r [] 0 of
        (Inl _, _, _) \<Rightarrow> ((consumed, Reason_Eof), t, s)
      | (Inr n, buf, r') \<Rightarrow>
          if n = 0 then ((consumed, Reason_Eof), t, s)
          else if last buf = NL then
            (case commit_line d opts ml (clock lins) t (butlast buf) n s of
               (Commit_Ok, t', s') \<Rightarrow>
                 if MAX_LINES_PER_POLL \<le> Suc lins then ((consumed + n, Reason_Cap), t', s')
                 else read_loop d opts ml clock r' t' s' (consumed + n) (Suc lins)
             | (Commit_Backpressure, t', s') \<Rightarrow> ((consumed, Reason_Backpressure), t', s'))
          else (case agg t of
                  None \<Rightarrow> read_loop d opts ml clock r' t s consumed lins
                | Some a \<Rightarrow>
                    read_loop d opts ml clock r'
                      (t\<lparr>agg := Some (a\<lparr>read_ahead := read_ahead a + n,
                                      partial_bytes := partial_bytes a + n\<rparr>),
                         partial := push_partial d (partial t) buf\<rparr>)
                      s (consumed + n) lins))"
  by pat_completeness auto
termination
  by (relation "measure (\<lambda>(d, opts, ml, clock, r, t, s, b, l). reader_size r)")
    (auto dest: read_line_progress [OF sym])

declare read_loop.simps [simp del]

definition read_from :: "tailed_file \<Rightarrow> nat" where
  "read_from t = (case agg t of None \<Rightarrow> pos t | Some a \<Rightarrow> read_ahead a)"

text \<open>\<open>read_live\<close>; \<open>open_at\<close> is the reader after the seek, if the seek succeeds.\<close>

definition read_live ::
    "deps \<Rightarrow> file_parse_opts \<Rightarrow> multiline_opts \<Rightarrow> (nat \<Rightarrow> nat) \<Rightarrow> (nat \<Rightarrow> reader option) \<Rightarrow>
       tailed_file \<Rightarrow> sink \<Rightarrow> tailed_file \<times> sink \<times> nat" where
  "read_live d opts ml clock open_at t s =
     (let t0 = ensure_agg t in
      case open_at (read_from t0) of
        None \<Rightarrow> (t0, s, 0)
      | Some r \<Rightarrow> (case read_loop d opts ml clock r t0 s 0 0 of ((n, _), t', s') \<Rightarrow> (t', s', n)))"

definition drain ::
    "deps \<Rightarrow> world \<Rightarrow> file_parse_opts \<Rightarrow> multiline_opts \<Rightarrow> (nat \<Rightarrow> nat) \<Rightarrow> tailed_file \<Rightarrow> sink \<Rightarrow>
       tailed_file \<times> sink \<times> nat" where
  "drain d w opts ml clock t s =
     (case retained_fd t of
        None \<Rightarrow> (t, s, 0)
      | Some fd \<Rightarrow>
          (let t0 = ensure_agg (t\<lparr>retained_fd := None\<rparr>) in
           case w_read w fd (read_from t0) of
             None \<Rightarrow> (t0, s, 0)
           | Some r \<Rightarrow>
               (case read_loop d opts ml clock r t0 s 0 0 of
                  ((n, Reason_Eof), t1, s1) \<Rightarrow>
                    (case ship d opts (fold_partial ml t1) s1 of
                       (ok, t2, s2) \<Rightarrow> (if ok then t2 else t2\<lparr>retained_fd := Some fd\<rparr>, s2, n))
                | ((n, _), t1, s1) \<Rightarrow> (t1\<lparr>retained_fd := Some fd\<rparr>, s1, n))))"

definition flush_final ::
    "deps \<Rightarrow> file_parse_opts \<Rightarrow> multiline_opts \<Rightarrow> tailed_file \<Rightarrow> sink \<Rightarrow> tailed_file \<times> sink" where
  "flush_final d opts ml t s = (case ship d opts (fold_partial ml t) s of (_, t', s') \<Rightarrow> (t', s'))"

text \<open>\<open>now1\<close> and \<open>now2\<close> are the two readings of the clock.\<close>

definition pending_elapsed :: "nat \<Rightarrow> tailed_file \<Rightarrow> nat option" where
  "pending_elapsed now t =
     (case agg t of
        None \<Rightarrow> None
      | Some a \<Rightarrow>
          if has_record a then Some (case last_append a of None \<Rightarrow> 0 | Some i \<Rightarrow> now - i) else None)"

definition flush_if_expired ::
    "deps \<Rightarrow> file_parse_opts \<Rightarrow> multiline_opts \<Rightarrow> nat \<Rightarrow> nat \<Rightarrow> tailed_file \<Rightarrow> sink \<Rightarrow>
       nat option \<times> tailed_file \<times> sink" where
  "flush_if_expired d opts ml now1 now2 t s =
     (case pending_elapsed now1 t of
        None \<Rightarrow> (None, t, s)
      | Some elapsed \<Rightarrow>
          (let (t1, s1) = (if timeout ml \<le> elapsed
                           then (case ship d opts t s of (_, t', s') \<Rightarrow> (t', s')) else (t, s))
           in (map_option (\<lambda>el. timeout ml - el) (pending_elapsed now2 t1), t1, s1)))"

end
