(* ===== verification/Multiline_Props.thy ===== *)
theory Multiline_Props
  imports Multiline
begin

text \<open>
  The contract of the aggregation: the bytes read so far are the lines of the shipped
  records, then the lines of the record in flight, then a partial line; \<open>pos\<close> stands
  exactly after the last shipped record.
\<close>

section \<open>Records as groups of physical lines\<close>

definition is_line :: "string \<Rightarrow> bool" where
  "is_line l \<longleftrightarrow> l \<noteq> [] \<and> last l = NL \<and> NL \<notin> set (butlast l)"

definition record_text :: "nat \<Rightarrow> string list \<Rightarrow> string" where
  "record_text cap g = foldl (append_text cap) [] (map normalize_line g)"

definition record_entries :: "deps \<Rightarrow> file_parse_opts \<Rightarrow> multiline_opts \<Rightarrow> string list \<Rightarrow> log_entry list" where
  "record_entries d opts ml g =
     (let r = record_text (max_bytes ml) g in if trim r = [] then [] else [entry_of d opts r])"

text \<open>No line of a record but the first matches the start pattern.\<close>

definition record_ok :: "deps \<Rightarrow> multiline_opts \<Rightarrow> string list \<Rightarrow> bool" where
  "record_ok d ml g \<longleftrightarrow> (\<forall>l \<in> set (tl g). \<not> is_start d ml l)"

text \<open>Every record but the first begins with a line that matches the start pattern.\<close>

definition starts_ok :: "deps \<Rightarrow> multiline_opts \<Rightarrow> string list list \<Rightarrow> string list \<Rightarrow> bool" where
  "starts_ok d ml gs g \<longleftrightarrow>
     (g = [] \<longrightarrow> gs = []) \<and> (\<forall>g' \<in> set (tl (gs @ [g])). g' \<noteq> [] \<and> is_start d ml (hd g'))"

definition ml_state ::
    "deps \<Rightarrow> file_parse_opts \<Rightarrow> multiline_opts \<Rightarrow> nat \<Rightarrow> log_entry list \<Rightarrow>
       string list list \<Rightarrow> string list \<Rightarrow> string \<Rightarrow> tailed_file \<Rightarrow> sink \<Rightarrow> bool" where
  "ml_state d opts ml off base gs g tail t s \<longleftrightarrow>
     is_live s \<and> partial t = tail \<and> NL \<notin> set tail
     \<and> list_all (list_all is_line) (gs @ [g]) \<and> list_all (record_ok d ml) (gs @ [g])
     \<and> delivered s = base @ concat (map (record_entries d opts ml) gs)
     \<and> pos t = off + length (concat (concat gs))
     \<and> (case agg t of None \<Rightarrow> False
        | Some a \<Rightarrow> agg_record a = record_text (max_bytes ml) g
            \<and> record_bytes a = length (concat g) \<and> partial_bytes a = length tail
            \<and> read_ahead a = pos t + record_bytes a + partial_bytes a)"

definition ml_text :: "string list list \<Rightarrow> string list \<Rightarrow> string \<Rightarrow> string" where
  "ml_text gs g tail = concat (concat gs) @ concat g @ tail"

section \<open>Lines\<close>

lemma trim_end_nl: "trim_end (l @ [NL]) = trim_end l"
  by (simp add: trim_end_def trim_front.simps [of _ "NL # rev l"] ws_seqs_def)

lemma normalize_line_nl: "normalize_line (l @ [NL]) = normalize_line l"
  by (simp add: normalize_line_def trim_end_nl)

lemma is_start_nl: "is_start d ml (l @ [NL]) = is_start d ml l"
  by (simp add: is_start_def normalize_line_nl)

lemma is_line_append: "NL \<notin> set x \<Longrightarrow> is_line (x @ [NL])"
  by (simp add: is_line_def)

lemma lines_length: "list_all is_line g \<Longrightarrow> length (concat g) = 0 \<longleftrightarrow> g = []"
  by (cases g) (auto simp: is_line_def)

lemma record_text_snoc:
  "record_text cap (g @ [l]) = append_text cap (record_text cap g) (normalize_line l)"
  by (simp add: record_text_def)

lemma record_ok_snoc: "record_ok d ml (g @ [l]) \<longleftrightarrow> record_ok d ml g \<and> (g = [] \<or> \<not> is_start d ml l)"
  by (cases g) (auto simp: record_ok_def)

section \<open>Shipping\<close>

lemma ship_agg:
  assumes "is_live s" and "agg t = Some a" and "ship d opts t s = (ok, t', s')"
  shows "ok \<Longrightarrow> pos t' = pos t + record_bytes a
      \<and> delivered s' = delivered s @ (if has_record a \<and> trim (agg_record a) \<noteq> [] then [entry_of d opts (agg_record a)] else [])"
    and "\<not> ok \<Longrightarrow> t' = t \<and> delivered s' = delivered s"
proof -
  obtain ok1 s1 where s1: "try_log_with_service d s (entry_of d opts (agg_record a)) = (ok1, s1)" by fastforce
  note law = tell_channel.send_sent [OF assms(1) s1]
  show "ok \<Longrightarrow> pos t' = pos t + record_bytes a
      \<and> delivered s' = delivered s @ (if has_record a \<and> trim (agg_record a) \<noteq> [] then [entry_of d opts (agg_record a)] else [])"
    and "\<not> ok \<Longrightarrow> t' = t \<and> delivered s' = delivered s"
    using assms s1 law by (auto simp: ship_def has_record_def split: if_splits bool.splits)
qed

lemma ship_state:
  assumes "ml_state d opts ml off base gs g tail t s" and "ship d opts t s = (ok, t', s')"
  shows "ok \<Longrightarrow> ml_state d opts ml off base (if g = [] then gs else gs @ [g]) [] tail t' s'"
    and "\<not> ok \<Longrightarrow> t' = t \<and> g \<noteq> [] \<and> ml_state d opts ml off base gs g tail t' s'"
    and "\<exists>a. agg t' = Some a \<and> read_from t' = read_from t"
proof -
  obtain a where a: "agg t = Some a" using assms(1) by (auto simp: ml_state_def split: option.splits)
  have g: "has_record a \<longleftrightarrow> g \<noteq> []"
    using assms(1) a lines_length [of g] by (auto simp: ml_state_def has_record_def)
  let ?e = "entry_of d opts (agg_record a)"
  obtain ok1 s1 where s1: "try_log_with_service d s ?e = (ok1, s1)" by fastforce
  have live: "is_live s" using assms(1) by (simp add: ml_state_def)
  note law = tell_channel.send_sent [OF live s1] tell_channel.send_live [OF live s1]
  show "ok \<Longrightarrow> ml_state d opts ml off base (if g = [] then gs else gs @ [g]) [] tail t' s'"
    using assms a g s1 law
    by (auto simp: ship_def ml_state_def record_entries_def clear_record_def Let_def record_text_def
        record_ok_def split: if_splits bool.splits)
  show "\<not> ok \<Longrightarrow> t' = t \<and> g \<noteq> [] \<and> ml_state d opts ml off base gs g tail t' s'"
    using assms a g s1 law
    by (auto simp: ship_def ml_state_def split: if_splits bool.splits)
  show "\<exists>a. agg t' = Some a \<and> read_from t' = read_from t"
    using assms(2) a s1
    by (auto simp: ship_def read_from_def clear_record_def split: if_splits bool.splits)
qed

text \<open>Adding a physical line to the record in flight.\<close>

lemma add_line_state:
  assumes "ml_state d opts ml off base gs g tail t s" and "NL \<notin> set x"
    and "g = [] \<or> \<not> is_start d ml (tail @ x @ [NL])" and "agg t = Some a"
  shows "ml_state d opts ml off base gs (g @ [tail @ x @ [NL]]) []
    (t\<lparr>partial := [], agg := Some
        (append_to_record (a\<lparr>read_ahead := read_ahead a + Suc (length x), partial_bytes := 0\<rparr>)
          (normalize_line (tail @ x)) (partial_bytes a + Suc (length x)) (max_bytes ml)\<lparr>last_append := Some now\<rparr>)\<rparr>) s"
  using assms normalize_line_nl [of "tail @ x"]
  by (auto simp: ml_state_def append_to_record_def record_text_snoc record_ok_snoc is_line_def
      butlast_append)

lemma commit_line_state:
  assumes "ml_state d opts ml off base gs g tail t s" and "NL \<notin> set x" and "lossy d x = x"
    and "commit_line d opts ml now t x (Suc (length x)) s = (c, t', s')"
  shows "c = Commit_Backpressure \<Longrightarrow> ml_state d opts ml off base gs g tail t' s'"
    and "c = Commit_Ok \<Longrightarrow> is_start d ml (tail @ x @ [NL]) \<Longrightarrow> g \<noteq> [] \<Longrightarrow>
      ml_state d opts ml off base (gs @ [g]) [tail @ x @ [NL]] [] t' s'"
    and "c = Commit_Ok \<Longrightarrow> \<not> (is_start d ml (tail @ x @ [NL]) \<and> g \<noteq> []) \<Longrightarrow>
      ml_state d opts ml off base gs (g @ [tail @ x @ [NL]]) [] t' s'"
proof -
  obtain a where a: "agg t = Some a" using assms(1) by (auto simp: ml_state_def split: option.splits)
  have g: "has_record a \<longleftrightarrow> g \<noteq> []" and p: "partial t = tail"
    using assms(1) a lines_length [of g] by (auto simp: ml_state_def has_record_def)
  have st: "is_start d ml (tail @ x) = is_start d ml (tail @ x @ [NL])"
    using is_start_nl [of d ml "tail @ x"] by simp
  note unfold = commit_line_def [of d opts ml now t x "Suc (length x)" s]
  obtain ok t1 s1 where sh: "ship d opts t s = (ok, t1, s1)" by (metis prod_cases3)
  note shs = ship_state [OF assms(1) sh]
  show "ml_state d opts ml off base gs (g @ [tail @ x @ [NL]]) [] t' s'"
    if "c = Commit_Ok" "\<not> (is_start d ml (tail @ x @ [NL]) \<and> g \<noteq> [])"
    using assms(3,4) that a g p st add_line_state [OF assms(1,2) _ a, of now]
    by (auto simp: unfold Let_def)
  show "ml_state d opts ml off base gs g tail t' s'" if "c = Commit_Backpressure"
    using assms(1,3,4) that a g p st sh shs by (auto simp: unfold Let_def split: if_splits)
  show "ml_state d opts ml off base (gs @ [g]) [tail @ x @ [NL]] [] t' s'"
    if "c = Commit_Ok" "is_start d ml (tail @ x @ [NL])" "g \<noteq> []"
  proof -
    note hyp = that
    have ok using assms(3,4) that a g p st sh by (auto simp: unfold Let_def split: if_splits)
    then obtain a1 where a1: "agg t1 = Some a1" and ms: "ml_state d opts ml off base (gs @ [g]) [] tail t1 s1"
      using shs(1,3) hyp(3) by auto
    have "partial_bytes a1 = partial_bytes a"
      using assms(1) ms a a1 by (simp add: ml_state_def)
    with add_line_state [OF ms assms(2) _ a1, of now] show ?thesis
      using assms(3,4) hyp a g p st sh a1 \<open>ok\<close> by (auto simp: unfold Let_def)
  qed
qed

lemma push_partial_state:
  assumes "ml_state d opts ml off base gs g tail t s" and "NL \<notin> set p" and "p \<noteq> []" and "lossy d p = p"
    and "length (tail @ p) \<le> MAX_PARTIAL_BYTES" and "agg t = Some a"
  shows "ml_state d opts ml off base gs g (tail @ p)
    (t\<lparr>agg := Some (a\<lparr>read_ahead := read_ahead a + length p, partial_bytes := partial_bytes a + length p\<rparr>),
       partial := push_partial d (partial t) p\<rparr>) s"
proof -
  have "length tail < MAX_PARTIAL_BYTES" using assms(3,5) by (cases p) auto
  with assms show ?thesis by (auto simp: ml_state_def push_partial_append)
qed

section \<open>The read loop\<close>

lemma spec_tail_lines: "list_all is_line ls \<Longrightarrow> spec_tail (concat ls) = []"
proof (induction ls rule: rev_induct)
  case (snoc l ls)
  then have "l = butlast l @ [NL]" "NL \<notin> set (butlast l)"
    by (auto simp: is_line_def) (metis append_butlast_last_id)
  with spec_append_line [of "butlast l" undefined undefined "concat ls"] show ?case by simp
qed (simp add: spec_tail_def)

lemma ml_text_tail:
  assumes "ml_state d opts ml off base gs g tail t s"
  shows "spec_tail (ml_text gs g tail) = tail"
proof -
  have "list_all is_line (concat gs @ g)"
    using assms by (auto simp: ml_state_def list_all_iff)
  then have "spec_tail (concat (concat gs @ g)) = []" by (rule spec_tail_lines)
  with spec_append_free [of tail undefined undefined "concat (concat gs @ g)"] assms show ?thesis
    by (simp add: ml_text_def ml_state_def)
qed

lemma tail_bound:
  assumes "ml_state d opts ml off base gs g tail t s" and "NL \<notin> set p"
    and "\<forall>l \<in> set (split_char NL (ml_text gs g tail @ p @ rest)). length l \<le> m"
  shows "length (tail @ p) \<le> m"
proof -
  have "\<forall>l \<in> set (split_char NL (ml_text gs g tail @ p)). length l \<le> m"
    using assms(3) split_char_prefix_bound [of NL "ml_text gs g tail @ p" rest] by simp
  then have "length (spec_tail (ml_text gs g tail @ p)) \<le> m"
    using split_char_nonempty by (simp add: spec_tail_def)
  then show ?thesis
    using spec_append_free [OF assms(2), of undefined undefined "ml_text gs g tail"] ml_text_tail [OF assms(1)]
    by simp
qed

lemma starts_ok_split:
  "starts_ok d ml gs g \<Longrightarrow> g \<noteq> [] \<Longrightarrow> is_start d ml l \<Longrightarrow> starts_ok d ml (gs @ [g]) [l]"
  by (cases gs) (auto simp: starts_ok_def)

lemma starts_ok_extend: "starts_ok d ml gs g \<Longrightarrow> starts_ok d ml gs (g @ [l])"
  by (cases gs) (auto simp: starts_ok_def)

definition loop_result ::
    "bool \<Rightarrow> deps \<Rightarrow> file_parse_opts \<Rightarrow> multiline_opts \<Rightarrow> nat \<Rightarrow> log_entry list \<Rightarrow> string \<Rightarrow> string \<Rightarrow>
       nat \<Rightarrow> tailed_file \<Rightarrow> sink \<Rightarrow> bool" where
  "loop_result strict d opts ml off base seen avail n t' s' \<longleftrightarrow>
     (\<exists>gs' g' tail' used. ml_state d opts ml off base gs' g' tail' t' s'
        \<and> (strict \<longrightarrow> starts_ok d ml gs' g') \<and> ml_text gs' g' tail' = seen @ used
        \<and> prefix used avail \<and> n = length used)"

lemma loop_result_Nil:
  "ml_state d opts ml off base gs g tail t s \<Longrightarrow> strict \<longrightarrow> starts_ok d ml gs g \<Longrightarrow>
     loop_result strict d opts ml off base (ml_text gs g tail) avail 0 t s"
  unfolding loop_result_def by (intro exI [of _ gs] exI [of _ g] exI [of _ tail] exI [of _ "[]"]) simp

lemma loop_result_step:
  assumes "loop_result strict d opts ml off base (seen @ p) avail n t' s'"
  shows "loop_result strict d opts ml off base seen (p @ avail) (length p + n) t' s'"
proof -
  obtain gs' g' tail' used where "ml_state d opts ml off base gs' g' tail' t' s'"
    "strict \<longrightarrow> starts_ok d ml gs' g'" "ml_text gs' g' tail' = seen @ p @ used" "prefix used avail" "n = length used"
    using assms by (auto simp: loop_result_def)
  then show ?thesis
    unfolding loop_result_def
    by (intro exI [of _ gs'] exI [of _ g'] exI [of _ tail'] exI [of _ "p @ used"]) simp
qed

text \<open>One committed line, with the record it goes to.\<close>

lemma commit_line_result:
  assumes "ml_state d opts ml off base gs g tail t s" and "strict \<longrightarrow> starts_ok d ml gs g"
    and "NL \<notin> set x" and "lossy d x = x"
    and "commit_line d opts ml now t x (Suc (length x)) s = (Commit_Ok, t', s')"
  obtains gs' g' where "ml_state d opts ml off base gs' g' [] t' s'" and "strict \<longrightarrow> starts_ok d ml gs' g'"
    and "ml_text gs' g' [] = ml_text gs g tail @ x @ [NL]"
proof (cases "is_start d ml (tail @ x @ [NL]) \<and> g \<noteq> []")
  case True
  then show ?thesis
    using commit_line_state(2) [OF assms(1,3-5)] assms(2) starts_ok_split
    by (intro that [of "gs @ [g]" "[tail @ x @ [NL]]"]) (auto simp: ml_text_def)
next
  case False
  then show ?thesis
    using commit_line_state(3) [OF assms(1,3-5)] assms(2) starts_ok_extend
    by (intro that [of gs "g @ [tail @ x @ [NL]]"]) (auto simp: ml_text_def)
qed

lemma read_loop_mono: "read_loop d opts ml clock r t s c n = ((c', rs), t', s') \<Longrightarrow> c \<le> c'"
proof (induction "reader_size r" arbitrary: r t s c n rule: less_induct)
  case less
  note unfold = read_loop.simps [of d opts ml clock r t s c n]
  obtain res buf r' where rl: "read_line d r [] 0 = (res, buf, r')" by (metis prod_cases3)
  show ?case
  proof (cases "res = Inl () \<or> res = Inr 0")
    case True
    with less(2) rl show ?thesis by (auto simp: unfold)
  next
    case False
    then obtain k where k: "res = Inr k" "k \<noteq> 0" by (cases res) auto
    note ih = less(1) [OF read_line_progress [OF rl [unfolded k(1)] k(2)]]
    obtain cm t1 s1 where cl: "commit_line d opts ml (clock n) t (butlast buf) k s = (cm, t1, s1)"
      by (metis prod_cases3)
    show ?thesis
      using less(2) rl k cl
      by (cases cm; cases "agg t") (auto simp: unfold split: if_splits dest!: ih)
  qed
qed

lemma read_loop_result:
  assumes "memchr_ok d" and "simd_ok d"
  shows "ml_state d opts ml off base gs g tail t s \<Longrightarrow> strict \<longrightarrow> starts_ok d ml gs g \<Longrightarrow>
    reader_valid [] r \<Longrightarrow>
    \<forall>l \<in> set (split_char NL (ml_text gs g tail @ reader_all r)). length l \<le> MAX_PARTIAL_BYTES \<Longrightarrow>
    read_loop d opts ml clock r t s c n = ((c + m, rs), t', s') \<Longrightarrow>
    loop_result strict d opts ml off base (ml_text gs g tail) (reader_all r) m t' s'"
proof (induction "reader_size r" arbitrary: r gs g tail t s c n m rule: less_induct)
  case less
  note st = less(2) and unfold = read_loop.simps [of d opts ml clock r t s c n]
  obtain a where a: "agg t = Some a" using st by (auto simp: ml_state_def split: option.splits)
  let ?goal = "loop_result strict d opts ml off base (ml_text gs g tail) (reader_all r) m t' s'"
  have nil: ?goal if "t' = t" "s' = s" "m = 0"
    using loop_result_Nil [OF less(2,3)] that by simp
  obtain res buf r' where rl: "read_line d r [] 0 = (res, buf, r')" by (metis prod_cases3)
  show ?case
  proof (cases "res = Inl () \<or> res = Inr 0")
    case True
    with less(6) rl show ?thesis by (intro nil) (auto simp: unfold)
  next
    case False
    then obtain k where res: "res = Inr k" and k: "k \<noteq> 0" by (cases res) auto
    note rl' = rl [unfolded res]
    note piece = read_line_is_piece [OF assms(1) rl' k]
      and smaller = read_line_progress [OF rl' k]
    have valid: "utf8_valid buf" "reader_valid [] r'"
      using reader_valid_read_line [OF assms(1) rl' less(4)] by simp_all
    have step: ?goal if "ml_state d opts ml off base gs1 g1 tail1 t1 s1" "strict \<longrightarrow> starts_ok d ml gs1 g1"
      "ml_text gs1 g1 tail1 = ml_text gs g tail @ buf" "k \<le> m"
      "read_loop d opts ml clock r' t1 s1 (c + k) n1 = ((c + k + (m - k), rs), t', s')" for gs1 g1 tail1 t1 s1 n1
      using less(1) [OF smaller that(1,2) valid(2) _ that(5)] less(5) piece that(3,4)
        loop_result_step [of strict d opts ml off base "ml_text gs g tail" buf "reader_all r'" "m - k" t' s']
      by simp
    from piece(1) show ?thesis
    proof (cases rule: is_piece_cases)
      case free
      have "length (tail @ buf) \<le> MAX_PARTIAL_BYTES"
        using less(5) piece(3) by (intro tail_bound [OF st free(2)]) simp
      note ps = push_partial_state [OF st free(2,1) _ this a]
      have m: "k \<le> m" using less(6) rl' k free a read_loop_mono [of d opts ml clock r' _ s "c + k" n "c + m" rs t' s']
        by (auto simp: unfold)
      show ?thesis
        by (rule step [OF ps _ _ m]) (use less(3,6) rl' k free a m piece(2) valid assms(2) in \<open>auto simp: unfold ml_text_def\<close>)
    next
      case (line x)
      have x: "utf8_valid x" "lossy d x = x"
        using valid(1) line utf8_valid_before_nl [of x "[]"] assms(2) by simp_all
      obtain cm t1 s1 where cl: "commit_line d opts ml (clock n) t x (Suc (length x)) s = (cm, t1, s1)"
        by (metis prod_cases3)
      show ?thesis
      proof (cases cm)
        case Commit_Backpressure
        with cl less(6) rl' k line piece(2) have "t' = t1" "s' = s1" "m = 0" by (auto simp: unfold)
        with commit_line_state(1) [OF st line(2) x(2) cl Commit_Backpressure] less(3) show ?thesis
          using loop_result_Nil by simp
      next
        case Commit_Ok
        obtain gs1 g1 where c1: "ml_state d opts ml off base gs1 g1 [] t1 s1" "strict \<longrightarrow> starts_ok d ml gs1 g1"
          "ml_text gs1 g1 [] = ml_text gs g tail @ x @ [NL]"
          using commit_line_result [OF st less(3) line(2) x(2) cl [unfolded Commit_Ok]] by blast
        show ?thesis
        proof (cases "MAX_LINES_PER_POLL \<le> Suc n")
          case True
          with cl Commit_Ok less(6) rl' k line piece(2) have "t' = t1" "s' = s1" "m = k" by (auto simp: unfold)
          with loop_result_step [of strict d opts ml off base "ml_text gs g tail" buf "reader_all r'" 0 t1 s1]
            loop_result_Nil [OF c1(1,2)] c1(3) line piece show ?thesis by simp
        next
          case False
          with cl Commit_Ok less(6) rl' k line piece(2)
          have rec: "read_loop d opts ml clock r' t1 s1 (c + k) (Suc n) = ((c + m, rs), t', s')"
            by (auto simp: unfold)
          then have m: "k \<le> m" using read_loop_mono [OF rec] by simp
          show ?thesis by (rule step [OF c1(1,2) _ m]) (use c1(3) line rec m in auto)
        qed
      qed
    qed
  qed
qed

section \<open>The contract\<close>

definition ml_shipped ::
    "bool \<Rightarrow> deps \<Rightarrow> file_parse_opts \<Rightarrow> multiline_opts \<Rightarrow> nat \<Rightarrow> log_entry list \<Rightarrow> string \<Rightarrow>
       tailed_file \<Rightarrow> sink \<Rightarrow> bool" where
  "ml_shipped strict d opts ml off base content t s \<longleftrightarrow>
     (\<exists>gs g tail. ml_state d opts ml off base gs g tail t s \<and> (strict \<longrightarrow> starts_ok d ml gs g)
        \<and> prefix (ml_text gs g tail) content)"

lemma ml_state_ensure: "ml_state d opts ml off base gs g tail t s \<Longrightarrow> ensure_agg t = t"
  by (auto simp: ml_state_def ensure_agg_def split: option.splits)

lemma ml_state_read_from:
  "ml_state d opts ml off base gs g tail t s \<Longrightarrow> read_from t = off + length (ml_text gs g tail)"
  by (auto simp: ml_state_def read_from_def ml_text_def split: option.splits)

text \<open>A file without aggregation state, at the offset up to which records were shipped.\<close>

lemma ml_state_restart:
  assumes "ml_state d opts ml off base gs g tail t s"
  shows "ml_state d opts ml off base gs [] [] (ensure_agg (t\<lparr>partial := [], agg := None\<rparr>)) s"
  using assms
  by (auto simp: ml_state_def ensure_agg_def aggregator_new_def record_text_def record_ok_def
      split: option.splits)

lemma ml_state_start:
  assumes "is_live s" and "partial t = []" and "agg t = None"
  shows "ml_state d opts ml (pos t) (delivered s) [] [] [] (ensure_agg t) s"
  using assms by (simp add: ml_state_def ensure_agg_def aggregator_new_def record_text_def record_ok_def)

lemma fold_partial_ship:
  assumes "ml_state d opts ml off base gs g tail t s"
    and "ship d opts (fold_partial ml t) s = (ok, t', s')"
  shows "ok \<Longrightarrow> pos t' = read_from t \<and>
      delivered s' = delivered s @ (if g = [] \<and> tail = [] then [] else record_entries d opts ml (if tail = [] then g else g @ [tail]))"
    and "\<not> ok \<Longrightarrow> pos t' = pos t \<and> delivered s' = delivered s"
proof -
  obtain a where a: "agg t = Some a" using assms(1) by (auto simp: ml_state_def split: option.splits)
  have live: "is_live s" using assms(1) by (simp add: ml_state_def)
  have g: "concat g = [] \<longleftrightarrow> g = []" using assms(1) lines_length [of g] by (simp add: ml_state_def)
  obtain a1 where a1: "agg (fold_partial ml t) = Some a1" using a by (cases "partial t = []") (auto simp: fold_partial_def)
  note sh = ship_agg [OF live a1 assms(2)]
  show "ok \<Longrightarrow> pos t' = read_from t \<and>
      delivered s' = delivered s @ (if g = [] \<and> tail = [] then [] else record_entries d opts ml (if tail = [] then g else g @ [tail]))"
    using sh(1) a a1 g assms(1)
    by (auto simp: fold_partial_def ml_state_def read_from_def has_record_def record_entries_def
        append_to_record_def record_text_snoc Let_def split: if_splits)
  show "\<not> ok \<Longrightarrow> pos t' = pos t \<and> delivered s' = delivered s"
    using sh(2) by (auto simp: fold_partial_def split: if_splits)
qed

section \<open>Properties\<close>


definition demo_ml :: multiline_opts where
  "demo_ml = \<lparr>pattern = ''E'', timeout = 1000, max_bytes = 100\<rparr>"




text \<open>
  Shutdown and the end of a rotated file. Flushing folds the partial line into the
  record and sends it; either the channel accepts, the record with the partial line is
  delivered and the offset reaches the read position, or it refuses and neither the offset
  nor the delivered entries change.
\<close>

theorem flush_final_all_or_nothing:
  assumes "ml_state d opts ml off base gs g tail t s" and "flush_final d opts ml t s = (t', s')"
  shows "(pos t' = pos t \<and> delivered s' = delivered s)
    \<or> (pos t' = read_from t \<and> delivered s' = delivered s @
         (if g = [] \<and> tail = [] then [] else record_entries d opts ml (if tail = [] then g else g @ [tail])))"
proof -
  obtain ok where "ship d opts (fold_partial ml t) s = (ok, t', s')"
    using assms(2) by (auto simp: flush_final_def split: prod.splits)
  from fold_partial_ship [OF assms(1) this] show ?thesis by (cases ok) auto
qed

definition demo_flight :: tailed_file where
  "demo_flight = demo_file\<lparr>partial := ''b'', agg := Some \<lparr>agg_record = record_text 100 [''Ea'' @ [NL]],
     record_bytes = 3, read_ahead = 4, partial_bytes = 1, last_append = None\<rparr>\<rparr>"

theorem flush_final_all_or_nothing_witness:
  "\<exists>t' s'. flush_final ref_deps demo_opts demo_ml demo_flight demo_sink = (t', s')
     \<and> ((pos t' = 0 \<and> delivered s' = [])
        \<or> (pos t' = 4 \<and> delivered s' = record_entries ref_deps demo_opts demo_ml [''Ea'' @ [NL], ''b'']))"
proof -
  obtain t' s' where r: "flush_final ref_deps demo_opts demo_ml demo_flight demo_sink = (t', s')"
    by fastforce
  have st: "ml_state ref_deps demo_opts demo_ml 0 [] [] [''Ea'' @ [NL]] ''b'' demo_flight demo_sink"
    by (simp add: ml_state_def demo_flight_def demo_defs demo_ml_def is_live_def is_line_def record_ok_def delivered_def)
  have "pos demo_flight = 0" "delivered demo_sink = []" "read_from demo_flight = 4"
    by (simp_all add: demo_flight_def demo_defs delivered_def read_from_def)
  with flush_final_all_or_nothing [OF st r] r show ?thesis by auto
qed

text \<open>
  The inactivity timeout keeps the contract (a record closed by the timeout may be
  followed by a line that is no start), and the delay it reports is at most the timeout.
\<close>

theorem flush_if_expired_contract:
  assumes "ml_shipped strict d opts ml off base content t s"
    and "flush_if_expired d opts ml now1 now2 t s = (remaining, t', s')"
  shows "ml_shipped False d opts ml off base content t' s' \<and> read_from t' = read_from t
    \<and> (\<forall>x. remaining = Some x \<longrightarrow> x \<le> timeout ml)"
proof -
  obtain gs g tail where st: "ml_state d opts ml off base gs g tail t s"
    and pre: "prefix (ml_text gs g tail) content" using assms(1) by (auto simp: ml_shipped_def)
  obtain ok t1 s1 where sh: "ship d opts t s = (ok, t1, s1)" by (metis prod_cases3)
  note shs = ship_state [OF st sh]
  have keep: "ml_shipped False d opts ml off base content t s" using st pre by (auto simp: ml_shipped_def)
  have same: "ml_text (if g = [] then gs else gs @ [g]) [] tail = ml_text gs g tail"
    by (simp add: ml_text_def)
  have "ml_shipped False d opts ml off base content t1 s1 \<and> read_from t1 = read_from t"
    using shs pre same by (cases ok) (auto simp: ml_shipped_def, metis)
  with keep assms(2) sh show ?thesis
    by (auto simp: flush_if_expired_def split: option.splits if_splits)
qed

theorem flush_if_expired_contract_witness:
  "\<exists>x t' s'. flush_if_expired ref_deps demo_opts demo_ml 5 6 (ensure_agg demo_file) demo_sink = (x, t', s')
     \<and> ml_shipped False ref_deps demo_opts demo_ml 0 [] ''x'' t' s'"
proof -
  obtain x t' s' where r: "flush_if_expired ref_deps demo_opts demo_ml 5 6 (ensure_agg demo_file) demo_sink = (x, t', s')"
    by (metis prod_cases3)
  have "ml_shipped True ref_deps demo_opts demo_ml 0 [] ''x'' (ensure_agg demo_file) demo_sink"
    using ml_state_start [of demo_sink demo_file ref_deps demo_opts demo_ml] unfolding ml_shipped_def
    by (intro exI [of _ "[]"] conjI) (simp_all add: starts_ok_def ml_text_def demo_defs is_live_def delivered_def)
  from flush_if_expired_contract [OF this r] r show ?thesis by blast
qed

end
