(* ===== verification/Offsets.thy ===== *)
theory Offsets
  imports Multiline_Props
begin

text \<open>
  Offset persistence of \<open>src/logs/watcher.rs\<close>: one line \<open>PATH\tPOS\tDEV\tINO\<close> per file,
  written to a temporary file that is renamed over the state file, and its parser.
\<close>

section \<open>Writing\<close>

record saved_offset =
  so_pos :: nat
  so_dev :: nat
  so_ino :: nat

text \<open>\<open>Path::display\<close> and \<open>Path::to_string_lossy\<close> decode lossily.\<close>

definition offset_line :: "tailed_file \<Rightarrow> string" where
  "offset_line t =
     from_utf8_lossy (tf_path t) @ [TAB] @ show_nat (pos t) @ [TAB]
       @ show_nat (dev (tf_id t)) @ [TAB] @ show_nat (ino (tf_id t))"

definition offsets_text :: "tailed_file list \<Rightarrow> string" where
  "offsets_text ts = concat (map (\<lambda>t. offset_line t @ [NL]) ts)"

text \<open>
  What the file system does during a save: whether the temporary file can be created, how
  many bytes it takes before writes fail, and whether the rename succeeds.
\<close>

record save_io =
  io_create :: bool
  io_room :: nat
  io_rename :: bool

text \<open>
  \<open>save_offsets\<close>; the state is the contents of the state file and of the temporary file.
  Errors of \<open>writeln!\<close>, of the final flush and of \<open>sync_all\<close> are discarded by the code.
\<close>

definition save_offsets ::
    "save_io \<Rightarrow> tailed_file list \<Rightarrow> string option \<times> string option \<Rightarrow> string option \<times> string option" where
  "save_offsets io ts disk =
     (case disk of (state_file, tmp) \<Rightarrow>
        if \<not> io_create io then (state_file, tmp)
        else (let written = take (io_room io) (offsets_text ts)
              in if io_rename io then (Some written, None) else (state_file, Some written)))"

section \<open>Reading\<close>

definition load_line :: "string \<Rightarrow> (string \<times> saved_offset) option" where
  "load_line line =
     (case splitn 4 TAB line of
        [p0, p1, p2, p3] \<Rightarrow>
          (case (parse_u64 p1, parse_u64 p2, parse_u64 p3) of
             (Some ps, Some dv, Some io) \<Rightarrow> Some (p0, \<lparr>so_pos = ps, so_dev = dv, so_ino = io\<rparr>)
           | _ \<Rightarrow> None)
      | _ \<Rightarrow> None)"

fun load_lines ::
    "string list \<Rightarrow> (string, saved_offset) hash_map \<Rightarrow> (string, saved_offset) hash_map" where
  "load_lines [] m = m"
| "load_lines (l # ls) m =
     load_lines ls (case load_line l of None \<Rightarrow> m | Some (p, so) \<Rightarrow> AList.update p so m)"

text \<open>\<open>read_to_string\<close> fails when the file is missing or not UTF-8.\<close>

definition load_offsets :: "string option \<Rightarrow> (string, saved_offset) hash_map" where
  "load_offsets state_file =
     (case state_file of
        None \<Rightarrow> []
      | Some contents \<Rightarrow> if utf8_valid contents then load_lines (str_lines contents) [] else [])"

section \<open>Round trip\<close>

definition offset_of :: "tailed_file \<Rightarrow> saved_offset" where
  "offset_of t = \<lparr>so_pos = pos t, so_dev = dev (tf_id t), so_ino = ino (tf_id t)\<rparr>"

text \<open>
  Paths the format can represent, and numbers in the range of \<open>u64\<close>.
\<close>

definition saveable :: "tailed_file \<Rightarrow> bool" where
  "saveable t \<longleftrightarrow>
     utf8_valid (tf_path t) \<and> TAB \<notin> set (tf_path t) \<and> NL \<notin> set (tf_path t)
     \<and> pos t < 2 ^ 64 \<and> dev (tf_id t) < 2 ^ 64 \<and> ino (tf_id t) < 2 ^ 64"

lemma digit_chars: "\<not> is_ascii_digit TAB" "\<not> is_ascii_digit NL" "\<not> is_ascii_digit CR"
  by (simp_all add: is_ascii_digit_def code_def)

lemma show_nat_free [simp]: "TAB \<notin> set (show_nat n)" "NL \<notin> set (show_nat n)" "CR \<notin> set (show_nat n)"
  by (simp_all add: show_nat_no_sep digit_chars)

lemma splitn_tab4:
  assumes "TAB \<notin> set a" and "TAB \<notin> set b" and "TAB \<notin> set c"
  shows "splitn 4 TAB (a @ [TAB] @ b @ [TAB] @ c @ [TAB] @ e) = [a, b, c, e]"
proof -
  have "(4::nat) = Suc (Suc (Suc (Suc 0)))" by simp
  then show ?thesis using assms by (simp only: splitn.simps) (simp add: split_once_append)
qed

lemma load_offset_line: "saveable t \<Longrightarrow> load_line (offset_line t) = Some (tf_path t, offset_of t)"
  unfolding saveable_def load_line_def offset_line_def offset_of_def
  by (simp only: splitn_tab4 from_utf8_lossy_valid show_nat_free not_False_eq_True)
    (simp add: parse_show_nat)

lemma offset_line_shape:
  assumes "saveable t"
  shows "NL \<notin> set (offset_line t)" and "strip_cr (offset_line t) = offset_line t"
    and "utf8_valid (offset_line t @ [NL])"
proof -
  show "NL \<notin> set (offset_line t)"
    using assms by (simp add: offset_line_def saveable_def from_utf8_lossy_valid)
  have "last (offset_line t) = last (show_nat (ino (tf_id t)))"
    by (simp add: offset_line_def show_nat_nonempty)
  moreover have "last (show_nat (ino (tf_id t))) \<noteq> CR"
    using last_in_set [OF show_nat_nonempty] show_nat_free(3) by metis
  ultimately show "strip_cr (offset_line t) = offset_line t" by (simp add: strip_cr_def)
  have "\<forall>c \<in> set (show_nat n). code c < 128" for n
    using show_nat_digits by (fastforce simp: is_ascii_digit_def)
  then have "\<forall>c \<in> set (drop (length (tf_path t)) (offset_line t @ [NL])). code c < 128"
    using assms by (auto simp: offset_line_def saveable_def from_utf8_lossy_valid code_def)
  moreover have "offset_line t @ [NL] = tf_path t @ drop (length (tf_path t)) (offset_line t @ [NL])"
    using assms by (simp add: offset_line_def saveable_def from_utf8_lossy_valid)
  ultimately show "utf8_valid (offset_line t @ [NL])"
    using assms utf8_valid_append utf8_valid_ascii by (metis saveable_def)
qed

lemma offsets_text_valid: "\<forall>t \<in> set ts. saveable t \<Longrightarrow> utf8_valid (offsets_text ts)"
proof (induction ts)
  case (Cons t ts)
  then show ?case
    using utf8_valid_append [OF offset_line_shape(3) [of t], of "offsets_text ts"]
    by (simp add: offsets_text_def)
qed (simp add: offsets_text_def)

lemma load_lines_saved:
  "\<forall>t \<in> set ts. saveable t \<Longrightarrow>
     load_lines (map offset_line ts) m = fold (\<lambda>(p, so). AList.update p so) (map (\<lambda>t. (tf_path t, offset_of t)) ts) m"
  by (induction ts arbitrary: m) (simp_all add: load_offset_line)

lemma load_save:
  assumes "\<forall>t \<in> set ts. saveable t"
  shows "load_offsets (Some (offsets_text ts)) =
    fold (\<lambda>(p, so). AList.update p so) (map (\<lambda>t. (tf_path t, offset_of t)) ts) []"
proof -
  have "str_lines (offsets_text ts) = map offset_line ts"
    using str_lines_concat [of "map offset_line ts"] assms offset_line_shape
    by (simp add: offsets_text_def comp_def)
  then show ?thesis
    using assms by (simp add: load_offsets_def offsets_text_valid load_lines_saved)
qed

lemma saved_lookup:
  assumes "\<forall>t \<in> set ts. saveable t"
    and "io_create io" and "io_rename io" and "length (offsets_text ts) \<le> io_room io"
  shows "map_of (load_offsets (fst (save_offsets io ts disk))) p =
    map_of (rev (map (\<lambda>t. (tf_path t, offset_of t)) ts)) p"
proof -
  have "fst (save_offsets io ts disk) = Some (offsets_text ts)"
    using assms(2-4) by (cases disk) (simp add: save_offsets_def Let_def)
  moreover have "hash_wf ([] :: (string, saved_offset) hash_map)" by (simp add: hash_wf_def)
  ultimately show ?thesis
    using hash.get_fold_ins [of "[]" "map (\<lambda>t. (tf_path t, offset_of t)) ts" p] assms(1)
    by (simp add: load_save split: option.splits)
qed

section \<open>Properties\<close>

text \<open>
  What is saved is loaded. When the disk takes the file and the rename succeeds, a
  lookup after loading returns the offset, device and inode of the last tracked file
  (in iteration order) with that path, and nothing for any other path.
\<close>

theorem offsets_roundtrip:
  assumes "\<forall>t \<in> set ts. saveable t"
    and "io_create io" and "io_rename io" and "length (offsets_text ts) \<le> io_room io"
  shows "map_of (load_offsets (fst (save_offsets io ts disk))) p =
    map_of (rev (map (\<lambda>t. (tf_path t, offset_of t)) ts)) p"
  by (rule saved_lookup [OF assms])

theorem offsets_roundtrip_witness:
  "map_of (load_offsets (fst (save_offsets \<lparr>io_create = True, io_room = 100, io_rename = True\<rparr> [demo_file] (None, None)))) ''/a''
     = Some (offset_of demo_file)"
proof -
  have "saveable demo_file"
    by (simp add: saveable_def demo_file_def utf8_valid_ascii code_def)
  moreover have "length (offsets_text [demo_file]) \<le> 100"
    by (simp add: offsets_text_def offset_line_def demo_file_def show_nat.simps from_utf8_lossy_valid utf8_valid_ascii code_def)
  ultimately show ?thesis
    using offsets_roundtrip [of "[demo_file]" "\<lparr>io_create = True, io_room = 100, io_rename = True\<rparr>" "(None, None)" "''/a''"]
    by (simp add: demo_file_def)
qed


end
