(* ===== verification/Tailer.thy ===== *)
theory Tailer
  imports Offsets
begin

text \<open>
  The tracking of files in \<open>src/logs/watcher.rs\<close>: registration, the per-file poll with
  rotation and truncation, polling of all files, glob resolution and the main loop
  \<open>tail_files\<close>, whose \<open>select!\<close> arms are the steps of a transition relation. The two hash
  maps are association lists; their iteration order is the list order, and a step may
  reorder them.
\<close>

section \<open>Registration\<close>

type_synonym files = "(file_id, tailed_file) hash_map"
type_synonym path_index = "(path, file_id) hash_map"

record tracked =
  tr_files :: files
  tr_index :: path_index

definition checkpoint_of :: "(string, saved_offset) hash_map \<Rightarrow> path \<Rightarrow> file_id \<Rightarrow> saved_offset option" where
  "checkpoint_of saved p i =
     (case map_of saved (from_utf8_lossy p) of
        None \<Rightarrow> None
      | Some so \<Rightarrow> if so_dev so = dev i \<and> so_ino so = ino i then Some so else None)"

definition register_file ::
    "world \<Rightarrow> tracked \<Rightarrow> path \<Rightarrow> (string, saved_offset) hash_map \<Rightarrow> nat option \<Rightarrow> tracked" where
  "register_file w tr p saved initial_pos =
     (case w_stat w p of
        None \<Rightarrow> tr
      | Some meta \<Rightarrow>
          (let i = m_id meta in
           if map_of (tr_files tr) i \<noteq> None then tr
           else (let skip = file_is_utf16 w p; cp = checkpoint_of saved p i in
             if initial_pos = None \<and> cp = None
                \<and> (case m_age meta of None \<Rightarrow> False | Some age \<Rightarrow> IGNORE_OLDER_SECS < age)
             then tr
             else (let ps = (case initial_pos of
                               Some n \<Rightarrow> n
                             | None \<Rightarrow> (case cp of Some so \<Rightarrow> min (so_pos so) (m_len meta) | None \<Rightarrow> m_len meta))
                   in \<lparr>tr_files = AList.update i
                         \<lparr>tf_path = p, pos = ps, tf_id = i, partial = [], open_failures = 0,
                          retained_fd = None, skip_utf16 = skip, agg = None\<rparr> (tr_files tr),
                       tr_index = AList.update p i (tr_index tr)\<rparr>))))"

section \<open>Rotation\<close>

definition rotated_suffixes :: "string list" where
  "rotated_suffixes = [''.1'', ''.0'', ''-1'']"

fun find_suffix :: "world \<Rightarrow> path \<Rightarrow> file_id \<Rightarrow> string list \<Rightarrow> file_id option" where
  "find_suffix w p i [] = None"
| "find_suffix w p i (x # xs) =
     (case w_open w (from_utf8_lossy p @ x) of
        Some f \<Rightarrow> (case w_meta w f of
                     Some m \<Rightarrow> if m_id m = i then Some f else find_suffix w p i xs
                   | None \<Rightarrow> find_suffix w p i xs)
      | None \<Rightarrow> find_suffix w p i xs)"

fun find_entry :: "world \<Rightarrow> path \<Rightarrow> file_id \<Rightarrow> (path \<times> file_meta option) list \<Rightarrow> file_id option" where
  "find_entry w p i [] = None"
| "find_entry w p i ((q, meta) # es) =
     (if q = p then find_entry w p i es
      else (case meta of
              Some m \<Rightarrow> if m_id m = i
                        then (case w_open w q of Some f \<Rightarrow> Some f | None \<Rightarrow> find_entry w p i es)
                        else find_entry w p i es
            | None \<Rightarrow> find_entry w p i es))"

definition find_rotated_file :: "world \<Rightarrow> tailed_file \<Rightarrow> file_id option" where
  "find_rotated_file w t =
     (case find_suffix w (tf_path t) (tf_id t) rotated_suffixes of
        Some f \<Rightarrow> Some f
      | None \<Rightarrow> find_entry w (tf_path t) (tf_id t) (w_siblings w (tf_path t)))"

section \<open>Polling\<close>

datatype read_result = Bytes nat | Rotated file_id | RotatedLost | OpenFailed | Idle

text \<open>The reading half of \<open>check_and_read\<close>, when the path still names the tracked file.\<close>

definition read_current ::
    "deps \<Rightarrow> world \<Rightarrow> file_parse_opts \<Rightarrow> multiline_opts option \<Rightarrow> (nat \<Rightarrow> nat) \<Rightarrow> file_id \<Rightarrow> nat \<Rightarrow>
       tailed_file \<Rightarrow> sink \<Rightarrow> read_result \<times> tailed_file \<times> sink" where
  "read_current d w opts ml clock f current_len t s =
     (let (t1, s1) = (if current_len < pos t
                      then (let t0 = t\<lparr>pos := 0\<rparr> in
                            case ml of Some _ \<Rightarrow> (reset t0, s) | None \<Rightarrow> flush_partial d t0 s)
                      else (t, s))
      in if current_len \<le> pos t1 then (Idle, t1, s1)
         else (let (t2, s2, n) = (case ml of
                    Some m \<Rightarrow> read_live d opts m clock (w_read w f) t1 s1
                  | None \<Rightarrow> read_lines d opts (w_read w f (pos t1)) t1 s1)
               in (if 0 < n then Bytes n else Idle, t2, s2)))"

definition check_and_read ::
    "deps \<Rightarrow> world \<Rightarrow> file_parse_opts \<Rightarrow> multiline_opts option \<Rightarrow> (nat \<Rightarrow> nat) \<Rightarrow>
       tailed_file \<Rightarrow> sink \<Rightarrow> read_result \<times> tailed_file \<times> sink" where
  "check_and_read d w opts ml clock t s =
     (case w_open w (tf_path t) of
        None \<Rightarrow> (OpenFailed, t, s)
      | Some f \<Rightarrow>
          (case w_meta w f of
             None \<Rightarrow> (OpenFailed, t, s)
           | Some meta \<Rightarrow>
               if m_id meta \<noteq> tf_id t
               then (let (t1, s1) = (if ml = None then flush_partial d t s else (t, s))
                     in case find_rotated_file w t1 of
                          Some old_fd \<Rightarrow> (Rotated old_fd, t1, s1)
                        | None \<Rightarrow> (RotatedLost, t1, s1))
               else read_current d w opts ml clock f (m_len meta) t s))"

definition unindex :: "path \<Rightarrow> file_id \<Rightarrow> path_index \<Rightarrow> path_index" where
  "unindex p i ix = (if map_of ix p = Some i then AList.delete p ix else ix)"

text \<open>The body of the loop of \<open>poll_all\<close> for one identity.\<close>

definition poll_one ::
    "deps \<Rightarrow> file_parse_opts \<Rightarrow> multiline_opts option \<Rightarrow> (nat \<Rightarrow> nat) \<Rightarrow> world \<Rightarrow> file_id \<Rightarrow>
       tracked \<times> sink \<times> nat \<Rightarrow> tracked \<times> sink \<times> nat" where
  "poll_one d opts ml clock w i st =
     (case st of (tr, s, tot) \<Rightarrow>
      case map_of (tr_files tr) i of
        None \<Rightarrow> (tr, s, tot)
      | Some t \<Rightarrow>
          if skip_utf16 t then (tr, s, tot)
          else if retained_fd t \<noteq> None then
            (let (t', s', n) = (case ml of
                     Some m \<Rightarrow> drain d w opts m clock t s
                   | None \<Rightarrow> drain_retained d w opts t s);
                 tr' = (if retained_fd t' = None
                        then \<lparr>tr_files = AList.delete i (tr_files tr),
                              tr_index = unindex (tf_path t') (tf_id t') (tr_index tr)\<rparr>
                        else tr\<lparr>tr_files := AList.update i t' (tr_files tr)\<rparr>)
             in (tr', s', tot + n))
          else (case check_and_read d w opts ml clock t s of
             (Bytes n, t', s') \<Rightarrow>
               (tr\<lparr>tr_files := AList.update i (t'\<lparr>open_failures := 0\<rparr>) (tr_files tr)\<rparr>, s', tot + n)
           | (Rotated old_fd, t', s') \<Rightarrow>
               (register_file w
                  \<lparr>tr_files = AList.update i (t'\<lparr>retained_fd := Some old_fd, open_failures := 0\<rparr>) (tr_files tr),
                   tr_index = unindex (tf_path t') i (tr_index tr)\<rparr>
                  (tf_path t') [] (Some 0), s', tot)
           | (RotatedLost, t', s') \<Rightarrow>
               (register_file w
                  \<lparr>tr_files = AList.delete i (tr_files tr),
                   tr_index = AList.delete (tf_path t') (tr_index tr)\<rparr>
                  (tf_path t') [] (Some 0), s', tot)
           | (OpenFailed, t', s') \<Rightarrow>
               (tr\<lparr>tr_files := AList.update i (t'\<lparr>open_failures := open_failures t' + 1\<rparr>) (tr_files tr)\<rparr>, s', tot)
           | (Idle, t', s') \<Rightarrow>
               (tr\<lparr>tr_files := AList.update i t' (tr_files tr)\<rparr>, s', tot)))"

text \<open>\<open>poll_all\<close>: the identities are collected first; \<open>ws\<close> is the world at each visit.\<close>

definition poll_all ::
    "deps \<Rightarrow> file_parse_opts \<Rightarrow> multiline_opts option \<Rightarrow> (nat \<Rightarrow> nat) \<Rightarrow> (file_id \<Rightarrow> world) \<Rightarrow>
       tracked \<Rightarrow> sink \<Rightarrow> tracked \<times> sink \<times> nat" where
  "poll_all d opts ml clock ws tr s =
     fold (\<lambda>i. poll_one d opts ml clock (ws i) i) (map fst (tr_files tr)) (tr, s, 0)"

section \<open>Expired records and the poll delay\<close>

fun flush_expired_list ::
    "deps \<Rightarrow> file_parse_opts \<Rightarrow> multiline_opts \<Rightarrow> (file_id \<Rightarrow> nat \<times> nat) \<Rightarrow> files \<Rightarrow> sink \<Rightarrow> nat option \<Rightarrow>
       files \<times> sink \<times> nat option" where
  "flush_expired_list d opts m clk [] s nearest = ([], s, nearest)"
| "flush_expired_list d opts m clk ((i, t) # fs) s nearest =
     (case flush_if_expired d opts m (fst (clk i)) (snd (clk i)) t s of
        (remaining, t', s') \<Rightarrow>
          (let nearest' = (case remaining of
                             None \<Rightarrow> nearest
                           | Some r \<Rightarrow> Some (case nearest of None \<Rightarrow> r | Some n \<Rightarrow> min n r))
           in case flush_expired_list d opts m clk fs s' nearest' of
                (fs', s'', near) \<Rightarrow> ((i, t') # fs', s'', near)))"

definition flush_expired_records ::
    "deps \<Rightarrow> file_parse_opts \<Rightarrow> multiline_opts option \<Rightarrow> (file_id \<Rightarrow> nat \<times> nat) \<Rightarrow> files \<Rightarrow> sink \<Rightarrow> files \<times> sink \<times> nat option" where
  "flush_expired_records d opts ml clk fs s =
     (case ml of None \<Rightarrow> (fs, s, None) | Some m \<Rightarrow> flush_expired_list d opts m clk fs s None)"

definition poll_delay :: "nat \<Rightarrow> nat option \<Rightarrow> nat" where
  "poll_delay poll_interval_ms pending_flush =
     (case pending_flush of
        Some remaining \<Rightarrow> max (min poll_interval_ms remaining) POLL_CATCHUP_MS
      | None \<Rightarrow> poll_interval_ms)"

section \<open>Glob resolution\<close>

text \<open>
  \<open>expand\<close> is \<open>glob::glob\<close> with the unreadable entries removed (\<open>None\<close> for a pattern it
  rejects) and \<open>is_file\<close> the test of the file system.
\<close>

fun resolve_globs ::
    "(string \<Rightarrow> path list option) \<Rightarrow> (path \<Rightarrow> bool) \<Rightarrow> string list \<Rightarrow> path list" where
  "resolve_globs expand is_file [] = []"
| "resolve_globs expand is_file (pat # pats) =
     (if \<exists>c \<in> set pat. c \<in> {CHR ''*'', CHR ''?'', CHR ''[''}
      then (case expand pat of None \<Rightarrow> [] | Some es \<Rightarrow> filter is_file es)
      else if is_file pat then [pat] else [])
     @ resolve_globs expand is_file pats"

section \<open>The main loop\<close>

record tail_state =
  ts_tracked :: tracked
  ts_sink :: sink
  ts_interval :: nat
  ts_pending :: "nat option"
  ts_last_save :: nat
  ts_disk :: "string option \<times> string option"

definition evict :: "file_id \<Rightarrow> tracked \<Rightarrow> tracked" where
  "evict i tr =
     (case map_of (tr_files tr) i of
        None \<Rightarrow> tr
      | Some t \<Rightarrow> \<lparr>tr_files = AList.delete i (tr_files tr),
                   tr_index = unindex (tf_path t) (tf_id t) (tr_index tr)\<rparr>)"

definition evict_stale :: "tracked \<Rightarrow> tracked" where
  "evict_stale tr =
     fold evict
       (map fst (filter (\<lambda>(_, t). STALE_THRESHOLD \<le> open_failures t \<and> retained_fd t = None) (tr_files tr))) tr"

text \<open>The poll arm; \<open>now\<close> is the clock in milliseconds, \<open>clk\<close> the two readings taken for a file.\<close>

definition on_poll ::
    "deps \<Rightarrow> file_parse_opts \<Rightarrow> multiline_opts option \<Rightarrow> (nat \<Rightarrow> nat) \<Rightarrow> (file_id \<Rightarrow> world) \<Rightarrow>
       (file_id \<Rightarrow> nat \<times> nat) \<Rightarrow> nat \<Rightarrow> save_io \<Rightarrow>
       tail_state \<Rightarrow> tail_state" where
  "on_poll d opts ml clock ws clk now io st =
     (let (tr, s, tot) = poll_all d opts ml clock ws (ts_tracked st) (ts_sink st);
          (fs, s', pending) = flush_expired_records d opts ml clk (tr_files tr) s;
          tr' = tr\<lparr>tr_files := fs\<rparr>;
          st' = st\<lparr>ts_tracked := evict_stale tr', ts_sink := s', ts_pending := pending\<rparr>
      in if 0 < tot
         then (let st1 = st'\<lparr>ts_interval := POLL_CATCHUP_MS\<rparr> in
               if OFFSET_SAVE_MIN_SECS \<le> (now - ts_last_save st) div 1000
               then st1\<lparr>ts_disk := save_offsets io (map snd fs) (ts_disk st), ts_last_save := now\<rparr>
               else st1)
         else st'\<lparr>ts_interval := min (ts_interval st * 2) POLL_MAX_MS\<rparr>)"

definition on_glob :: "(path \<Rightarrow> world) \<Rightarrow> path list \<Rightarrow> tail_state \<Rightarrow> tail_state" where
  "on_glob w paths st =
     st\<lparr>ts_tracked := fold (\<lambda>p tr. if map_of (tr_index tr) p = None
                                   then register_file (w p) tr p [] None else tr)
                       paths (ts_tracked st)\<rparr>"

definition on_save :: "save_io \<Rightarrow> nat \<Rightarrow> tail_state \<Rightarrow> tail_state" where
  "on_save io now st =
     st\<lparr>ts_disk := save_offsets io (map snd (tr_files (ts_tracked st))) (ts_disk st), ts_last_save := now\<rparr>"

fun flush_files :: "deps \<Rightarrow> file_parse_opts \<Rightarrow> multiline_opts option \<Rightarrow> files \<Rightarrow> sink \<Rightarrow> files \<times> sink" where
  "flush_files d opts ml [] s = ([], s)"
| "flush_files d opts ml ((i, t) # fs) s =
     (case (case ml of Some m \<Rightarrow> flush_final d opts m t s | None \<Rightarrow> flush_partial d t s) of
        (t', s') \<Rightarrow> (case flush_files d opts ml fs s' of (fs', s'') \<Rightarrow> ((i, t') # fs', s'')))"

definition on_cancel ::
    "deps \<Rightarrow> file_parse_opts \<Rightarrow> multiline_opts option \<Rightarrow> (nat \<Rightarrow> nat) \<Rightarrow> (file_id \<Rightarrow> world) \<Rightarrow> save_io \<Rightarrow>
       tail_state \<Rightarrow> tail_state" where
  "on_cancel d opts ml clock ws io st =
     (let (tr, s, tot) = poll_all d opts ml clock ws (ts_tracked st) (ts_sink st);
          (fs, s') = flush_files d opts ml (tr_files tr) s
      in st\<lparr>ts_tracked := tr\<lparr>tr_files := fs\<rparr>, ts_sink := s',
            ts_disk := save_offsets io (map snd fs) (ts_disk st)\<rparr>)"

text \<open>The state in which the loop is entered.\<close>

definition tail_init ::
    "(path \<Rightarrow> world) \<Rightarrow> path list \<Rightarrow> string option \<times> string option \<Rightarrow> sink \<Rightarrow> nat \<Rightarrow> tail_state" where
  "tail_init w paths disk s now =
     \<lparr>ts_tracked = fold (\<lambda>p tr. register_file (w p) tr p (load_offsets (fst disk)) None)
                     paths \<lparr>tr_files = [], tr_index = []\<rparr>,
      ts_sink = s, ts_interval = POLL_BASE_MS, ts_pending = None, ts_last_save = now, ts_disk = disk\<rparr>"

text \<open>The steps of the loop; \<open>ts_step_reorder\<close> is the unspecified order of a hash map.\<close>

inductive tail_step ::
    "deps \<Rightarrow> file_parse_opts \<Rightarrow> multiline_opts option \<Rightarrow> tail_state \<Rightarrow> tail_state \<Rightarrow> bool"
  for d opts ml where
  poll: "tail_step d opts ml st (on_poll d opts ml clock ws clk now io st)"
| glob: "tail_step d opts ml st (on_glob w paths st)"
| save: "tail_step d opts ml st (on_save io now st)"
| reorder: "mset fs = mset (tr_files (ts_tracked st)) \<Longrightarrow>
    tail_step d opts ml st (st\<lparr>ts_tracked := (ts_tracked st)\<lparr>tr_files := fs\<rparr>\<rparr>)"

inductive tail_reachable ::
    "deps \<Rightarrow> file_parse_opts \<Rightarrow> multiline_opts option \<Rightarrow> tail_state \<Rightarrow> bool"
  for d opts ml where
  init: "is_live s \<Longrightarrow> tail_reachable d opts ml (tail_init w paths disk s now)"
| step: "tail_reachable d opts ml st \<Longrightarrow> tail_step d opts ml st st' \<Longrightarrow> tail_reachable d opts ml st'"

inductive_cases tail_stepE: "tail_step d opts ml st st'"

end
