(* ===== verification/Tailer_Props.thy ===== *)
theory Tailer_Props
  imports Tailer
begin

text \<open>
  Invariants of the tracking maps under every step of the main loop, and the behaviour of
  registration, rotation, truncation and restart.
\<close>

section \<open>Reading keeps the identity of a file and the channel\<close>

definition keeps :: "tailed_file \<Rightarrow> sink \<Rightarrow> tailed_file \<Rightarrow> sink \<Rightarrow> bool" where
  "keeps t s t' s' \<longleftrightarrow> tf_path t' = tf_path t \<and> tf_id t' = tf_id t \<and> (is_live s \<longrightarrow> is_live s')"

lemma keeps_refl [simp, inv_intros]: "keeps t s t s"
  by (simp add: keeps_def)

lemma keeps_trans: "keeps t s t1 s1 \<Longrightarrow> keeps t1 s1 t2 s2 \<Longrightarrow> keeps t s t2 s2"
  by (simp add: keeps_def)

lemma try_log_live: "try_log_with_service d s e = (ok, s') \<Longrightarrow> is_live s \<Longrightarrow> is_live s'"
  using tell_channel.send_live by blast

lemma try_emit_line_live: "try_emit_line d opts l p s = (ok, p', s') \<Longrightarrow> is_live s \<Longrightarrow> is_live s'"
  using try_emit_line_sent(1) by blast

lemma sink_log_live: "is_live s \<Longrightarrow> is_live (sink_log d s lv m c dt)"
  by (auto simp: sink_log_def try_log_def is_live_def try_log_with_service_def tell_log_def Let_def)

lemma flush_partial_keeps: "flush_partial d t s = (t', s') \<Longrightarrow> keeps t s t' s'"
  by (auto simp: flush_partial_def keeps_def Let_def sink_log_live split: if_splits)

lemma tail_loop_keeps: "tail_loop d opts r t s b n = (stp, t', s', b') \<Longrightarrow> keeps t s t' s'"
proof (induction "reader_size r" arbitrary: r t s b n rule: less_induct)
  case less
  note unfold = tail_loop.simps [of d opts r t s b n]
  obtain res buf r' where rl: "read_line d r [] 0 = (res, buf, r')" by (metis prod_cases3)
  show ?case
  proof (cases "res = Inl () \<or> res = Inr 0")
    case True
    with less(2) rl show ?thesis by (auto simp: unfold)
  next
    case False
    then obtain k where k: "res = Inr k" "k \<noteq> 0" by (cases res) auto
    note ih = less(1) [OF read_line_progress [OF rl [unfolded k(1)] k(2)]]
    obtain ok p s1 where te: "try_emit_line d opts (butlast buf) (partial t) s = (ok, p, s1)"
      by (metis prod_cases3)
    show ?thesis
      using less(2) rl k te try_emit_line_live [OF te]
      by (cases ok) (auto simp: unfold keeps_def Let_def split: if_splits dest!: ih)
  qed
qed

lemma read_lines_keeps: "read_lines d opts rd t s = (t', s', n) \<Longrightarrow> keeps t s t' s'"
  by (auto simp: read_lines_def split: option.splits prod.splits dest: tail_loop_keeps)

lemma drain_retained_keeps: "drain_retained d w opts t s = (t', s', n) \<Longrightarrow> keeps t s t' s'"
  by (auto simp: drain_retained_def Let_def keeps_def split: option.splits prod.splits if_splits
      dest!: tail_loop_keeps flush_partial_keeps)

lemma ship_keeps: "ship d opts t s = (ok, t', s') \<Longrightarrow> keeps t s t' s'"
  by (auto simp: ship_def keeps_def split: option.splits prod.splits if_splits bool.splits
      dest: try_log_live)

lemma fold_partial_keeps [simp]: "tf_path (fold_partial m t) = tf_path t" "tf_id (fold_partial m t) = tf_id t"
  by (simp_all add: fold_partial_def)

lemma ensure_agg_keeps [simp]: "tf_path (ensure_agg t) = tf_path t" "tf_id (ensure_agg t) = tf_id t"
  by (simp_all add: ensure_agg_def split: option.splits)

lemma reset_keeps [simp]: "tf_path (reset t) = tf_path t" "tf_id (reset t) = tf_id t"
  by (simp_all add: reset_def)

lemma commit_line_keeps: "commit_line d opts m now t l n s = (c, t', s') \<Longrightarrow> keeps t s t' s'"
  by (auto simp: commit_line_def Let_def keeps_def split: if_splits prod.splits option.splits
      dest!: ship_keeps)

lemma read_loop_keeps: "read_loop d opts m clock r t s c n = (oc, t', s') \<Longrightarrow> keeps t s t' s'"
proof (induction "reader_size r" arbitrary: r t s c n rule: less_induct)
  case less
  note unfold = read_loop.simps [of d opts m clock r t s c n]
  obtain res buf r' where rl: "read_line d r [] 0 = (res, buf, r')" by (metis prod_cases3)
  show ?case
  proof (cases "res = Inl () \<or> res = Inr 0")
    case True
    with less(2) rl show ?thesis by (auto simp: unfold)
  next
    case False
    then obtain k where k: "res = Inr k" "k \<noteq> 0" by (cases res) auto
    note ih = less(1) [OF read_line_progress [OF rl [unfolded k(1)] k(2)]]
    obtain cm t1 s1 where cl: "commit_line d opts m (clock n) t (butlast buf) k s = (cm, t1, s1)"
      by (metis prod_cases3)
    show ?thesis
      using less(2) rl k cl commit_line_keeps [OF cl]
      by (cases cm; cases "agg t") (auto simp: unfold keeps_def split: if_splits dest!: ih)
  qed
qed

lemma read_live_keeps: "read_live d opts m clock op t s = (t', s', n) \<Longrightarrow> keeps t s t' s'"
  by (auto simp: read_live_def Let_def keeps_def split: option.splits prod.splits dest!: read_loop_keeps)

lemma drain_keeps: "drain d w opts m clock t s = (t', s', n) \<Longrightarrow> keeps t s t' s'"
  by (auto simp: drain_def Let_def keeps_def split: option.splits prod.splits if_splits stop_reason.splits
      dest!: read_loop_keeps ship_keeps)

lemma flush_final_keeps: "flush_final d opts m t s = (t', s') \<Longrightarrow> keeps t s t' s'"
  by (auto simp: flush_final_def keeps_def split: prod.splits dest!: ship_keeps)

lemma flush_if_expired_keeps: "flush_if_expired d opts m n1 n2 t s = (x, t', s') \<Longrightarrow> keeps t s t' s'"
  by (auto simp: flush_if_expired_def Let_def split: option.splits prod.splits if_splits dest: ship_keeps)

lemma read_current_keeps: "read_current d w opts ml clock f len t s = (res, t', s') \<Longrightarrow> keeps t s t' s'"
  by (auto simp: read_current_def Let_def keeps_def split: option.splits prod.splits if_splits
      dest!: flush_partial_keeps read_live_keeps read_lines_keeps)

lemma check_and_read_keeps: "check_and_read d w opts ml clock t s = (res, t', s') \<Longrightarrow> keeps t s t' s'"
  by (auto simp: check_and_read_def Let_def split: option.splits prod.splits if_splits
      dest: flush_partial_keeps read_current_keeps)

section \<open>The tracking invariant\<close>

text \<open>
  Files are stored under their own identity, and the path index points only to tracked
  files, each under its current path.
\<close>

definition tracked_ok :: "tracked \<Rightarrow> bool" where
  "tracked_ok tr \<longleftrightarrow>
     hash_wf (tr_files tr) \<and> hash_wf (tr_index tr)
     \<and> (\<forall>i t. map_of (tr_files tr) i = Some t \<longrightarrow> tf_id t = i)
     \<and> (\<forall>p i. map_of (tr_index tr) p = Some i \<longrightarrow> (\<exists>t. map_of (tr_files tr) i = Some t \<and> tf_path t = p))"

lemma tracked_ok_empty: "tracked_ok \<lparr>tr_files = [], tr_index = []\<rparr>"
  by (simp add: tracked_ok_def hash_wf_def)

lemmas map_laws = hash.get_ins hash.get_del hash.wf_ins hash.wf_del

lemma tracked_index:
  "tracked_ok tr \<Longrightarrow> map_of (tr_index tr) p = Some i \<Longrightarrow> \<exists>t. map_of (tr_files tr) i = Some t \<and> tf_path t = p"
  by (simp add: tracked_ok_def)

lemma tracked_path:
  assumes "tracked_ok tr" and "map_of (tr_files tr) i = Some t" and "map_of (tr_index tr) p = Some i"
  shows "p = tf_path t"
  using tracked_index [OF assms(1,3)] assms(2) by auto

lemma tracked_ok_update [inv_intros]:
  assumes "tracked_ok tr" and "map_of (tr_files tr) i = Some t"
    and "tf_path t' = tf_path t" and "tf_id t' = tf_id t"
  shows "tracked_ok (tr\<lparr>tr_files := AList.update i t' (tr_files tr)\<rparr>)"
  using assms tracked_path [OF assms(1,2)] by (auto simp: tracked_ok_def map_laws)

lemma unindex_map: "hash_wf ix \<Longrightarrow> map_of (unindex p i ix) q = (if q = p \<and> map_of ix p = Some i then None else map_of ix q)"
  by (auto simp: unindex_def map_laws)

lemma unindex_wf: "hash_wf ix \<Longrightarrow> hash_wf (unindex p i ix)"
  by (simp add: unindex_def map_laws)

lemma tracked_ok_remove [inv_intros]:
  assumes "tracked_ok tr" and "map_of (tr_files tr) i = Some t" and "p = tf_path t"
  shows "tracked_ok \<lparr>tr_files = AList.delete i (tr_files tr), tr_index = unindex p i (tr_index tr)\<rparr>"
  using assms tracked_path [OF assms(1,2)] by (auto simp: tracked_ok_def map_laws unindex_map unindex_wf)

lemma tracked_ok_lost [inv_intros]:
  assumes "tracked_ok tr" and "map_of (tr_files tr) i = Some t" and "p = tf_path t"
  shows "tracked_ok \<lparr>tr_files = AList.delete i (tr_files tr), tr_index = AList.delete p (tr_index tr)\<rparr>"
  using assms tracked_path [OF assms(1,2)] by (auto simp: tracked_ok_def map_laws)

lemma tracked_ok_rotate [inv_intros]:
  assumes "tracked_ok tr" and "map_of (tr_files tr) i = Some t"
    and "tf_path t' = tf_path t" and "tf_id t' = tf_id t" and "p = tf_path t"
  shows "tracked_ok \<lparr>tr_files = AList.update i t' (tr_files tr), tr_index = unindex p i (tr_index tr)\<rparr>"
  using assms tracked_path [OF assms(1,2)] by (auto simp: tracked_ok_def map_laws unindex_map unindex_wf)

lemma tracked_ok_insert [inv_intros]:
  assumes "tracked_ok tr" and "map_of (tr_files tr) i = None" and "tf_id t = i" and "tf_path t = p"
  shows "tracked_ok \<lparr>tr_files = AList.update i t (tr_files tr), tr_index = AList.update p i (tr_index tr)\<rparr>"
proof -
  have "map_of (tr_index tr) q \<noteq> Some i" for q using tracked_index [OF assms(1)] assms(2) by fastforce
  with assms show ?thesis by (auto simp: tracked_ok_def map_laws)
qed

lemma register_file_ok [inv_intros]: "tracked_ok tr \<Longrightarrow> tracked_ok (register_file w tr p saved ip)"
  by (cases "w_stat w p") (simp_all add: register_file_def Let_def tracked_ok_insert)

lemma evict_ok [inv_intros]: "tracked_ok tr \<Longrightarrow> tracked_ok (evict i tr)"
proof (cases "map_of (tr_files tr) i")
  case (Some t)
  assume ok: "tracked_ok tr"
  then have "tf_id t = i" using Some by (simp add: tracked_ok_def)
  with Some tracked_ok_remove [OF ok Some refl] show ?thesis by (simp add: evict_def)
qed (simp add: evict_def)

lemma fold_invariant: "P x \<Longrightarrow> (\<And>a y. P y \<Longrightarrow> P (f a y)) \<Longrightarrow> P (fold f xs x)"
  by (induction xs arbitrary: x) auto

lemma evict_stale_ok [inv_intros]: "tracked_ok tr \<Longrightarrow> tracked_ok (evict_stale tr)"
  unfolding evict_stale_def by (rule fold_invariant) (auto intro: evict_ok)

lemma poll_one_ok:
  assumes "tracked_ok tr" and "is_live s" and "poll_one d opts ml clock w i (tr, s, n) = (tr', s', n')"
  shows "tracked_ok tr' \<and> is_live s'"
proof (cases "map_of (tr_files tr) i")
  case None
  with assms show ?thesis by (simp add: poll_one_def)
next
  case (Some t)
  then have i: "tf_id t = i" using assms(1) by (simp add: tracked_ok_def)
  consider (skip) "skip_utf16 t" | (drain) "\<not> skip_utf16 t" "retained_fd t \<noteq> None"
    | (live) "\<not> skip_utf16 t" "retained_fd t = None" by blast
  then show ?thesis
  proof cases
    case skip
    with assms Some show ?thesis by (simp add: poll_one_def)
  next
    case drain
    obtain t1 s1 m where dr: "(case ml of Some x \<Rightarrow> drain d w opts x clock t s | None \<Rightarrow> drain_retained d w opts t s) = (t1, s1, m)"
      by (metis prod_cases3)
    then have k: "keeps t s t1 s1" by (auto split: option.splits dest: drain_keeps drain_retained_keeps)
    with assms Some drain dr i show ?thesis
      by (auto simp: poll_one_def keeps_def split: if_splits intro!: tracked_ok_remove tracked_ok_update)
  next
    case live
    obtain res t1 s1 where cr: "check_and_read d w opts ml clock t s = (res, t1, s1)" by (metis prod_cases3)
    note k = check_and_read_keeps [OF cr]
    show ?thesis
      using assms Some live cr k
      by (cases res) (auto simp: poll_one_def keeps_def
          intro!: register_file_ok tracked_ok_rotate tracked_ok_lost tracked_ok_update)
  qed
qed

lemma poll_all_ok:
  assumes "tracked_ok tr" and "is_live s" and "poll_all d opts ml clock ws tr s = (tr', s', n)"
  shows "tracked_ok tr' \<and> is_live s'"
proof -
  have "(\<lambda>(tr, s, n). tracked_ok tr \<and> is_live s)
    (fold (\<lambda>i. poll_one d opts ml clock (ws i) i) (map fst (tr_files tr)) (tr, s, 0))"
  proof (rule fold_invariant)
    fix i and st :: "tracked \<times> sink \<times> nat"
    assume st: "(\<lambda>(tr, s, n). tracked_ok tr \<and> is_live s) st"
    obtain tr1 s1 n1 where 1: "st = (tr1, s1, n1)" by (metis prod_cases3)
    obtain tr2 s2 n2 where 2: "poll_one d opts ml clock (ws i) i (tr1, s1, n1) = (tr2, s2, n2)" by (metis prod_cases3)
    from st 1 poll_one_ok [OF _ _ 2] show "(\<lambda>(tr, s, n). tracked_ok tr \<and> is_live s) (poll_one d opts ml clock (ws i) i st)"
      by (simp add: 2)
  qed (use assms in simp)
  then show ?thesis using assms(3) by (simp add: poll_all_def)
qed

text \<open>Maps over all files that keep identities and paths.\<close>

lemma tracked_ok_map:
  assumes "tracked_ok tr" and "map fst fs = map fst (tr_files tr)"
    and "map (tf_path \<circ> snd) fs = map (tf_path \<circ> snd) (tr_files tr)"
    and "map (tf_id \<circ> snd) fs = map (tf_id \<circ> snd) (tr_files tr)"
  shows "tracked_ok (tr\<lparr>tr_files := fs\<rparr>)"
proof -
  have same: "rel_option (\<lambda>t t'. tf_path t' = tf_path t \<and> tf_id t' = tf_id t) (map_of gs i) (map_of hs i)"
    if "map fst hs = map fst gs" "map (tf_path \<circ> snd) hs = map (tf_path \<circ> snd) gs"
      "map (tf_id \<circ> snd) hs = map (tf_id \<circ> snd) gs" for i and gs hs :: files
    using that
  proof (induction gs arbitrary: hs)
    case (Cons g gs)
    then show ?case by (cases g; cases hs) auto
  qed simp
  note rel = same [OF assms(2-4)]
  have id: "tf_id t = i" if "map_of fs i = Some t" for i t
    using rel [of i] that assms(1) by (cases "map_of (tr_files tr) i") (auto simp: tracked_ok_def)
  have ix: "\<exists>t. map_of fs i = Some t \<and> tf_path t = p" if "map_of (tr_index tr) p = Some i" for p i
    using rel [of i] tracked_index [OF assms(1) that] by (cases "map_of fs i") auto
  from id ix assms(1,2) show ?thesis by (simp add: tracked_ok_def hash_wf_def)
qed

lemma flush_expired_list_map:
  "flush_expired_list d opts m clk fs s near = (fs', s', near') \<Longrightarrow>
     map fst fs' = map fst fs \<and> map (tf_path \<circ> snd) fs' = map (tf_path \<circ> snd) fs
     \<and> map (tf_id \<circ> snd) fs' = map (tf_id \<circ> snd) fs \<and> (is_live s \<longrightarrow> is_live s')"
proof (induction d opts m clk fs s near arbitrary: fs' rule: flush_expired_list.induct)
  case (2 d opts m clk i t fs s near)
  obtain rm t1 s1 where fl: "flush_if_expired d opts m (fst (clk i)) (snd (clk i)) t s = (rm, t1, s1)" by (metis prod_cases3)
  note k = flush_if_expired_keeps [OF fl]
  define near1 where "near1 = (case rm of None \<Rightarrow> near
    | Some r \<Rightarrow> Some (case near of None \<Rightarrow> r | Some n \<Rightarrow> min n r))"
  obtain fs1 where fs1: "flush_expired_list d opts m clk fs s1 near1 = (fs1, s', near')" "fs' = (i, t1) # fs1"
    using 2(2) fl by (auto simp: Let_def near1_def split: prod.splits)
  from 2(1) [OF fl [symmetric] refl near1_def fs1(1)] fs1(2) k show ?case by (auto simp: keeps_def)
qed simp

lemma flush_expired_records_ok:
  assumes "tracked_ok tr" and "is_live s"
    and "flush_expired_records d opts ml clk (tr_files tr) s = (fs, s', near)"
  shows "tracked_ok (tr\<lparr>tr_files := fs\<rparr>) \<and> is_live s'"
proof (cases ml)
  case None
  with assms(3) have "fs = tr_files tr" "s' = s" by (simp_all add: flush_expired_records_def)
  with assms(1,2) show ?thesis by simp
next
  case (Some m)
  then have "flush_expired_list d opts m clk (tr_files tr) s None = (fs, s', near)"
    using assms(3) by (simp add: flush_expired_records_def)
  from flush_expired_list_map [OF this] assms(1,2) show ?thesis by (simp add: tracked_ok_map)
qed

section \<open>Steps of the loop\<close>

definition tail_ok :: "tail_state \<Rightarrow> bool" where
  "tail_ok st \<longleftrightarrow>
     tracked_ok (ts_tracked st) \<and> is_live (ts_sink st)
     \<and> POLL_CATCHUP_MS \<le> ts_interval st \<and> ts_interval st \<le> POLL_MAX_MS"

lemma tail_init_ok: "is_live s \<Longrightarrow> tail_ok (tail_init w paths disk s now)"
  by (auto simp: tail_ok_def tail_init_def POLL_CATCHUP_MS_def POLL_BASE_MS_def POLL_MAX_MS_def
      intro!: fold_invariant [where P = tracked_ok] register_file_ok tracked_ok_empty)

lemma on_poll_ok:
  assumes "tail_ok st"
  shows "tail_ok (on_poll d opts ml clock ws clk now io st)"
proof -
  obtain tr s tot where pa: "poll_all d opts ml clock ws (ts_tracked st) (ts_sink st) = (tr, s, tot)"
    by (metis prod_cases3)
  obtain fs s' near where fl: "flush_expired_records d opts ml clk (tr_files tr) s = (fs, s', near)"
    by (metis prod_cases3)
  have ok: "tracked_ok (ts_tracked st)" "is_live (ts_sink st)" using assms by (simp_all add: tail_ok_def)
  note p = poll_all_ok [OF ok pa]
  note f = flush_expired_records_ok [OF conjunct1 [OF p] conjunct2 [OF p] fl]
  from f assms pa fl show ?thesis
    by (auto simp: on_poll_def tail_ok_def Let_def POLL_CATCHUP_MS_def POLL_MAX_MS_def evict_stale_ok)
qed

lemma on_glob_ok: "tail_ok st \<Longrightarrow> tail_ok (on_glob w paths st)"
  by (auto simp: tail_ok_def on_glob_def intro!: fold_invariant [where P = tracked_ok] register_file_ok)

lemma reorder_ok:
  assumes "tracked_ok tr" and "mset fs = mset (tr_files tr)"
  shows "tracked_ok (tr\<lparr>tr_files := fs\<rparr>)"
proof -
  have d: "distinct (map fst fs)" "distinct (map fst (tr_files tr))"
    using assms mset_eq_distinct_map [OF assms(2)] by (auto simp: tracked_ok_def hash_wf_def)
  have "map_of fs = map_of (tr_files tr)"
    using d mset_eq_setD [OF assms(2)] by (intro map_of_inject_set [THEN iffD2]) auto
  with assms(1) d show ?thesis by (simp add: tracked_ok_def hash_wf_def)
qed

lemma tail_step_ok: "tail_step d opts ml st st' \<Longrightarrow> tail_ok st \<Longrightarrow> tail_ok st'"
  by (induction rule: tail_step.induct)
    (auto simp: on_poll_ok on_glob_ok, auto simp: tail_ok_def on_save_def reorder_ok)

lemma tail_reachable_ok: "tail_reachable d opts ml st \<Longrightarrow> tail_ok st"
  by (induction rule: tail_reachable.induct) (auto simp: tail_init_ok tail_step_ok)

section \<open>Rotation and restart\<close>

text \<open>
  The identity a descriptor reports is its own, and no directory entry is replaced between
  reading its metadata and opening it.
\<close>

definition world_ok :: "world \<Rightarrow> bool" where
  "world_ok w \<longleftrightarrow>
     (\<forall>f m. w_meta w f = Some m \<longrightarrow> m_id m = f)
     \<and> (\<forall>p q m f. (q, Some m) \<in> set (w_siblings w p) \<longrightarrow> w_open w q = Some f \<longrightarrow> f = m_id m)"

lemma find_suffix_sound: "world_ok w \<Longrightarrow> find_suffix w p i xs = Some f \<Longrightarrow> f = i"
  by (induction xs) (auto simp: world_ok_def split: option.splits if_splits)

lemma find_entry_sound:
  "world_ok w \<Longrightarrow> set es \<subseteq> set (w_siblings w p) \<Longrightarrow> find_entry w p i es = Some f \<Longrightarrow> f = i"
proof (induction es)
  case (Cons e es)
  then show ?case
    by (cases e) (auto simp: world_ok_def split: option.splits if_splits)
qed simp

lemma find_entry_complete:
  "(q, Some m) \<in> set es \<Longrightarrow> q \<noteq> p \<Longrightarrow> m_id m = i \<Longrightarrow> w_open w q \<noteq> None \<Longrightarrow> find_entry w p i es \<noteq> None"
proof (induction es)
  case (Cons e es)
  then show ?case by (cases e) (auto split: option.splits)
qed simp

lemma check_and_read_rotated:
  assumes "w_open w (tf_path t) = Some f" and "w_meta w f = Some meta" and "m_id meta \<noteq> tf_id t"
    and "find_rotated_file w t = Some old"
  obtains t' s' where "check_and_read d w opts ml clock t s = (Rotated old, t', s')"
    and "tf_path t' = tf_path t" and "pos t' = pos t" and "ml \<noteq> None \<Longrightarrow> t' = t"
proof -
  obtain t' s' where ts: "(if ml = None then flush_partial d t s else (t, s)) = (t', s')" by fastforce
  have t': "tf_path t' = tf_path t" "tf_id t' = tf_id t" "pos t' = pos t" "ml \<noteq> None \<Longrightarrow> t' = t"
    using ts by (auto simp: flush_partial_def Let_def split: if_splits)
  then have "find_rotated_file w t' = find_rotated_file w t"
    unfolding find_rotated_file_def by (simp only:)
  then have "find_rotated_file w t' = Some old" using assms(4) by simp
  with assms(1-3) ts have "check_and_read d w opts ml clock t s = (Rotated old, t', s')"
    by (simp add: check_and_read_def Let_def)
  then show ?thesis using that t' by blast
qed

section \<open>Properties\<close>

text \<open>
  C4: every reachable state of the tailer's loop (initial discovery, any sequence of polls,
  rescans and saves, any file systems and any iteration order of the maps) satisfies the
  tracking invariant: no identity is tracked twice, a file is stored under its own identity,
  the path index has no dangling entry and points to the file with that path; the adaptive
  interval stays between the catch-up and the maximal interval.
\<close>

theorem tail_invariant:
  assumes "tail_reachable d opts ml st"
  shows "tracked_ok (ts_tracked st) \<and> is_live (ts_sink st)
    \<and> POLL_CATCHUP_MS \<le> ts_interval st \<and> ts_interval st \<le> POLL_MAX_MS"
  using tail_reachable_ok [OF assms] by (simp add: tail_ok_def)

definition demo_world :: world where
  "demo_world =
     \<lparr>w_open = (\<lambda>p. if p = ''/a'' then Some \<lparr>dev = 1, ino = 7\<rparr> else if p = ''/a.1'' then Some \<lparr>dev = 1, ino = 2\<rparr> else None),
      w_meta = (\<lambda>f. Some \<lparr>m_id = f, m_len = 100, m_age = Some 0\<rparr>),
      w_stat = (\<lambda>p. if p = ''/a'' then Some \<lparr>m_id = \<lparr>dev = 1, ino = 7\<rparr>, m_len = 100, m_age = Some 0\<rparr> else None),
      w_head = (\<lambda>_. []), w_read = (\<lambda>_ _. None), w_siblings = (\<lambda>_. [])\<rparr>"

theorem tail_invariant_witness:
  "tracked_ok (ts_tracked (on_glob (\<lambda>_. demo_world) [''/a''] (tail_init (\<lambda>_. demo_world) [] (None, None) demo_sink 0)))"
proof -
  have "tail_reachable ref_deps demo_opts None (on_glob (\<lambda>_. demo_world) [''/a''] (tail_init (\<lambda>_. demo_world) [] (None, None) demo_sink 0))"
    by (rule tail_reachable.step [OF tail_reachable.init tail_step.glob]) (simp add: demo_sink_def is_live_def)
  from tail_invariant [OF this] show ?thesis by simp
qed

text \<open>
  The sleep between polls of a reachable state never busy-loops and never exceeds the
  maximal interval, and a pending multiline record is looked at no later than its timeout
  or the catch-up interval, whichever is later.
\<close>

theorem poll_delay_bounds:
  assumes "tail_reachable d opts ml st"
  shows "POLL_CATCHUP_MS \<le> poll_delay (ts_interval st) p \<and> poll_delay (ts_interval st) p \<le> POLL_MAX_MS
    \<and> (\<forall>r. p = Some r \<longrightarrow> poll_delay (ts_interval st) p \<le> max r POLL_CATCHUP_MS)"
  using tail_reachable_ok [OF assms]
  by (cases p) (auto simp: poll_delay_def tail_ok_def POLL_CATCHUP_MS_def POLL_MAX_MS_def)

theorem poll_delay_bounds_witness:
  "poll_delay (ts_interval (tail_init (\<lambda>_. demo_world) [] (None, None) demo_sink 0)) (Some 120) \<le> 120"
proof -
  have "tail_reachable ref_deps demo_opts None (tail_init (\<lambda>_. demo_world) [] (None, None) demo_sink 0)"
    by (rule tail_reachable.init) (simp add: demo_sink_def is_live_def)
  from poll_delay_bounds [OF this, of "Some 120"] show ?thesis by (simp add: POLL_CATCHUP_MS_def)
qed

text \<open>
  Rename rotation. When the path of a tracked file names another inode and the old file
  is found, one poll keeps the old identity at its offset with a descriptor to drain, tracks
  the new file from offset 0 under the same path, and points the path index to it.
\<close>

theorem rotation_tracks_both:
  assumes "tracked_ok tr" and "map_of (tr_files tr) i = Some t" and "\<not> skip_utf16 t" and "retained_fd t = None"
    and "w_open w (tf_path t) = Some f" and "w_meta w f = Some meta" and "m_id meta \<noteq> i"
    and "find_rotated_file w t = Some old"
    and "w_stat w (tf_path t) = Some meta'" and "map_of (tr_files tr) (m_id meta') = None"
    and "poll_one d opts ml clock w i (tr, s, n) = (tr', s', n')"
  shows "(\<exists>t'. map_of (tr_files tr') i = Some t' \<and> retained_fd t' = Some old \<and> pos t' = pos t \<and> tf_path t' = tf_path t)
    \<and> (\<exists>t'. map_of (tr_files tr') (m_id meta') = Some t' \<and> pos t' = 0 \<and> tf_path t' = tf_path t \<and> partial t' = [])
    \<and> map_of (tr_index tr') (tf_path t) = Some (m_id meta')"
proof -
  have wf: "hash_wf (tr_files tr)" "hash_wf (tr_index tr)" and i: "tf_id t = i"
    using assms(1,2) by (auto simp: tracked_ok_def)
  have ne: "m_id meta' \<noteq> i" using assms(2,10) by auto
  obtain t1 s1 where cr: "check_and_read d w opts ml clock t s = (Rotated old, t1, s1)"
    and t1: "tf_path t1 = tf_path t" "pos t1 = pos t"
    using check_and_read_rotated [OF assms(5,6) _ assms(8)] assms(7) i by metis
  have "tr' = register_file w
      \<lparr>tr_files = AList.update i (t1\<lparr>retained_fd := Some old, open_failures := 0\<rparr>) (tr_files tr),
       tr_index = unindex (tf_path t) i (tr_index tr)\<rparr> (tf_path t) [] (Some 0)"
    using assms(2-4,11) cr t1 by (simp add: poll_one_def)
  then show ?thesis
    using assms(9,10) wf ne t1 by (simp add: register_file_def Let_def map_laws unindex_wf)
qed

definition demo_tracked :: tracked where
  "demo_tracked = \<lparr>tr_files = [(\<lparr>dev = 1, ino = 2\<rparr>, demo_file)], tr_index = [(''/a'', \<lparr>dev = 1, ino = 2\<rparr>)]\<rparr>"

lemma demo_tracked_ok: "tracked_ok demo_tracked"
  by (simp add: demo_tracked_def tracked_ok_def hash_wf_def demo_file_def)

theorem rotation_tracks_both_witness:
  "\<exists>tr' s' n'. poll_one ref_deps demo_opts None id demo_world \<lparr>dev = 1, ino = 2\<rparr> (demo_tracked, demo_sink, 0) = (tr', s', n')
     \<and> map_of (tr_index tr') ''/a'' = Some \<lparr>dev = 1, ino = 7\<rparr>"
proof -
  obtain tr' s' n' where r: "poll_one ref_deps demo_opts None id demo_world \<lparr>dev = 1, ino = 2\<rparr> (demo_tracked, demo_sink, 0) = (tr', s', n')"
    by (metis prod_cases3)
  have lossy: "from_utf8_lossy ''/a'' = ''/a''" by (simp add: from_utf8_lossy_valid utf8_valid_ascii code_def)
  have "find_rotated_file demo_world demo_file = Some \<lparr>dev = 1, ino = 2\<rparr>"
    by (simp add: find_rotated_file_def rotated_suffixes_def demo_file_def demo_world_def lossy)
  with rotation_tracks_both [OF demo_tracked_ok _ _ _ _ _ _ _ _ _ r, of demo_file "\<lparr>dev = 1, ino = 7\<rparr>"
      "\<lparr>m_id = \<lparr>dev = 1, ino = 7\<rparr>, m_len = 100, m_age = Some 0\<rparr>" "\<lparr>dev = 1, ino = 2\<rparr>"
      "\<lparr>m_id = \<lparr>dev = 1, ino = 7\<rparr>, m_len = 100, m_age = Some 0\<rparr>"]
  show ?thesis using r by (auto simp: demo_tracked_def demo_file_def demo_world_def)
qed



text \<open>
  C21: resuming after a restart. If the saved files are representable and the tracked file
  is the only one with its path, then saving, loading and registering the same file again
  (same identity) resumes at the saved offset, or at the end of a file that shrank.
\<close>

theorem resume_after_restart:
  assumes "\<forall>t \<in> set ts. saveable t" and "t \<in> set ts" and "\<forall>t' \<in> set ts. tf_path t' = tf_path t \<longrightarrow> t' = t"
    and "io_create io" and "io_rename io" and "length (offsets_text ts) \<le> io_room io"
    and "w_stat w (tf_path t) = Some meta" and "m_id meta = tf_id t" and "map_of (tr_files tr) (tf_id t) = None"
    and "tracked_ok tr"
  shows "\<exists>t'. map_of (tr_files (register_file w tr (tf_path t) (load_offsets (fst (save_offsets io ts disk))) None)) (tf_id t) = Some t'
    \<and> tf_path t' = tf_path t \<and> pos t' = min (pos t) (m_len meta)"
proof -
  let ?kvs = "rev (map (\<lambda>t. (tf_path t, offset_of t)) ts)"
  have lossy: "from_utf8_lossy (tf_path t) = tf_path t"
    using assms(1,2) from_utf8_lossy_valid by (auto simp: saveable_def)
  have "map_of ?kvs (tf_path t) = Some (offset_of t)"
  proof (rule map_of_eq_if_unique)
    show "(tf_path t, offset_of t) \<in> set ?kvs" using assms(2) by auto
    show "\<forall>v. (tf_path t, v) \<in> set ?kvs \<longrightarrow> v = offset_of t" using assms(3) by auto
  qed
  then have "map_of (load_offsets (fst (save_offsets io ts disk))) (tf_path t) = Some (offset_of t)"
    using saved_lookup [OF assms(1,4,5,6)] by simp
  then have cp: "checkpoint_of (load_offsets (fst (save_offsets io ts disk))) (tf_path t) (tf_id t) = Some (offset_of t)"
    using lossy by (simp add: checkpoint_of_def offset_of_def)
  show ?thesis
    using assms(7-10) cp by (simp add: register_file_def Let_def map_laws tracked_ok_def offset_of_def)
qed

theorem resume_after_restart_witness:
  "\<exists>t'. map_of (tr_files (register_file demo_world \<lparr>tr_files = [], tr_index = []\<rparr> ''/a''
       (load_offsets (fst (save_offsets \<lparr>io_create = True, io_room = 100, io_rename = True\<rparr> [demo_file\<lparr>pos := 40, tf_id := \<lparr>dev = 1, ino = 7\<rparr>\<rparr>] (None, None)))) None))
       \<lparr>dev = 1, ino = 7\<rparr> = Some t' \<and> pos t' = 40"
proof -
  let ?t = "demo_file\<lparr>pos := 40, tf_id := \<lparr>dev = 1, ino = 7\<rparr>\<rparr>"
  have "saveable ?t" by (simp add: saveable_def demo_file_def utf8_valid_ascii code_def)
  moreover have "length (offsets_text [?t]) \<le> 100"
    by (simp add: offsets_text_def offset_line_def demo_file_def show_nat.simps from_utf8_lossy_valid utf8_valid_ascii code_def)
  ultimately show ?thesis
    using resume_after_restart [of "[?t]" ?t "\<lparr>io_create = True, io_room = 100, io_rename = True\<rparr>" demo_world
        "\<lparr>m_id = \<lparr>dev = 1, ino = 7\<rparr>, m_len = 100, m_age = Some 0\<rparr>" "\<lparr>tr_files = [], tr_index = []\<rparr>" "(None, None)"]
    by (auto simp: demo_file_def demo_world_def tracked_ok_empty)
qed

text \<open>
  A limit of the format. While a rotated file is drained, two tracked files share a
  path; when the old one is written last, its line replaces that of the new file, and after
  a restart the new file is resumed at its end: whatever it holds past the lost offset is
  skipped.
\<close>

theorem restart_during_drain_skips:
  assumes "saveable new" and "saveable old" and "tf_path old = tf_path new" and "tf_id old \<noteq> tf_id new"
    and "w_stat w (tf_path new) = Some meta" and "m_id meta = tf_id new"
    and "m_age meta = Some 0"
  shows "\<exists>t'. map_of (tr_files (register_file w \<lparr>tr_files = [], tr_index = []\<rparr> (tf_path new)
      (load_offsets (Some (offsets_text [new, old]))) None)) (tf_id new) = Some t' \<and> pos t' = m_len meta"
proof -
  have "from_utf8_lossy (tf_path new) = tf_path new" using assms(1) from_utf8_lossy_valid by (auto simp: saveable_def)
  moreover have "map_of (load_offsets (Some (offsets_text [new, old]))) (tf_path new) = Some (offset_of old)"
    using assms(1-3) by (simp add: load_save update_conv')
  ultimately have "checkpoint_of (load_offsets (Some (offsets_text [new, old]))) (tf_path new) (tf_id new) = None"
    using assms(4) by (simp add: checkpoint_of_def offset_of_def) (metis file_id.equality old.unit.exhaust)
  then show ?thesis
    using assms(5-7) by (simp add: register_file_def Let_def IGNORE_OLDER_SECS_def)
qed

theorem restart_during_drain_skips_witness:
  "\<exists>t'. map_of (tr_files (register_file demo_world \<lparr>tr_files = [], tr_index = []\<rparr> ''/a''
      (load_offsets (Some (offsets_text [demo_file\<lparr>pos := 5, tf_id := \<lparr>dev = 1, ino = 7\<rparr>\<rparr>, demo_file]))) None))
      \<lparr>dev = 1, ino = 7\<rparr> = Some t' \<and> pos t' = 100"
  using restart_during_drain_skips [of "demo_file\<lparr>pos := 5, tf_id := \<lparr>dev = 1, ino = 7\<rparr>\<rparr>" demo_file demo_world
      "\<lparr>m_id = \<lparr>dev = 1, ino = 7\<rparr>, m_len = 100, m_age = Some 0\<rparr>"]
  by (simp add: saveable_def demo_file_def demo_world_def utf8_valid_ascii code_def)

text \<open>
  Copytruncate in single-line mode. When the file is shorter than the offset, the poll
  flushes the partial line and reads the new contents from offset 0: afterwards the sink
  holds exactly the complete lines of the new contents before the new offset.
\<close>

theorem truncation_restarts:
  assumes "memchr_ok d" and "simd_ok d" and "is_live s" and "len < pos t" and "0 < len"
    and "w_read w f 0 = Some r" and "reader_valid [] r" and "prefix (reader_all r) content"
    and "\<forall>l \<in> set (split_char NL content). length l \<le> MAX_PARTIAL_BYTES"
    and "flush_partial d (t\<lparr>pos := 0\<rparr>) s = (t1, s1)"
    and "read_current d w opts None clock f len t s = (res, t', s')"
  shows "shipped d opts 0 (delivered s1) content t' s'"
proof -
  have t1: "pos t1 = 0" "partial t1 = []"
    using assms(10) by (auto simp: flush_partial_def Let_def split: if_splits)
  have live: "is_live s1" using flush_partial_keeps [OF assms(10)] assms(3) by (simp add: keeps_def)
  obtain n where rd: "read_lines d opts (Some r) t1 s1 = (t', s', n)"
    using assms(4-6,10,11) t1 by (auto simp: read_current_def Let_def split: prod.splits if_splits)
  then obtain stp where "tail_loop d opts r t1 s1 0 0 = (stp, t', s', n)"
    by (auto simp: read_lines_def split: prod.splits)
  from tail_loop_shipped [OF assms(1,2,7) _ assms(9) _ this, of 0 "delivered s1"] assms(8) t1
    shipped_start [OF live t1(2,1)] show ?thesis by simp
qed

theorem truncation_restarts_witness:
  "\<exists>s1 t' s' res. read_current ref_deps (demo_world\<lparr>w_read := (\<lambda>_ _. Some [Chunk ''b''])\<rparr>) demo_opts None id
       \<lparr>dev = 1, ino = 2\<rparr> 1 (demo_file\<lparr>pos := 9\<rparr>) demo_sink = (res, t', s')
     \<and> shipped ref_deps demo_opts 0 (delivered s1) ''b'' t' s'"
proof -
  let ?w = "demo_world\<lparr>w_read := (\<lambda>_ _. Some [Chunk ''b''])\<rparr>"
  obtain res t' s' where r: "read_current ref_deps ?w demo_opts None id \<lparr>dev = 1, ino = 2\<rparr> 1 (demo_file\<lparr>pos := 9\<rparr>) demo_sink = (res, t', s')"
    by (metis prod_cases3)
  obtain t1 s1 where f: "flush_partial ref_deps (demo_file\<lparr>pos := 9, pos := 0\<rparr>) demo_sink = (t1, s1)" by fastforce
  have "shipped ref_deps demo_opts 0 (delivered s1) ''b'' t' s'"
    by (rule truncation_restarts [OF ref_deps_ok(1,2) _ _ _ _ _ _ _ f r, of "[Chunk ''b'']"])
      (simp_all add: demo_sink_def is_live_def demo_file_def utf8_valid_ascii code_def MAX_PARTIAL_BYTES_def)
  with r show ?thesis by blast
qed

end
