(* ===== verification/Source.thy ===== *)
theory Source
  imports Sink
begin

text \<open>
  \<open>src/logs/source.rs\<close>: the atomic checkpoint write and the restart delay, with the contract
  the journald, unified-log and Event Log sources share (a locale): an entry the channel
  refuses changes nothing, an entry that is handled is delivered exactly once.
\<close>

section \<open>Checkpoints\<close>

text \<open>
  What the file system does during one write: creation of the temporary file, the bytes it
  takes, \<open>fsync\<close> and the rename.
\<close>

record checkpoint_io =
  ck_create :: bool
  ck_room :: nat
  ck_sync :: bool
  ck_rename :: bool

definition write_checkpoint ::
    "checkpoint_io \<Rightarrow> string \<Rightarrow> string option \<times> string option \<Rightarrow> string option \<times> string option" where
  "write_checkpoint io bytes disk =
     (case disk of (target, tmp) \<Rightarrow>
        if \<not> ck_create io then (target, tmp)
        else (let written = take (ck_room io) bytes in
              if length bytes \<le> ck_room io \<and> ck_sync io
              then (if ck_rename io then (Some bytes, None) else (target, Some bytes))
              else (target, Some written)))"

definition next_backoff :: "nat \<Rightarrow> nat \<Rightarrow> nat" where
  "next_backoff current cap = min (current * 2) cap"

lemma write_checkpoint_cases: "fst (write_checkpoint io bytes disk) \<in> {fst disk, Some bytes}"
  by (cases disk) (auto simp: write_checkpoint_def Let_def)

lemma next_backoff_iter:
  "c \<le> cap \<Longrightarrow> ((\<lambda>b. next_backoff b cap) ^^ n) c = min (c * 2 ^ n) cap"
  by (induction n) (auto simp: next_backoff_def min_def)

section \<open>Entry sources\<close>

datatype 'c outcome = Handled 'c | ChannelFull | ParseFailed

text \<open>
  The retry loop of every source: an entry is processed until it is not refused; while it is
  refused the source sleeps (\<open>True\<close>) unless it is cancelled (\<open>False\<close>). \<open>None\<close>: the list of
  waits is exhausted and the source still waits.
\<close>

fun retry :: "('s \<Rightarrow> 'c outcome \<times> 's) \<Rightarrow> bool list \<Rightarrow> 's \<Rightarrow> ('c outcome option \<times> 's) option" where
  "retry process [] s =
     (case process s of (ChannelFull, s') \<Rightarrow> None | (r, s') \<Rightarrow> Some (Some r, s'))"
| "retry process (w # ws) s =
     (case process s of
        (ChannelFull, s') \<Rightarrow> if w then retry process ws s' else Some (None, s')
      | (r, s') \<Rightarrow> Some (Some r, s'))"

lemma retry_accepted:
  "fst (process s) \<noteq> ChannelFull \<Longrightarrow> retry process ws s = Some (Some (fst (process s)), snd (process s))"
  by (cases ws; cases "process s"; cases "fst (process s)") auto

text \<open>The position after a list of lines: that of the last line that has one.\<close>

definition position_after :: "('l \<Rightarrow> 'c option) \<Rightarrow> 'c option \<Rightarrow> 'l list \<Rightarrow> 'c option" where
  "position_after position_of c ls =
     foldl (\<lambda>c l. case position_of l of None \<Rightarrow> c | Some p \<Rightarrow> Some p) c ls"

text \<open>
  The contract of a run: exactly the entries of the lines \<open>seen\<close> were sent, the position is
  that after these lines, and the persisted position is the initial one or one that was
  reached after a prefix of them, so that a restart never skips an entry.
\<close>

definition run_ok ::
    "('s \<Rightarrow> 'e list) \<Rightarrow> ('s \<Rightarrow> bool) \<Rightarrow> ('l \<Rightarrow> 'e list) \<Rightarrow> ('l \<Rightarrow> 'c option) \<Rightarrow>
       'e list \<Rightarrow> 'c option \<Rightarrow> 'd \<Rightarrow> ('c \<Rightarrow> 'd) \<Rightarrow> 'l list \<Rightarrow> 'c option \<Rightarrow> 'd \<Rightarrow> 's \<Rightarrow> bool" where
  "run_ok sent live entries position_of base c0 d0 encode seen c d s \<longleftrightarrow>
     live s \<and> sent s = base @ concat (map entries seen) \<and> c = position_after position_of c0 seen
     \<and> (d = d0 \<or> (\<exists>k \<le> length seen. \<exists>p. position_after position_of c0 (take k seen) = Some p \<and> d = encode p))"

lemma position_after_snoc:
  "position_after f c (ls @ [l]) = (case f l of None \<Rightarrow> position_after f c ls | Some p \<Rightarrow> Some p)"
  by (cases "f l") (simp_all add: position_after_def)

locale entry_source =
  fixes process :: "'l \<Rightarrow> 's \<Rightarrow> 'c option outcome \<times> 's"
    and sent :: "'s \<Rightarrow> 'e list"
    and live :: "'s \<Rightarrow> bool"
    and entries :: "'l \<Rightarrow> 'e list"
    and position_of :: "'l \<Rightarrow> 'c option"
  assumes full: "live s \<Longrightarrow> process l s = (ChannelFull, s') \<Longrightarrow> live s' \<and> sent s' = sent s"
    and handled: "live s \<Longrightarrow> process l s = (Handled c, s') \<Longrightarrow>
      live s' \<and> sent s' = sent s @ entries l \<and> c = position_of l"
    and failed: "live s \<Longrightarrow> process l s = (ParseFailed, s') \<Longrightarrow>
      live s' \<and> sent s' = sent s \<and> entries l = [] \<and> position_of l = None"
begin

lemma retry_sent:
  "live s \<Longrightarrow> retry (process l) ws s = Some (r, s') \<Longrightarrow>
     live s' \<and> (case r of
       None \<Rightarrow> sent s' = sent s
     | Some (Handled c) \<Rightarrow> sent s' = sent s @ entries l \<and> c = position_of l
     | Some ParseFailed \<Rightarrow> sent s' = sent s @ entries l \<and> position_of l = None
     | Some ChannelFull \<Rightarrow> False)"
proof (induction ws arbitrary: s)
  case Nil
  obtain q s1 where q: "process l s = (q, s1)" by fastforce
  with Nil handled [OF Nil(1)] failed [OF Nil(1)] show ?case by (cases q) auto
next
  case (Cons w ws)
  obtain q s1 where q: "process l s = (q, s1)" by fastforce
  show ?case
  proof (cases q)
    case (Handled c)
    with Cons(3) q handled [OF Cons(2)] show ?thesis by auto
  next
    case ChannelFull
    note f = full [OF Cons(2) q [unfolded ChannelFull]]
    with Cons(3) q ChannelFull Cons.IH [of s1] show ?thesis
      by (cases w) (auto split: option.splits outcome.splits)
  next
    case ParseFailed
    with Cons(3) q failed [OF Cons(2)] show ?thesis by auto
  qed
qed

abbreviation run :: "'e list \<Rightarrow> 'c option \<Rightarrow> 'd \<Rightarrow> ('c \<Rightarrow> 'd) \<Rightarrow> 'l list \<Rightarrow> 'c option \<Rightarrow> 'd \<Rightarrow> 's \<Rightarrow> bool" where
  "run \<equiv> run_ok sent live entries position_of"

lemma run_ok_start: "live s \<Longrightarrow> run (sent s) c0 d0 encode [] c0 d0 s"
  by (simp add: run_ok_def position_after_def)

lemma run_ok_line:
  assumes "run base c0 d0 encode seen c d s" and "live s'" and "sent s' = sent s @ entries l"
  shows "run base c0 d0 encode (seen @ [l]) (case position_of l of None \<Rightarrow> c | Some p \<Rightarrow> Some p) d s'"
  using assms unfolding run_ok_def by (auto simp: position_after_snoc intro: le_SucI exI)

lemma run_ok_cancel:
  assumes "run base c0 d0 encode seen c d s" and "live s'" and "sent s' = sent s"
  shows "run base c0 d0 encode seen c d s'"
  using assms by (simp add: run_ok_def)

lemma run_ok_save:
  assumes "run base c0 d0 encode seen c d s" and "c = None \<Longrightarrow> d' = d"
    and "\<And>p. c = Some p \<Longrightarrow> d' \<in> {d, encode p}"
  shows "run base c0 d0 encode seen c d' s"
proof (cases c)
  case None
  with assms show ?thesis by simp
next
  case (Some p)
  with assms(1) have "position_after position_of c0 (take (length seen) seen) = Some p" by (simp add: run_ok_def)
  then have new: "run base c0 d0 encode seen c (encode p) s" using assms(1) unfolding run_ok_def by blast
  from assms(3) [OF Some] consider "d' = d" | "d' = encode p" by blast
  then show ?thesis by cases (simp_all add: assms(1) new)
qed

end

section \<open>Properties\<close>

text \<open>
  C20: the checkpoint write is atomic: afterwards the checkpoint file holds the previous
  contents or exactly the new bytes, whatever fails, and the new bytes when nothing does.
\<close>

theorem write_checkpoint_atomic:
  "fst (write_checkpoint io bytes disk) \<in> {fst disk, Some bytes}
   \<and> (ck_create io \<and> length bytes \<le> ck_room io \<and> ck_sync io \<and> ck_rename io
      \<longrightarrow> write_checkpoint io bytes disk = (Some bytes, None))"
  using write_checkpoint_cases [of io bytes disk]
  by (cases disk) (auto simp: write_checkpoint_def)

theorem write_checkpoint_atomic_witness:
  "write_checkpoint \<lparr>ck_create = True, ck_room = 9, ck_sync = True, ck_rename = True\<rparr> ''new'' (Some ''old'', None) = (Some ''new'', None)"
  using write_checkpoint_atomic [of "\<lparr>ck_create = True, ck_room = 9, ck_sync = True, ck_rename = True\<rparr>" "''new''" "(Some ''old'', None)"]
  by simp

text \<open>
  The restart delay after \<open>n\<close> failures is the first delay doubled \<open>n\<close> times, clamped to
  the maximum.
\<close>

theorem backoff_closed_form:
  assumes "c \<le> cap"
  shows "((\<lambda>b. next_backoff b cap) ^^ n) c = min (c * 2 ^ n) cap"
  by (rule next_backoff_iter [OF assms])

theorem backoff_closed_form_witness: "((\<lambda>b. next_backoff b 30) ^^ 5) 1 = 30"
  using backoff_closed_form [of 1 30 5] by simp

end
