(* ===== verification/Journal.thy ===== *)
theory Journal
  imports Source Structured_Props
begin

text \<open>
  \<open>src/logs/journal.rs\<close>: the systemd-journald source. One subprocess run is a list of events
  (a line with the waits it meets, end of stream, read error, cancellation); the cursor file
  is the target of the checkpoint writes.
\<close>

section \<open>Entries\<close>

definition JOURNAL_MAX_LINE_LEN :: nat where "JOURNAL_MAX_LINE_LEN = 256 * 1024"
definition CURSOR_SAVE_INTERVAL :: nat where "CURSOR_SAVE_INTERVAL = 100"
definition SELF_IDENTIFIER :: string where "SELF_IDENTIFIER = ''witness''"

record service_filter =
  sf_include :: "string list"
  sf_exclude :: "string list"

definition service_excludes :: "service_filter \<Rightarrow> string \<Rightarrow> bool" where
  "service_excludes f prog \<longleftrightarrow>
     prog \<in> set (sf_exclude f) \<or> (sf_include f \<noteq> [] \<and> prog \<notin> set (sf_include f))"

record journal_entry =
  je_message :: "string option"
  je_syslog_identifier :: "string option"
  je_comm :: "string option"
  je_priority :: "string option"
  je_cursor :: "string option"
  je_extras :: "(string, json) hash_map"

text \<open>
  The generated \<open>Deserialize\<close>: a field of type \<open>Option<String>\<close> is absent, null or a string;
  another type, or the same field twice, is an error. The other members go to the flattened
  map, the last of equal keys winning.
\<close>

definition member_values :: "string \<Rightarrow> (string \<times> json) list \<Rightarrow> json list" where
  "member_values k ms = map snd (filter (\<lambda>(k', _). k' = k) ms)"

definition opt_string_field :: "string \<Rightarrow> (string \<times> json) list \<Rightarrow> string option option" where
  "opt_string_field k ms =
     (case member_values k ms of
        [] \<Rightarrow> Some None
      | [JNull] \<Rightarrow> Some None
      | [JString s] \<Rightarrow> Some (Some s)
      | _ \<Rightarrow> None)"

definition flatten_extras :: "string list \<Rightarrow> (string \<times> json) list \<Rightarrow> (string, json) hash_map" where
  "flatten_extras named ms =
     fold (\<lambda>(k, v). AList.update k v) (filter (\<lambda>(k, _). k \<notin> set named) ms) []"

definition JOURNAL_FIELDS :: "string list" where
  "JOURNAL_FIELDS = [''MESSAGE'', ''SYSLOG_IDENTIFIER'', ''_COMM'', ''PRIORITY'', ''__CURSOR'']"

definition journal_of_members :: "(string \<times> json) list \<Rightarrow> journal_entry option" where
  "journal_of_members ms =
     (case (opt_string_field ''MESSAGE'' ms, opt_string_field ''SYSLOG_IDENTIFIER'' ms,
            opt_string_field ''_COMM'' ms, opt_string_field ''PRIORITY'' ms,
            opt_string_field ''__CURSOR'' ms) of
        (Some m, Some si, Some cm, Some pr, Some cu) \<Rightarrow>
          Some \<lparr>je_message = m, je_syslog_identifier = si, je_comm = cm, je_priority = pr,
                je_cursor = cu, je_extras = flatten_extras JOURNAL_FIELDS ms\<rparr>
      | _ \<Rightarrow> None)"

definition journal_parse :: "deps \<Rightarrow> string \<Rightarrow> journal_entry option" where
  "journal_parse d line =
     (case serde_members d (trim line) of None \<Rightarrow> None | Some ms \<Rightarrow> journal_of_members ms)"

section \<open>Payload and level\<close>

definition SYSTEMD_META_DENYLIST :: "string list" where
  "SYSTEMD_META_DENYLIST = [''SYSLOG_FACILITY'', ''SYSLOG_PID'', ''SYSLOG_RAW'']"

definition app_fields_payload :: "deps \<Rightarrow> (string, json) hash_map \<Rightarrow> json option" where
  "app_fields_payload d extras =
     (let obj = fold (\<lambda>(k, v) m. if starts_with k ''_'' \<or> k \<in> set SYSTEMD_META_DENYLIST then m
                               else bt_insert (to_lowercase d k) v m) extras []
      in if obj = [] then None else Some (JObject obj))"

definition merge_payloads :: "deps \<Rightarrow> (string, json) hash_map \<Rightarrow> json option \<Rightarrow> json option" where
  "merge_payloads d extras parsed =
     (case (app_fields_payload d extras, parsed) of
        (None, None) \<Rightarrow> None
      | (Some m, None) \<Rightarrow> Some m
      | (None, Some p) \<Rightarrow> Some p
      | (Some (JObject m), Some (JObject p)) \<Rightarrow> Some (JObject (fold (\<lambda>(k, v). bt_insert k v) p m))
      | (Some m, Some _) \<Rightarrow> Some m)"

definition priority_levels :: "(string \<times> log_level) list" where
  "priority_levels =
     [(''0'', Emergency), (''1'', Alert), (''2'', Critical), (''3'', Error),
      (''4'', Warning), (''5'', Notice), (''6'', Info), (''7'', Debug)]"

definition priority_to_level :: "string \<Rightarrow> log_level option" where
  "priority_to_level p = map_of priority_levels p"

section \<open>Processing one entry\<close>

definition journal_program :: "journal_entry \<Rightarrow> string" where
  "journal_program e =
     (case je_syslog_identifier e of Some p \<Rightarrow> p
      | None \<Rightarrow> (case je_comm e of Some p \<Rightarrow> p | None \<Rightarrow> ''unknown''))"

definition journal_level :: "journal_entry \<Rightarrow> log_level" where
  "journal_level e =
     (case je_priority e of None \<Rightarrow> Info
      | Some p \<Rightarrow> (case priority_to_level p of None \<Rightarrow> Info | Some l \<Rightarrow> l))"

definition journal_process_entry ::
    "deps \<Rightarrow> service_filter \<Rightarrow> string \<Rightarrow> sink \<Rightarrow> string option outcome \<times> sink" where
  "journal_process_entry d flt json_line s =
     (case journal_parse d json_line of
        None \<Rightarrow> (ParseFailed, s)
      | Some e \<Rightarrow>
          (case je_message e of
             None \<Rightarrow> (Handled (je_cursor e), s)
           | Some message \<Rightarrow>
               if message = [] then (Handled (je_cursor e), s)
               else if journal_program e = SELF_IDENTIFIER then (Handled (je_cursor e), s)
               else if service_excludes flt (journal_program e) then (Handled (je_cursor e), s)
               else (let (bdy, parsed_fields) = split_message d message;
                         payload = merge_payloads d (je_extras e) parsed_fields
                     in case try_log_with_service d s
                               \<lparr>le_level = journal_level e, le_message = bdy, le_component = None,
                                le_service = Some (journal_program e), le_payload = payload\<rparr> of
                          (False, s') \<Rightarrow> (ChannelFull, s')
                        | (True, s') \<Rightarrow> (Handled (je_cursor e), s'))))"

section \<open>The reader\<close>

record reader_state =
  last_cursor :: "string option"
  entries_since_save :: nat
  dropped :: nat

definition reader_state_new :: "string option \<Rightarrow> reader_state" where
  "reader_state_new c = \<lparr>last_cursor = c, entries_since_save = 0, dropped = 0\<rparr>"

type_synonym disk = "string option \<times> string option"

definition load_cursor :: "disk \<Rightarrow> string option" where
  "load_cursor disk =
     (case fst disk of
        None \<Rightarrow> None
      | Some s \<Rightarrow> if utf8_valid s \<and> trim s \<noteq> [] then Some (trim s) else None)"

definition save_cursor :: "checkpoint_io \<Rightarrow> string option \<Rightarrow> disk \<Rightarrow> disk" where
  "save_cursor io c disk = (case c of None \<Rightarrow> disk | Some x \<Rightarrow> write_checkpoint io x disk)"

text \<open>
  \<open>handle_entry\<close>: the retry loop and the bookkeeping of its result; the boolean is the
  return value, \<open>None\<close> means it still waits.
\<close>

definition handle_entry ::
    "deps \<Rightarrow> service_filter \<Rightarrow> string \<Rightarrow> bool list \<Rightarrow> checkpoint_io \<Rightarrow>
       reader_state \<times> disk \<times> sink \<Rightarrow> (bool \<times> reader_state \<times> disk \<times> sink) option" where
  "handle_entry d flt line waits io st =
     (case st of (rs, disk, s) \<Rightarrow>
      case retry (journal_process_entry d flt line) waits s of
        None \<Rightarrow> None
      | Some (None, s') \<Rightarrow> Some (False, rs, disk, s')
      | Some (Some (Handled cursor), s') \<Rightarrow>
          (let rs1 = rs\<lparr>last_cursor := (case cursor of Some c \<Rightarrow> Some c | None \<Rightarrow> last_cursor rs),
                        entries_since_save := entries_since_save rs + 1\<rparr>
           in if CURSOR_SAVE_INTERVAL \<le> entries_since_save rs1
              then Some (True, rs1\<lparr>entries_since_save := 0\<rparr>, save_cursor io (last_cursor rs1) disk, s')
              else Some (True, rs1, disk, s'))
      | Some (Some ParseFailed, s') \<Rightarrow> Some (True, rs\<lparr>dropped := dropped rs + 1\<rparr>, disk, s')
      | Some (Some ChannelFull, s') \<Rightarrow> None)"

datatype source_event =
  Ev_Line string "bool list" checkpoint_io
| Ev_Eof checkpoint_io
| Ev_Error checkpoint_io
| Ev_Cancel checkpoint_io

datatype loop_exit = Exit_Cancelled | Exit_Failed | Exit_Running

text \<open>The loop of \<open>run_journalctl\<close> from the moment the subprocess is running.\<close>

fun journal_loop ::
    "deps \<Rightarrow> service_filter \<Rightarrow> source_event list \<Rightarrow> reader_state \<times> disk \<times> sink \<Rightarrow>
       loop_exit \<times> reader_state \<times> disk \<times> sink" where
  "journal_loop d flt [] st = (Exit_Running, st)"
| "journal_loop d flt (Ev_Cancel io # es) (rs, disk, s) =
     (Exit_Cancelled, rs, save_cursor io (last_cursor rs) disk, s)"
| "journal_loop d flt (Ev_Eof io # es) (rs, disk, s) =
     (Exit_Failed, rs, save_cursor io (last_cursor rs) disk, s)"
| "journal_loop d flt (Ev_Error io # es) (rs, disk, s) =
     (Exit_Failed, rs, save_cursor io (last_cursor rs) disk, s)"
| "journal_loop d flt (Ev_Line line waits io # es) (rs, disk, s) =
     (if JOURNAL_MAX_LINE_LEN < length line then journal_loop d flt es (rs, disk, s)
      else (case handle_entry d flt line waits io (rs, disk, s) of
              None \<Rightarrow> (Exit_Running, rs, disk, s)
            | Some (False, rs', disk', s') \<Rightarrow>
                (Exit_Cancelled, rs', save_cursor io (last_cursor rs') disk', s')
            | Some (True, rs', disk', s') \<Rightarrow> journal_loop d flt es (rs', disk', s')))"

text \<open>\<open>run_journalctl\<close>; \<open>spawned\<close> says whether the subprocess and its pipe are there.\<close>

definition run_journalctl ::
    "deps \<Rightarrow> service_filter \<Rightarrow> bool \<Rightarrow> source_event list \<Rightarrow> disk \<times> sink \<Rightarrow> loop_exit \<times> disk \<times> sink" where
  "run_journalctl d flt spawned es st =
     (case st of (disk, s) \<Rightarrow>
        if \<not> spawned then (Exit_Failed, disk, s)
        else (case journal_loop d flt es (reader_state_new (load_cursor disk), disk, s) of
                (x, rs, disk', s') \<Rightarrow> (x, disk', s')))"

text \<open>The arguments of the subprocess: the resume position is the cursor.\<close>

definition journalctl_args :: "string option \<Rightarrow> string list" where
  "journalctl_args cursor =
     [''--output=json'', ''--follow'', ''--no-pager'']
     @ (case cursor of Some c \<Rightarrow> [''--after-cursor='' @ c] | None \<Rightarrow> [''--lines=0''])"

section \<open>Restarts\<close>

definition MAX_BACKOFF :: nat where "MAX_BACKOFF = 30 * 1000"

text \<open>
  One attempt of \<open>tail_journal\<close>: whether \<open>journalctl\<close> starts, what happens while it runs, the
  cancellation flag after it ended, and whether the sleep before the next attempt elapses.
\<close>

record journal_attempt =
  ja_spawned :: bool
  ja_events :: "source_event list"
  ja_cancelled :: bool
  ja_slept :: bool

text \<open>The result is how the watcher ends, the delays it slept, the cursor file and the sink.\<close>

fun tail_journal_from ::
    "deps \<Rightarrow> service_filter \<Rightarrow> journal_attempt list \<Rightarrow> nat \<Rightarrow> disk \<times> sink \<Rightarrow> loop_exit \<times> nat list \<times> disk \<times> sink" where
  "tail_journal_from d flt [] backoff st = (Exit_Running, [], st)"
| "tail_journal_from d flt (a # as) backoff st =
     (case run_journalctl d flt (ja_spawned a) (ja_events a) st of
        (Exit_Running, st') \<Rightarrow> (Exit_Running, [], st')
      | (Exit_Cancelled, st') \<Rightarrow> (Exit_Cancelled, [], st')
      | (Exit_Failed, st') \<Rightarrow>
          if ja_cancelled a then (Exit_Cancelled, [], st')
          else if \<not> ja_slept a then (Exit_Cancelled, [backoff], st')
          else (case tail_journal_from d flt as (next_backoff backoff MAX_BACKOFF) st' of
                  (x, delays, st'') \<Rightarrow> (x, backoff # delays, st'')))"

definition tail_journal ::
    "deps \<Rightarrow> service_filter \<Rightarrow> journal_attempt list \<Rightarrow> disk \<times> sink \<Rightarrow> loop_exit \<times> nat list \<times> disk \<times> sink" where
  "tail_journal d flt as st = tail_journal_from d flt as 1000 st"

end
