(* ===== verification/Journal_Props.thy ===== *)
theory Journal_Props
  imports Journal
begin

text \<open>
  The journald source meets the contract of an entry source, and a run never loses or
  repeats an entry relative to its cursor.
\<close>

section \<open>The interface\<close>

definition journal_entries :: "deps \<Rightarrow> service_filter \<Rightarrow> string \<Rightarrow> log_entry list" where
  "journal_entries d flt line =
     (case journal_parse d line of
        None \<Rightarrow> []
      | Some e \<Rightarrow>
          (case je_message e of
             None \<Rightarrow> []
           | Some m \<Rightarrow>
               if m = [] \<or> journal_program e = SELF_IDENTIFIER \<or> service_excludes flt (journal_program e) then []
               else [\<lparr>le_level = journal_level e, le_message = fst (split_message d m), le_component = None,
                      le_service = Some (journal_program e),
                      le_payload = merge_payloads d (je_extras e) (snd (split_message d m))\<rparr>]))"

definition journal_cursor :: "deps \<Rightarrow> string \<Rightarrow> string option" where
  "journal_cursor d line = (case journal_parse d line of None \<Rightarrow> None | Some e \<Rightarrow> je_cursor e)"

lemma journal_process_cases:
  assumes "is_live s" and "journal_process_entry d flt l s = (r, s')"
  shows "(r = ChannelFull \<and> is_live s' \<and> delivered s' = delivered s)
    \<or> (r = Handled (journal_cursor d l) \<and> is_live s' \<and> delivered s' = delivered s @ journal_entries d flt l)
    \<or> (r = ParseFailed \<and> s' = s \<and> journal_entries d flt l = [] \<and> journal_cursor d l = None)"
proof -
  note law = tell_channel.send_sent [OF assms(1)] tell_channel.send_live [OF assms(1)]
  show ?thesis
  proof (cases "journal_entries d flt l")
    case Nil
    with assms show ?thesis
      by (auto simp: journal_process_entry_def journal_entries_def journal_cursor_def Let_def
          split: option.splits if_splits)
  next
    case (Cons e es)
    obtain ok s1 where s1: "try_log_with_service d s e = (ok, s1)" by fastforce
    from Cons assms(2) s1 law [OF s1] show ?thesis
      by (cases ok) (auto simp: journal_process_entry_def journal_entries_def journal_cursor_def Let_def
          split: option.splits if_splits prod.splits)
  qed
qed

interpretation journal_src:
  entry_source "journal_process_entry d flt" delivered is_live "journal_entries d flt" "journal_cursor d" for d flt
proof unfold_locales
  fix s l s' c
  assume live: "is_live s"
  { assume "journal_process_entry d flt l s = (ChannelFull, s')"
    from journal_process_cases [OF live this] show "is_live s' \<and> delivered s' = delivered s" by simp }
  { assume "journal_process_entry d flt l s = (Handled c, s')"
    from journal_process_cases [OF live this]
    show "is_live s' \<and> delivered s' = delivered s @ journal_entries d flt l \<and> c = journal_cursor d l" by simp }
  { assume "journal_process_entry d flt l s = (ParseFailed, s')"
    from journal_process_cases [OF live this] live
    show "is_live s' \<and> delivered s' = delivered s \<and> journal_entries d flt l = [] \<and> journal_cursor d l = None" by simp }
qed

section \<open>Runs\<close>

abbreviation journal_run_ok where
  "journal_run_ok d flt \<equiv> run_ok delivered is_live (journal_entries d flt) (journal_cursor d)"

lemma save_cursor_run_ok:
  "journal_run_ok d flt base c0 d0 Some seen c (fst disk) s \<Longrightarrow>
     journal_run_ok d flt base c0 d0 Some seen c (fst (save_cursor io c disk)) s"
  by (erule journal_src.run_ok_save) (use write_checkpoint_cases in \<open>auto simp: save_cursor_def\<close>)

lemma handle_entry_run_ok:
  assumes "journal_run_ok d flt base c0 d0 Some seen (last_cursor rs) (fst disk) s"
    and "handle_entry d flt line waits io (rs, disk, s) = Some (ok, rs', disk', s')"
  shows "journal_run_ok d flt base c0 d0 Some (if ok then seen @ [line] else seen) (last_cursor rs') (fst disk') s'"
proof -
  have live: "is_live s" using assms(1) by (simp add: run_ok_def)
  obtain r s1 where r: "retry (journal_process_entry d flt line) waits s = Some (r, s1)"
    using assms(2) by (auto simp: handle_entry_def split: option.splits)
  note sent = journal_src.retry_sent [OF live r]
  show ?thesis
  proof (cases r)
    case None
    with assms r sent show ?thesis
      by (auto simp: handle_entry_def intro: journal_src.run_ok_cancel)
  next
    case (Some q)
    then have line: "journal_run_ok d flt base c0 d0 Some (seen @ [line])
        (case journal_cursor d line of None \<Rightarrow> last_cursor rs | Some p \<Rightarrow> Some p) (fst disk) s1"
      using journal_src.run_ok_line [OF assms(1), of s1 line] sent by (cases q) auto
    show ?thesis
      using assms(2) r Some sent line save_cursor_run_ok [OF line, of io]
      by (cases q) (auto simp: handle_entry_def Let_def split: if_splits option.splits)
  qed
qed

lemma journal_process_accepting:
  "accepting d \<Longrightarrow> is_live s \<Longrightarrow> fst (journal_process_entry d flt l s) \<noteq> ChannelFull"
  by (auto simp: journal_process_entry_def Let_def dest: try_log_accepting split: option.splits prod.splits bool.splits)

lemma handle_entry_accepting:
  assumes "accepting d" and "is_live s"
  shows "map_option fst (handle_entry d flt line waits io (rs, disk, s)) = Some True"
proof -
  note acc = journal_process_accepting [OF assms, of flt line]
  then show ?thesis
    using retry_accepted [of "journal_process_entry d flt line" s waits, OF acc]
    by (cases "fst (journal_process_entry d flt line s)") (auto simp: handle_entry_def Let_def)
qed

text \<open>
  The lines of a list of events that are not skipped for their length, and those of them that
  come before the stream ends, fails or is cancelled.
\<close>

definition event_lines :: "nat \<Rightarrow> source_event list \<Rightarrow> string list" where
  "event_lines cap es = concat (map (\<lambda>e. case e of Ev_Line l ws io \<Rightarrow> if cap < length l then [] else [l] | _ \<Rightarrow> []) es)"

fun arrived_lines :: "nat \<Rightarrow> source_event list \<Rightarrow> string list" where
  "arrived_lines cap [] = []"
| "arrived_lines cap (Ev_Line l ws io # es) = (if cap < length l then [] else [l]) @ arrived_lines cap es"
| "arrived_lines cap (e # es) = []"

lemma journal_loop_run_ok:
  "journal_loop d flt es (rs, disk, s) = (x, rs', disk', s') \<Longrightarrow>
     journal_run_ok d flt base c0 d0 Some seen (last_cursor rs) (fst disk) s \<Longrightarrow>
     \<exists>more. prefix more (event_lines JOURNAL_MAX_LINE_LEN es)
       \<and> (accepting d \<longrightarrow> more = arrived_lines JOURNAL_MAX_LINE_LEN es)
       \<and> journal_run_ok d flt base c0 d0 Some (seen @ more) (last_cursor rs') (fst disk') s'"
proof (induction es arbitrary: rs disk s seen)
  case Nil
  then show ?case by (intro exI [of _ "[]"]) simp
next
  case (Cons e es)
  have live: "is_live s" using Cons.prems(2) by (simp add: run_ok_def)
  have stop: ?case if "rs' = rs" "disk' = save_cursor io (last_cursor rs) disk" "s' = s"
    "arrived_lines JOURNAL_MAX_LINE_LEN (e # es) = []" for io
    using that save_cursor_run_ok [OF Cons.prems(2)] by (intro exI [of _ "[]"]) simp
  show ?case
  proof (cases e)
    case (Ev_Line line waits io)
    show ?thesis
    proof (cases "JOURNAL_MAX_LINE_LEN < length line")
      case True
      with Cons Ev_Line show ?thesis by (simp add: event_lines_def)
    next
      case False
      then have ev: "event_lines JOURNAL_MAX_LINE_LEN (e # es) = line # event_lines JOURNAL_MAX_LINE_LEN es"
        by (simp add: event_lines_def Ev_Line)
      show ?thesis
      proof (cases "handle_entry d flt line waits io (rs, disk, s)")
        case None
        then have "\<not> accepting d" using handle_entry_accepting [OF _ live, of d flt line waits io rs disk] by auto
        with None Cons.prems Ev_Line False show ?thesis by (intro exI [of _ "[]"]) simp
      next
        case (Some res)
        obtain ok rs1 disk1 s1 where res: "res = (ok, rs1, disk1, s1)" by (metis prod_cases4)
        note h = handle_entry_run_ok [OF Cons.prems(2) Some [unfolded res]]
        show ?thesis
        proof (cases ok)
          case True
          with Cons.prems(1) Ev_Line False Some res
          have "journal_loop d flt es (rs1, disk1, s1) = (x, rs', disk', s')" by simp
          from Cons.IH [OF this, of "seen @ [line]"] h True obtain more
            where "prefix more (event_lines JOURNAL_MAX_LINE_LEN es)"
              "accepting d \<longrightarrow> more = arrived_lines JOURNAL_MAX_LINE_LEN es"
              "journal_run_ok d flt base c0 d0 Some (seen @ [line] @ more) (last_cursor rs') (fst disk') s'" by auto
          then show ?thesis using False ev by (intro exI [of _ "line # more"]) (simp add: Ev_Line)
        next
          case not_ok: False
          have "\<not> accepting d" using handle_entry_accepting [OF _ live, of d flt line waits io rs disk] Some res not_ok by auto
          moreover have "journal_run_ok d flt base c0 d0 Some seen (last_cursor rs1) (fst disk1) s1" using h not_ok by simp
          from calculation save_cursor_run_ok [OF this, of io] Cons.prems(1) Ev_Line False Some res not_ok
          show ?thesis by (intro exI [of _ "[]"]) auto
        qed
      qed
    qed
  qed (use Cons.prems(1) stop in auto)
qed

section \<open>Properties\<close>


definition demo_journal_deps :: deps where
  "demo_journal_deps =
     ref_deps\<lparr>serde_members := (\<lambda>s. if s = ''j'' then Some [(''MESSAGE'', JString ''hi''), (''__CURSOR'', JString ''c1'')] else None)\<rparr>"

lemma demo_journal_parse:
  "journal_parse demo_journal_deps ''j'' = Some \<lparr>je_message = Some ''hi'', je_syslog_identifier = None,
     je_comm = None, je_priority = None, je_cursor = Some ''c1'', je_extras = []\<rparr>"
proof -
  have "serde_members demo_journal_deps (trim ''j'') = Some [(''MESSAGE'', JString ''hi''), (''__CURSOR'', JString ''c1'')]"
    by (simp add: demo_journal_deps_def trim_def trim_start_def trim_end_def trim_front.simps ws_seqs_def)
  then show ?thesis
    by (simp add: journal_parse_def journal_of_members_def opt_string_field_def member_values_def flatten_extras_def JOURNAL_FIELDS_def)
qed

lemma demo_journal_accepting: "accepting demo_journal_deps"
  by (simp add: accepting_def demo_journal_deps_def ref_deps_def)


text \<open>
  Filtering. An entry is sent only if it parses, has a non-empty message, does not come
  from the agent itself and passes the operator's filter, where an exclusion wins over an
  inclusion; whatever is filtered still advances the cursor.
\<close>

theorem journal_filtering:
  assumes "is_live s" and "journal_process_entry d flt l s = (r, s')" and "delivered s' \<noteq> delivered s"
  shows "\<exists>e. journal_parse d l = Some e \<and> r = Handled (je_cursor e)
    \<and> journal_program e \<noteq> SELF_IDENTIFIER \<and> journal_program e \<notin> set (sf_exclude flt)
    \<and> (sf_include flt = [] \<or> journal_program e \<in> set (sf_include flt))
    \<and> (\<exists>m. je_message e = Some m \<and> m \<noteq> [])"
proof -
  have "r = Handled (journal_cursor d l)" "journal_entries d flt l \<noteq> []"
    using journal_process_cases [OF assms(1,2)] assms(3) by auto
  then show ?thesis
    by (auto simp: journal_entries_def journal_cursor_def service_excludes_def split: option.splits if_splits)
qed

theorem journal_filtering_witness:
  "\<exists>e. journal_parse demo_journal_deps ''j'' = Some e \<and> je_cursor e = Some ''c1''"
proof -
  let ?f = "\<lparr>sf_include = [], sf_exclude = []\<rparr>" and ?s = "\<lparr>inner = Live [], tags = []\<rparr>"
  note p = demo_journal_parse
  have acc: "tell_accepts demo_journal_deps h e" for h e by (simp add: demo_journal_deps_def ref_deps_def)
  obtain r s' where r: "journal_process_entry demo_journal_deps ?f ''j'' ?s = (r, s')" by fastforce
  have "delivered s' \<noteq> delivered ?s"
    using r by (auto simp: journal_process_entry_def p journal_program_def SELF_IDENTIFIER_def service_excludes_def
        try_log_with_service_def tell_log_def acc delivered_def split: prod.splits)
  from journal_filtering [OF _ r this] p show ?thesis by (auto simp: is_live_def)
qed

end
