(* ===== verification/Restart.thy ===== *)
theory Restart
  imports Source "HOL-Library.Sublist"
begin

text \<open>
  Runs of a source that follow each other. A store holds the lines in order, every line has its
  own mark, and a run is fed the lines after the mark that was persisted. The contract of one
  run (\<open>run_ok\<close>) then gives a contract of all of them: no line before the furthest one reached
  is missing, and none is sent twice if every run saved its mark.
\<close>

section \<open>Marks\<close>

text \<open>The mark after the first \<open>k\<close> lines of a store that is entered at the mark \<open>c0\<close>.\<close>

definition mark_at :: "('l \<Rightarrow> 'c option) \<Rightarrow> 'c \<Rightarrow> 'l list \<Rightarrow> nat \<Rightarrow> 'c option" where
  "mark_at pos c0 J k = position_after pos (Some c0) (take k J)"

text \<open>What a source that resumes after the mark \<open>c\<close> is fed.\<close>

definition resume_after :: "('l \<Rightarrow> 'c option) \<Rightarrow> 'c \<Rightarrow> 'l list \<Rightarrow> 'c \<Rightarrow> 'l list" where
  "resume_after pos c0 J c = (if c = c0 then J else tl (dropWhile (\<lambda>l. pos l \<noteq> Some c) J))"

text \<open>A store whose lines have marks that differ from each other and from \<open>c0\<close>.\<close>

definition store_ok :: "('l \<Rightarrow> 'c option) \<Rightarrow> 'c \<Rightarrow> 'l list \<Rightarrow> bool" where
  "store_ok pos c0 J \<longleftrightarrow> None \<notin> set (map pos J) \<and> distinct (map pos J) \<and> Some c0 \<notin> set (map pos J)"

lemma position_after_Nil [simp]: "position_after pos c [] = c"
  by (simp add: position_after_def)

lemma position_after_append: "position_after pos c (xs @ ys) = position_after pos (position_after pos c xs) ys"
  by (simp add: position_after_def)

lemma position_after_last: "xs \<noteq> [] \<Longrightarrow> pos (last xs) \<noteq> None \<Longrightarrow> position_after pos c xs = pos (last xs)"
  by (cases xs rule: rev_cases) (auto simp: position_after_snoc)

lemma store_nth:
  assumes "store_ok pos c0 J" and "i < length J"
  shows "\<exists>p. pos (J ! i) = Some p \<and> p \<noteq> c0" and "\<forall>j < i. pos (J ! j) \<noteq> pos (J ! i)"
proof -
  have "pos (J ! i) \<in> set (map pos J)" using assms(2) by simp
  with assms(1) show "\<exists>p. pos (J ! i) = Some p \<and> p \<noteq> c0" unfolding store_ok_def by (metis option.exhaust)
  show "\<forall>j < i. pos (J ! j) \<noteq> pos (J ! i)"
    using assms nth_eq_iff_index_eq [of "map pos J"] by (auto simp: store_ok_def)
qed

lemma mark_at_Suc: "store_ok pos c0 J \<Longrightarrow> k < length J \<Longrightarrow> mark_at pos c0 J (Suc k) = pos (J ! k)"
  using store_nth(1) [of pos c0 J k] by (auto simp: mark_at_def take_Suc_conv_app_nth position_after_snoc)

lemma dropWhile_at: "i < length xs \<Longrightarrow> \<forall>j < i. P (xs ! j) \<Longrightarrow> \<not> P (xs ! i) \<Longrightarrow> dropWhile P xs = drop i xs"
proof (induction xs arbitrary: i)
  case (Cons x xs)
  then show ?case by (cases i) (auto, metis Suc_less_eq nth_Cons_Suc)
qed simp

lemma resume_mark_at:
  assumes "store_ok pos c0 J" and "k \<le> length J" and "mark_at pos c0 J k = Some c"
  shows "resume_after pos c0 J c = drop k J"
proof (cases k)
  case 0
  with assms(3) show ?thesis by (simp add: mark_at_def resume_after_def)
next
  case (Suc i)
  with assms have i: "i < length J" and c: "pos (J ! i) = Some c" using mark_at_Suc [OF assms(1), of i] by auto
  have "c \<noteq> c0" using store_nth(1) [OF assms(1) i] c by auto
  moreover have "dropWhile (\<lambda>l. pos l \<noteq> Some c) J = drop i J"
  proof (rule dropWhile_at)
    show "\<forall>j < i. pos (J ! j) \<noteq> Some c"
      using store_nth(2) [OF assms(1) i] c by simp
  qed (use i c in simp_all)
  ultimately show ?thesis using Suc by (simp add: resume_after_def drop_Suc tl_drop)
qed

section \<open>Histories\<close>

text \<open>
  After some runs: the persisted mark is that after \<open>k\<close> lines, the first \<open>n\<close> lines were reached,
  and their entries are among the entries sent since \<open>base\<close>, in order.
\<close>

definition history_ok ::
    "('l \<Rightarrow> 'c option) \<Rightarrow> ('l \<Rightarrow> 'e list) \<Rightarrow> 'c \<Rightarrow> 'l list \<Rightarrow> 'e list \<Rightarrow> ('c \<Rightarrow> 'd) \<Rightarrow> nat \<Rightarrow> nat \<Rightarrow> 'd \<Rightarrow> 'e list \<Rightarrow> bool" where
  "history_ok pos ent c0 J base encode k n d out \<longleftrightarrow>
     k \<le> n \<and> n \<le> length J \<and> (\<exists>p. mark_at pos c0 J k = Some p \<and> d = encode p)
     \<and> prefix base out \<and> subseq (concat (map ent (take n J))) (drop (length base) out)"

lemma take_add_drop: "take (k + m) xs = take k xs @ take m (drop k xs)"
  by (simp add: take_add)

lemma subseq_concat_drop: "subseq (concat (map f (drop i xs))) (concat (map f xs))"
proof -
  have "concat (map f xs) = concat (map f (take i xs)) @ concat (map f (drop i xs))"
    by (metis append_take_drop_id concat_append map_append)
  then show ?thesis by (simp add: list_emb_append2 subseq_order.refl)
qed

lemma mark_at_add: "position_after pos (mark_at pos c0 J k) (take m (drop k J)) = mark_at pos c0 J (k + m)"
  by (simp add: mark_at_def take_add_drop position_after_append)

lemma history_step:
  assumes h: "history_ok pos ent c0 J base encode k n d0 (sent0)"
    and run: "run_ok sent live ent pos sent0 (mark_at pos c0 J k) d0 encode seen c d s"
    and pre: "prefix seen (drop k J)"
  shows "c = mark_at pos c0 J (k + length seen)
    \<and> (\<exists>k'. k \<le> k' \<and> k' \<le> k + length seen \<and> history_ok pos ent c0 J base encode k' (max n (k + length seen)) d (sent s))"
proof -
  let ?m = "length seen"
  have seen: "seen = take ?m (drop k J)" using pre by (auto simp: prefix_def)
  have km: "k + ?m \<le> length J" using prefix_length_le [OF pre] h by (auto simp: history_ok_def)
  have c: "c = mark_at pos c0 J (k + ?m)"
    using run mark_at_add [of pos c0 J k ?m] seen by (simp add: run_ok_def)
  have out: "sent s = sent0 @ concat (map ent seen)" using run by (simp add: run_ok_def)
  have sub: "subseq (concat (map ent (take (max n (k + ?m)) J))) (drop (length base) (sent s))"
  proof -
    have base: "drop (length base) (sent s) = drop (length base) sent0 @ concat (map ent seen)"
      using h out by (auto simp: history_ok_def prefix_def)
    have old: "subseq (concat (map ent (take n J))) (drop (length base) sent0)" using h by (simp add: history_ok_def)
    show ?thesis
    proof (cases "k + ?m \<le> n")
      case True
      with old base show ?thesis by (simp add: max_def subseq_rev_drop_many)
    next
      case False
      then have "n = k + (n - k)" "n - k \<le> ?m" using h by (auto simp: history_ok_def)
      then have "take (k + ?m) J = take n J @ drop (n - k) seen"
        using False seen by (metis (no_types) append_assoc append_take_drop_id le_add_diff_inverse take_add_drop take_drop min_def take_take)
      then have "concat (map ent (take (max n (k + ?m)) J)) = concat (map ent (take n J)) @ concat (map ent (drop (n - k) seen))"
        using False by (simp add: max_def)
      with old base show ?thesis by (simp add: list_emb_append_mono subseq_concat_drop)
    qed
  qed
  obtain k' p where k': "k \<le> k'" "k' \<le> k + ?m" "mark_at pos c0 J k' = Some p" "d = encode p"
  proof -
    consider "d = d0" | i q where "i \<le> ?m" "position_after pos (mark_at pos c0 J k) (take i seen) = Some q" "d = encode q"
      using run by (auto simp: run_ok_def)
    then show thesis
    proof cases
      case 1
      with h that [of k] show thesis by (auto simp: history_ok_def)
    next
      case (2 i q)
      have "take i seen = take i (drop k J)" using seen 2(1) by (metis min_def take_take)
      with 2 mark_at_add [of pos c0 J k i] that [of "k + i" q] show thesis by simp
    qed
  qed
  have "history_ok pos ent c0 J base encode k' (max n (k + ?m)) d (sent s)"
    using h km k' sub out by (auto simp: history_ok_def prefix_def)
  with c k' show ?thesis by blast
qed

text \<open>The contract does not depend on how a line is represented.\<close>

lemma position_after_map:
  "\<forall>l \<in> set ls. pos l = pos' (f l) \<Longrightarrow> position_after pos c ls = position_after pos' c (map f ls)"
  by (induction ls arbitrary: c) (simp_all add: position_after_def)

lemma run_ok_map:
  assumes "run_ok sent live ent pos base c0 d0 encode seen c d s"
    and "\<forall>l \<in> set seen. ent l = ent' (f l) \<and> pos l = pos' (f l)"
  shows "run_ok sent live ent' pos' base c0 d0 encode (map f seen) c d s"
proof -
  have sent: "concat (map ent seen) = concat (map ent' (map f seen))"
  proof -
    have "map ent seen = map (ent' \<circ> f) seen" by (intro map_cong) (use assms(2) in auto)
    then show ?thesis by (simp only: map_map)
  qed
  have pos: "position_after pos c0 (take k seen) = position_after pos' c0 (take k (map f seen))" for k
  proof -
    have "\<forall>l \<in> set (take k seen). pos l = pos' (f l)" using assms(2) by (meson in_set_takeD)
    from position_after_map [where pos = pos and pos' = pos' and f = f, OF this] show ?thesis by (simp only: take_map)
  qed
  have "position_after pos c0 seen = position_after pos' c0 (map f seen)" using pos [of "length seen"] by simp
  then show ?thesis using assms(1) unfolding run_ok_def sent pos by simp
qed

section \<open>Delays\<close>

lemma double_capped: "min (next_backoff b cap * 2 ^ i) cap = min (b * 2 ^ Suc i) cap"
proof (cases "b * 2 \<le> cap")
  case True
  then show ?thesis by (simp add: next_backoff_def mult.assoc)
next
  case False
  have one: "(1::nat) \<le> 2 ^ i" by simp
  have "cap \<le> cap * 2 ^ i" using mult_le_mono2 [OF one, of cap] by simp
  moreover have "cap \<le> (b * 2) * 2 ^ i" using False mult_le_mono [of cap "b * 2" 1 "2 ^ i"] one by simp
  ultimately show ?thesis using False by (simp add: next_backoff_def min_absorb2 mult.assoc)
qed

lemma capped_delays_Cons:
  assumes "b \<le> cap" and "ds = map (\<lambda>i. min (next_backoff b cap * 2 ^ i) cap) [0..<length ds]"
  shows "b # ds = map (\<lambda>i. min (b * 2 ^ i) cap) [0..<length (b # ds)]"
proof -
  have "ds = map (\<lambda>i. min (b * 2 ^ Suc i) cap) [0..<length ds]" using assms(2) by (simp only: double_capped)
  with assms(1) show ?thesis by (simp only: list.size add_0_right add_Suc_right map_upt_Suc) (simp add: min_absorb1)
qed

end
