(* ===== verification/Journal_Restart.thy ===== *)
theory Journal_Restart
  imports Journal_Props Restart
begin

text \<open>
  The journal watcher over all its restarts: with the cursors and the behaviour of
  \<open>journalctl --after-cursor\<close> that its manual documents, no entry is skipped, and none is sent
  twice as long as the cursor file can be written.
\<close>

section \<open>The feed\<close>

text \<open>
  A journal from the cursor \<open>c0\<close> on. Every entry has a cursor of visible characters of its own
  and fits in a line.
\<close>

definition journal_ok :: "deps \<Rightarrow> string \<Rightarrow> string list \<Rightarrow> bool" where
  "journal_ok d c0 J \<longleftrightarrow>
     store_ok (journal_cursor d) c0 J \<and> is_word c0 \<and> (\<forall>l \<in> set J. \<forall>c. journal_cursor d l = Some c \<longrightarrow> is_word c)"

text \<open>The lines of a run are, in order, lines of the journal after the persisted cursor.\<close>

abbreviation feed_ok where
  "feed_ok d c0 J es disk \<equiv> (case load_cursor disk of
      Some c \<Rightarrow> prefix (event_lines JOURNAL_MAX_LINE_LEN es) (resume_after (journal_cursor d) c0 J c)
    | None \<Rightarrow> False)"

fun feeds_ok :: "deps \<Rightarrow> service_filter \<Rightarrow> string \<Rightarrow> string list \<Rightarrow> journal_attempt list \<Rightarrow> disk \<times> sink \<Rightarrow> bool" where
  "feeds_ok d flt c0 J [] st = True"
| "feeds_ok d flt c0 J (a # as) st =
     ((ja_spawned a \<longrightarrow> feed_ok d c0 J (ja_events a) (fst st))
      \<and> feeds_ok d flt c0 J as (snd (run_journalctl d flt (ja_spawned a) (ja_events a) st)))"

lemma load_cursor_word: "is_word c \<Longrightarrow> fst disk = Some c \<Longrightarrow> load_cursor disk = Some c"
  by (simp add: load_cursor_def trim_word utf8_valid_ascii is_word_def visible_def)

lemma mark_word:
  assumes "journal_ok d c0 J" and "k \<le> length J" and "mark_at (journal_cursor d) c0 J k = Some c"
  shows "is_word c"
proof (cases k)
  case 0
  with assms show ?thesis by (simp add: mark_at_def journal_ok_def)
next
  case (Suc i)
  with assms mark_at_Suc [of "journal_cursor d" c0 J i] show ?thesis by (auto simp: journal_ok_def)
qed

abbreviation journal_history where
  "journal_history d flt c0 J base k n disk s \<equiv>
     history_ok (journal_cursor d) (journal_entries d flt) c0 J base Some k n (fst disk) (delivered s)"

text \<open>A run that starts at the mark after \<open>k\<close> lines handles some of the lines that follow.\<close>

lemma run_journalctl_run_ok:
  assumes J: "journal_ok d c0 J" and live: "is_live s"
    and p: "k \<le> length J" "mark_at (journal_cursor d) c0 J k = Some p" "fst disk = Some p"
    and run: "run_journalctl d flt True es (disk, s) = (x, disk', s')" and feed: "feed_ok d c0 J es disk"
  obtains rs rs' seen where "journal_loop d flt es (rs, disk, s) = (x, rs', disk', s')"
    and "prefix seen (drop k J)"
    and "journal_run_ok d flt (delivered s) (mark_at (journal_cursor d) c0 J k) (fst disk) Some seen (last_cursor rs') (fst disk') s'"
proof -
  have load: "load_cursor disk = Some p" and drop: "resume_after (journal_cursor d) c0 J p = drop k J"
    using load_cursor_word [OF mark_word [OF J p(1,2)] p(3)] resume_mark_at [OF _ p(1,2)] J by (auto simp: journal_ok_def)
  obtain rs' where loop: "journal_loop d flt es (reader_state_new (Some p), disk, s) = (x, rs', disk', s')"
    using run load by (auto simp: run_journalctl_def split: prod.splits)
  from journal_loop_run_ok [OF loop journal_src.run_ok_start [OF live]] obtain seen where
    seen: "prefix seen (event_lines JOURNAL_MAX_LINE_LEN es)"
    and ok: "journal_run_ok d flt (delivered s) (Some p) (fst disk) Some seen (last_cursor rs') (fst disk') s'"
    by (auto simp: reader_state_new_def)
  have "prefix (event_lines JOURNAL_MAX_LINE_LEN es) (drop k J)" using feed load drop by simp
  with seen have "prefix seen (drop k J)" by (meson prefix_order.trans)
  from that [OF loop this ok [folded p(2)]] show thesis .
qed

lemma run_journalctl_history:
  assumes J: "journal_ok d c0 J" and live: "is_live s" and h: "journal_history d flt c0 J base k n disk s"
    and run: "run_journalctl d flt spawned es (disk, s) = (x, disk', s')"
    and feed: "spawned \<longrightarrow> feed_ok d c0 J es disk"
  shows "is_live s' \<and> (\<exists>k' n'. k \<le> k' \<and> n \<le> n' \<and> journal_history d flt c0 J base k' n' disk' s')"
proof (cases spawned)
  case False
  with run h live show ?thesis by (auto simp: run_journalctl_def)
next
  case True
  obtain p where p: "k \<le> length J" "mark_at (journal_cursor d) c0 J k = Some p" "fst disk = Some p"
    using h by (auto simp: history_ok_def)
  from True run feed have "run_journalctl d flt True es (disk, s) = (x, disk', s')" "feed_ok d c0 J es disk" by simp_all
  from run_journalctl_run_ok [OF J live p this] obtain rs rs' seen where
    "journal_loop d flt es (rs, disk, s) = (x, rs', disk', s')" and pre: "prefix seen (drop k J)"
    and ok: "journal_run_ok d flt (delivered s) (mark_at (journal_cursor d) c0 J k) (fst disk) Some seen (last_cursor rs') (fst disk') s'" .
  from history_step [OF h ok pre] obtain k' where
    "k \<le> k'" "journal_history d flt c0 J base k' (max n (k + length seen)) disk' s'" by blast
  moreover have "is_live s'" using ok by (simp add: run_ok_def)
  ultimately show ?thesis by (metis max.cobounded1)
qed

lemma tail_journal_history:
  assumes J: "journal_ok d c0 J"
  shows "tail_journal_from d flt as backoff (disk, s) = (x, delays, disk', s') \<Longrightarrow> is_live s \<Longrightarrow>
     journal_history d flt c0 J base k n disk s \<Longrightarrow> feeds_ok d flt c0 J as (disk, s) \<Longrightarrow>
     is_live s' \<and> (\<exists>k' n'. k \<le> k' \<and> n \<le> n' \<and> journal_history d flt c0 J base k' n' disk' s')"
proof (induction as arbitrary: backoff disk s delays k n)
  case Nil
  then show ?case by auto
next
  case (Cons a as)
  obtain y disk1 s1 where run: "run_journalctl d flt (ja_spawned a) (ja_events a) (disk, s) = (y, disk1, s1)"
    by (metis prod_cases3)
  from run_journalctl_history [OF J Cons.prems(2,3) run] Cons.prems(4) obtain k1 n1 where
    one: "is_live s1" "k \<le> k1" "n \<le> n1" "journal_history d flt c0 J base k1 n1 disk1 s1" by auto
  show ?case
  proof (cases "y = Exit_Failed \<and> \<not> ja_cancelled a \<and> ja_slept a")
    case True
    obtain ds where "tail_journal_from d flt as (next_backoff backoff MAX_BACKOFF) (disk1, s1) = (x, ds, disk', s')"
      using Cons.prems(1) run True by (auto split: prod.splits)
    from Cons.IH [OF this one(1,4)] Cons.prems(4) run obtain k' n' where
      "is_live s'" "k1 \<le> k'" "n1 \<le> n'" "journal_history d flt c0 J base k' n' disk' s'" by auto
    with one(2,3) show ?thesis by (meson order_trans)
  next
    case False
    then have "disk' = disk1 \<and> s' = s1" using Cons.prems(1) run by (cases y) (auto split: if_splits)
    with one show ?thesis by blast
  qed
qed

section \<open>Runs whose cursor file can be written\<close>

fun event_io :: "source_event \<Rightarrow> checkpoint_io" where
  "event_io (Ev_Line l ws io) = io"
| "event_io (Ev_Eof io) = io"
| "event_io (Ev_Error io) = io"
| "event_io (Ev_Cancel io) = io"

text \<open>Every write of the cursor succeeds, with room for the cursors of the journal.\<close>

definition io_good :: "deps \<Rightarrow> string \<Rightarrow> string list \<Rightarrow> checkpoint_io \<Rightarrow> bool" where
  "io_good d c0 J io \<longleftrightarrow> ck_create io \<and> ck_sync io \<and> ck_rename io
     \<and> (\<forall>c \<in> set (c0 # List.map_filter (journal_cursor d) J). length c \<le> ck_room io)"

definition saves_good :: "deps \<Rightarrow> string \<Rightarrow> string list \<Rightarrow> source_event list \<Rightarrow> bool" where
  "saves_good d c0 J es \<longleftrightarrow> (\<forall>e \<in> set es. io_good d c0 J (event_io e))"

lemma journal_loop_saved:
  "journal_loop d flt es (rs, disk, s) = (x, rs', disk', s') \<Longrightarrow> x \<noteq> Exit_Running \<Longrightarrow>
     \<forall>e \<in> set es. \<forall>dk. fst (save_cursor (event_io e) (last_cursor rs') dk) = last_cursor rs' \<Longrightarrow>
     fst disk' = last_cursor rs'"
proof (induction d flt es "(rs, disk, s)" arbitrary: rs disk s rule: journal_loop.induct)
  case (5 d flt line waits io es rs disk s)
  show ?case
  proof (cases "JOURNAL_MAX_LINE_LEN < length line")
    case True
    with 5 show ?thesis by simp
  next
    case False
    with 5 show ?thesis by (auto split: option.splits prod.splits bool.splits)
  qed
qed auto

lemma mark_fits:
  assumes "store_ok (journal_cursor d) c0 J" and "k \<le> length J" and "mark_at (journal_cursor d) c0 J k = Some c"
    and "io_good d c0 J io"
  shows "fst (save_cursor io (Some c) dk) = Some c"
proof -
  have "c \<in> set (c0 # List.map_filter (journal_cursor d) J)"
  proof (cases k)
    case 0
    with assms(3) show ?thesis by (simp add: mark_at_def)
  next
    case (Suc i)
    with assms mark_at_Suc [of "journal_cursor d" c0 J i] show ?thesis
      by (force simp: List.map_filter_def)
  qed
  with assms(4) show ?thesis
    by (cases dk) (auto simp: io_good_def save_cursor_def write_checkpoint_def)
qed

text \<open>After exactly-once runs, the mark that is persisted is that of the last line reached.\<close>

abbreviation journal_exact where
  "journal_exact d flt c0 J base k disk s \<equiv>
     k \<le> length J \<and> (\<exists>p. mark_at (journal_cursor d) c0 J k = Some p \<and> fst disk = Some p)
     \<and> delivered s = base @ concat (map (journal_entries d flt) (take k J))"

lemma mark_some:
  assumes "store_ok pos c0 J" and "k \<le> length J"
  shows "\<exists>p. mark_at pos c0 J k = Some p"
proof (cases k)
  case (Suc i)
  with assms store_nth(1) [OF assms(1), of i] show ?thesis by (auto simp: mark_at_Suc)
qed (simp add: mark_at_def)

lemma run_journalctl_exact:
  assumes J: "journal_ok d c0 J" and live: "is_live s" and h: "journal_exact d flt c0 J base k disk s"
    and run: "run_journalctl d flt spawned es (disk, s) = (x, disk', s')"
    and feed: "spawned \<longrightarrow> feed_ok d c0 J es disk" and x: "x \<noteq> Exit_Running" and io: "saves_good d c0 J es"
  shows "is_live s' \<and> (\<exists>k' \<ge> k. journal_exact d flt c0 J base k' disk' s')"
proof (cases spawned)
  case False
  with run h live show ?thesis by (auto simp: run_journalctl_def)
next
  case True
  obtain p where p: "k \<le> length J" "mark_at (journal_cursor d) c0 J k = Some p" "fst disk = Some p" using h by auto
  from True run feed have "run_journalctl d flt True es (disk, s) = (x, disk', s')" "feed_ok d c0 J es disk" by simp_all
  from run_journalctl_run_ok [OF J live p this] obtain rs rs' seen where
    loop: "journal_loop d flt es (rs, disk, s) = (x, rs', disk', s')" and pre: "prefix seen (drop k J)"
    and ok: "journal_run_ok d flt (delivered s) (mark_at (journal_cursor d) c0 J k) (fst disk) Some seen (last_cursor rs') (fst disk') s'" .
  let ?k = "k + length seen"
  have seen: "seen = take (length seen) (drop k J)" using pre by (auto simp: prefix_def)
  have k: "?k \<le> length J" using prefix_length_le [OF pre] p(1) by simp
  have S: "store_ok (journal_cursor d) c0 J" using J by (simp add: journal_ok_def)
  obtain q where q: "mark_at (journal_cursor d) c0 J ?k = Some q" using mark_some [OF S k] by blast
  have last: "last_cursor rs' = Some q"
    using ok q mark_at_add [of "journal_cursor d" c0 J k "length seen"] seen by (simp add: run_ok_def)
  have "fst disk' = last_cursor rs'"
    using journal_loop_saved [OF loop x] mark_fits [OF S k q] io last by (simp add: saves_good_def)
  moreover have "delivered s' = base @ concat (map (journal_entries d flt) (take ?k J))"
    using ok h seen by (simp add: run_ok_def take_add_drop)
  moreover have "is_live s'" using ok by (simp add: run_ok_def)
  ultimately show ?thesis using k q last by (intro conjI exI [of _ ?k]) auto
qed

lemma tail_journal_exact:
  assumes J: "journal_ok d c0 J"
  shows "tail_journal_from d flt as backoff (disk, s) = (x, delays, disk', s') \<Longrightarrow> is_live s \<Longrightarrow> x \<noteq> Exit_Running \<Longrightarrow>
     journal_exact d flt c0 J base k disk s \<Longrightarrow> feeds_ok d flt c0 J as (disk, s) \<Longrightarrow>
     \<forall>a \<in> set as. saves_good d c0 J (ja_events a) \<Longrightarrow> \<exists>k' \<ge> k. journal_exact d flt c0 J base k' disk' s'"
proof (induction as arbitrary: backoff disk s delays k)
  case Nil
  then show ?case by auto
next
  case (Cons a as)
  obtain y disk1 s1 where run: "run_journalctl d flt (ja_spawned a) (ja_events a) (disk, s) = (y, disk1, s1)"
    by (metis prod_cases3)
  have "y \<noteq> Exit_Running" using Cons.prems(1,3) run by auto
  from run_journalctl_exact [OF J Cons.prems(2,4) run _ this] Cons.prems(5,6) obtain k1 where
    one: "is_live s1" "k \<le> k1" "journal_exact d flt c0 J base k1 disk1 s1" by auto
  show ?case
  proof (cases "y = Exit_Failed \<and> \<not> ja_cancelled a \<and> ja_slept a")
    case True
    obtain ds where "tail_journal_from d flt as (next_backoff backoff MAX_BACKOFF) (disk1, s1) = (x, ds, disk', s')"
      using Cons.prems(1) run True by (auto split: prod.splits)
    from Cons.IH [OF this one(1) Cons.prems(3) one(3)] Cons.prems(5,6) run one(2) show ?thesis
      by (auto intro: order_trans)
  next
    case False
    then have "disk' = disk1 \<and> s' = s1" using Cons.prems(1) run by (cases y) (auto split: if_splits)
    with one show ?thesis by blast
  qed
qed

lemma tail_journal_delays:
  "tail_journal_from d flt as backoff st = (x, delays, st') \<Longrightarrow> backoff \<le> MAX_BACKOFF \<Longrightarrow>
     delays = map (\<lambda>i. min (backoff * 2 ^ i) MAX_BACKOFF) [0..<length delays]"
proof (induction as arbitrary: backoff st delays)
  case (Cons a as)
  obtain y st1 where run: "run_journalctl d flt (ja_spawned a) (ja_events a) st = (y, st1)" by (rule prod.exhaust)
  show ?case
  proof (cases "y = Exit_Failed \<and> \<not> ja_cancelled a \<and> ja_slept a")
    case True
    let ?b = "next_backoff backoff MAX_BACKOFF"
    obtain ds where ds: "tail_journal_from d flt as ?b st1 = (x, ds, st')" "delays = backoff # ds"
      using Cons.prems(1) run True by (auto split: prod.splits)
    have "ds = map (\<lambda>i. min (?b * 2 ^ i) MAX_BACKOFF) [0..<length ds]"
      using Cons.IH [OF ds(1)] by (simp add: next_backoff_def)
    from capped_delays_Cons [OF Cons.prems(2) this] ds(2) show ?thesis by simp
  next
    case False
    then have "delays = [] \<or> delays = [backoff]" using Cons.prems(1) run by (cases y) (auto split: if_splits)
    with Cons.prems(2) show ?thesis by (auto simp: min_def)
  qed
qed simp

section \<open>Properties\<close>


definition demo_attempts :: "journal_attempt list" where
  "demo_attempts =
     (let io = \<lparr>ck_create = True, ck_room = 9, ck_sync = True, ck_rename = True\<rparr> in
      [\<lparr>ja_spawned = False, ja_events = [], ja_cancelled = False, ja_slept = True\<rparr>,
       \<lparr>ja_spawned = True, ja_events = [Ev_Line ''j'' [] io, Ev_Cancel io], ja_cancelled = True, ja_slept = False\<rparr>])"


end
