(* ===== verification/Unified.thy ===== *)
theory Unified
  imports Journal_Props
begin

text \<open>
  \<open>src/logs/unified_parse.rs\<close> and \<open>src/logs/unified.rs\<close>: the macOS unified-log source. A
  phase (the \<open>log show\<close> replay or the \<open>log stream\<close> follow-up) is a list of events; a line
  carries the outcomes of the waits it meets, each with the clock in milliseconds.
\<close>

section \<open>Entries\<close>

definition SELF_PROCESS :: string where "SELF_PROCESS = ''witness''"
definition SELF_SUBSYSTEM_PREFIX :: string where "SELF_SUBSYSTEM_PREFIX = ''rs.tell.witness''"

definition DEFAULT_PREDICATE :: string where
  "DEFAULT_PREDICATE =
     ''(messageType == '' @ [DQ] @ ''error'' @ [DQ] @ '' OR messageType == '' @ [DQ] @ ''fault'' @ [DQ]
     @ '') OR subsystem == '' @ [DQ] @ ''com.apple.TCC'' @ [DQ]
     @ '' OR subsystem == '' @ [DQ] @ ''com.apple.syspolicy.exec'' @ [DQ]
     @ '' OR process == '' @ [DQ] @ ''sudo'' @ [DQ] @ '' OR process == '' @ [DQ] @ ''sshd'' @ [DQ]
     @ '' OR process == '' @ [DQ] @ ''loginwindow'' @ [DQ]
     @ '' OR process == '' @ [DQ] @ ''screensharingd'' @ [DQ]"

definition effective_predicate :: "string option \<Rightarrow> string" where
  "effective_predicate configured = (case configured of Some p \<Rightarrow> p | None \<Rightarrow> DEFAULT_PREDICATE)"

definition INTERNAL_FIELDS :: "string list" where
  "INTERNAL_FIELDS =
     [''threadid'', ''senderimageuuid'', ''senderimagepath'', ''processimageuuid'', ''backtrace'',
      ''traceid'', ''senderprogramcounter'', ''machtimestamp'', ''activityidentifier'',
      ''parentactivityidentifier'', ''creatoractivityid'', ''timezonename'', ''source'',
      ''formatstring'', ''userid'', ''bootuuid'']"

record unified_entry =
  ue_event_type :: "string option"
  ue_message_type :: "string option"
  ue_event_message :: "string option"
  ue_subsystem :: "string option"
  ue_category :: "string option"
  ue_process_image_path :: "string option"
  ue_process_id :: "int option"
  ue_mach_timestamp :: "nat option"
  ue_boot_uuid :: "string option"
  ue_wall_timestamp :: "string option"
  ue_extras :: "(string, json) hash_map"

definition opt_i64_field :: "string \<Rightarrow> (string \<times> json) list \<Rightarrow> int option option" where
  "opt_i64_field k ms =
     (case member_values k ms of
        [] \<Rightarrow> Some None
      | [JNull] \<Rightarrow> Some None
      | [JNumber (PosInt n)] \<Rightarrow> if n < 2 ^ 63 then Some (Some (int n)) else None
      | [JNumber (NegInt i)] \<Rightarrow> Some (Some i)
      | _ \<Rightarrow> None)"

definition opt_u64_field :: "string \<Rightarrow> (string \<times> json) list \<Rightarrow> nat option option" where
  "opt_u64_field k ms =
     (case member_values k ms of
        [] \<Rightarrow> Some None
      | [JNull] \<Rightarrow> Some None
      | [JNumber (PosInt n)] \<Rightarrow> Some (Some n)
      | _ \<Rightarrow> None)"

definition UNIFIED_FIELDS :: "string list" where
  "UNIFIED_FIELDS =
     [''eventType'', ''messageType'', ''eventMessage'', ''subsystem'', ''category'',
      ''processImagePath'', ''processID'', ''machTimestamp'', ''bootUUID'', ''timestamp'']"

definition unified_of_members :: "(string \<times> json) list \<Rightarrow> unified_entry option" where
  "unified_of_members ms =
     (case (opt_string_field ''eventType'' ms, opt_string_field ''messageType'' ms,
            opt_string_field ''eventMessage'' ms, opt_string_field ''subsystem'' ms,
            opt_string_field ''category'' ms) of
        (Some et, Some mt, Some em, Some ss, Some ca) \<Rightarrow>
          (case (opt_string_field ''processImagePath'' ms, opt_i64_field ''processID'' ms,
                 opt_u64_field ''machTimestamp'' ms, opt_string_field ''bootUUID'' ms,
                 opt_string_field ''timestamp'' ms) of
             (Some pp, Some pid, Some mach, Some boot, Some wall) \<Rightarrow>
               Some \<lparr>ue_event_type = et, ue_message_type = mt, ue_event_message = em,
                     ue_subsystem = ss, ue_category = ca, ue_process_image_path = pp,
                     ue_process_id = pid, ue_mach_timestamp = mach, ue_boot_uuid = boot,
                     ue_wall_timestamp = wall, ue_extras = flatten_extras UNIFIED_FIELDS ms\<rparr>
           | _ \<Rightarrow> None)
      | _ \<Rightarrow> None)"

definition unified_parse :: "deps \<Rightarrow> string \<Rightarrow> unified_entry option" where
  "unified_parse d line =
     (case serde_members d (trim line) of None \<Rightarrow> None | Some ms \<Rightarrow> unified_of_members ms)"

definition entry_checkpoint :: "unified_entry \<Rightarrow> checkpoint option" where
  "entry_checkpoint e =
     (case (ue_boot_uuid e, ue_mach_timestamp e, ue_wall_timestamp e) of
        (Some boot, Some mach, Some wall) \<Rightarrow>
          Some \<lparr>boot_uuid = boot, mach_timestamp = mach, wall_timestamp = wall\<rparr>
      | _ \<Rightarrow> None)"

definition basename :: "string \<Rightarrow> string" where
  "basename p = last (split_char CHR ''/'' p)"

definition is_self :: "unified_entry \<Rightarrow> bool" where
  "is_self e \<longleftrightarrow>
     (case ue_subsystem e of None \<Rightarrow> False | Some s \<Rightarrow> starts_with s SELF_SUBSYSTEM_PREFIX)
     \<or> (case ue_process_image_path e of None \<Rightarrow> False | Some p \<Rightarrow> basename p = SELF_PROCESS)"

definition message_type_to_level :: "string option \<Rightarrow> log_level" where
  "message_type_to_level mt =
     (case mt of
        None \<Rightarrow> Info
      | Some t \<Rightarrow> if t = ''Fault'' then Critical else if t = ''Error'' then Error
                  else if t = ''Default'' then Notice else if t = ''Debug'' then Debug else Info)"

definition unified_service_of :: "unified_entry \<Rightarrow> string" where
  "unified_service_of e =
     (case ue_subsystem e of
        Some sub \<Rightarrow> if sub \<noteq> [] then sub
                    else (case ue_process_image_path e of
                            Some p \<Rightarrow> if basename p \<noteq> [] then basename p else ''unknown''
                          | None \<Rightarrow> ''unknown'')
      | None \<Rightarrow> (case ue_process_image_path e of
                   Some p \<Rightarrow> if basename p \<noteq> [] then basename p else ''unknown''
                 | None \<Rightarrow> ''unknown''))"

text \<open>\<open>i64\<close> as a JSON number, and \<open>entry(k).or_insert(v)\<close>.\<close>

definition json_int :: "int \<Rightarrow> json" where
  "json_int i = JNumber (if 0 \<le> i then PosInt (nat i) else NegInt i)"

definition or_insert :: "string \<Rightarrow> json \<Rightarrow> (string, json) btree_map \<Rightarrow> (string, json) btree_map" where
  "or_insert k v m = (case map_of m k of Some _ \<Rightarrow> m | None \<Rightarrow> bt_insert k v m)"

definition insert_if :: "string \<Rightarrow> string option \<Rightarrow> (string, json) btree_map \<Rightarrow> (string, json) btree_map" where
  "insert_if k v m = (case v of Some s \<Rightarrow> if s \<noteq> [] then bt_insert k (JString s) m else m | None \<Rightarrow> m)"

definition unified_build_payload :: "deps \<Rightarrow> unified_entry \<Rightarrow> json option" where
  "unified_build_payload d e =
     (let o1 = insert_if ''subsystem'' (ue_subsystem e) [];
          o2 = insert_if ''category'' (ue_category e) o1;
          o3 = insert_if ''process'' (map_option basename (ue_process_image_path e)) o2;
          o4 = (case ue_process_id e of Some pid \<Rightarrow> bt_insert ''pid'' (json_int pid) o3 | None \<Rightarrow> o3);
          o5 = fold (\<lambda>(k, v) m. if to_lowercase d k \<in> set INTERNAL_FIELDS then m
                               else or_insert (to_lowercase d k) v m) (ue_extras e) o4
      in if o5 = [] then None else Some (JObject o5))"

definition dedupe_hit :: "checkpoint option \<Rightarrow> unified_entry \<Rightarrow> bool" where
  "dedupe_hit dedupe e \<longleftrightarrow>
     (case (dedupe, ue_mach_timestamp e, ue_boot_uuid e) of
        (Some cp, Some mach, Some boot) \<Rightarrow> boot = boot_uuid cp \<and> mach \<le> mach_timestamp cp
      | _ \<Rightarrow> False)"

definition unified_process_entry ::
    "deps \<Rightarrow> checkpoint option \<Rightarrow> string \<Rightarrow> sink \<Rightarrow> checkpoint option outcome \<times> sink" where
  "unified_process_entry d dedupe line s =
     (case unified_parse d line of
        None \<Rightarrow> (ParseFailed, s)
      | Some e \<Rightarrow>
          (let ps = entry_checkpoint e;
               event_type = (case ue_event_type e of Some t \<Rightarrow> t | None \<Rightarrow> [])
           in if event_type \<noteq> ''logEvent'' \<and> event_type \<noteq> ''traceEvent'' then (Handled ps, s)
              else if dedupe_hit dedupe e then (Handled None, s)
              else if is_self e then (Handled ps, s)
              else (case ue_event_message e of
                      None \<Rightarrow> (Handled ps, s)
                    | Some message \<Rightarrow>
                        if message = [] then (Handled ps, s)
                        else (case try_log_with_service d s
                                     \<lparr>le_level = message_type_to_level (ue_message_type e), le_message = message,
                                      le_component = None, le_service = Some (unified_service_of e),
                                      le_payload = unified_build_payload d e\<rparr> of
                                (False, s') \<Rightarrow> (ChannelFull, s')
                              | (True, s') \<Rightarrow> (Handled ps, s')))))"

section \<open>Bookkeeping\<close>

definition UNIFIED_MAX_LINE_LEN :: nat where "UNIFIED_MAX_LINE_LEN = 256 * 1024"
definition UNIFIED_SAVE_INTERVAL :: nat where "UNIFIED_SAVE_INTERVAL = 100"
definition BACKPRESSURE_RECONCILE_MS :: nat where "BACKPRESSURE_RECONCILE_MS = 5000"

record unified_state =
  us_last :: "checkpoint option"
  us_since_save :: nat
  us_dropped :: nat

definition unified_state_new :: "checkpoint option \<Rightarrow> unified_state" where
  "unified_state_new c = \<lparr>us_last = c, us_since_save = 0, us_dropped = 0\<rparr>"

definition load_checkpoint :: "deps \<Rightarrow> disk \<Rightarrow> checkpoint option" where
  "load_checkpoint d disk = (case fst disk of None \<Rightarrow> None | Some bytes \<Rightarrow> cp_from_slice d bytes)"

definition save_checkpoint :: "deps \<Rightarrow> checkpoint_io \<Rightarrow> checkpoint option \<Rightarrow> disk \<Rightarrow> disk" where
  "save_checkpoint d io cp disk =
     (case cp of None \<Rightarrow> disk | Some c \<Rightarrow> write_checkpoint io (cp_to_vec d c) disk)"

datatype record_outcome = Advanced | Record_Full

definition record_result ::
    "deps \<Rightarrow> checkpoint_io \<Rightarrow> checkpoint option outcome \<Rightarrow> unified_state \<times> disk \<Rightarrow>
       record_outcome \<times> unified_state \<times> disk" where
  "record_result d io res st =
     (case st of (us, disk) \<Rightarrow>
      case res of
        Handled (Some cp) \<Rightarrow>
          (let us1 = us\<lparr>us_last := Some cp, us_since_save := us_since_save us + 1\<rparr>
           in if UNIFIED_SAVE_INTERVAL \<le> us_since_save us1
              then (Advanced, us1\<lparr>us_since_save := 0\<rparr>, save_checkpoint d io (us_last us1) disk)
              else (Advanced, us1, disk))
      | Handled None \<Rightarrow> (Advanced, us, disk)
      | ParseFailed \<Rightarrow> (Advanced, us\<lparr>us_dropped := us_dropped us + 1\<rparr>, disk)
      | ChannelFull \<Rightarrow> (Record_Full, us, disk))"

definition reconcile_due :: "nat option \<Rightarrow> nat \<Rightarrow> nat \<Rightarrow> bool" where
  "reconcile_due full_since now threshold =
     (case full_since of None \<Rightarrow> False | Some start \<Rightarrow> threshold \<le> now - start)"

section \<open>The phases\<close>

datatype line_outcome = Line_Done | Line_Cancelled | Line_Reconcile

text \<open>
  \<open>ship_line\<close>; each wait is the clock at the refusal and whether the sleep elapsed (\<open>True\<close>)
  or the cancellation came (\<open>False\<close>). \<open>None\<close>: it still waits.
\<close>

fun ship_line ::
    "deps \<Rightarrow> checkpoint option \<Rightarrow> bool \<Rightarrow> string \<Rightarrow> checkpoint_io \<Rightarrow> (nat \<times> bool) list \<Rightarrow>
       unified_state \<times> disk \<times> sink \<times> nat option \<Rightarrow>
       (line_outcome \<times> unified_state \<times> disk \<times> sink \<times> nat option) option" where
  "ship_line d dedupe reconcile line io waits (us, disk, s, full_since) =
     (case unified_process_entry d dedupe line s of
        (res, s') \<Rightarrow>
          (case record_result d io res (us, disk) of
             (Advanced, us', disk') \<Rightarrow> Some (Line_Done, us', disk', s', None)
           | (Record_Full, us', disk') \<Rightarrow>
               (case waits of
                  [] \<Rightarrow> None
                | (now, slept) # ws \<Rightarrow>
                    (let fs = (if reconcile then Some (case full_since of Some t \<Rightarrow> t | None \<Rightarrow> now) else full_since)
                     in if reconcile \<and> reconcile_due fs now BACKPRESSURE_RECONCILE_MS
                        then Some (Line_Reconcile, us', disk', s', fs)
                        else if slept then ship_line d dedupe reconcile line io ws (us', disk', s', fs)
                        else Some (Line_Cancelled, us', disk', s', fs)))))"

datatype unified_event =
  U_Line string "(nat \<times> bool) list" checkpoint_io
| U_Eof checkpoint_io
| U_Error checkpoint_io
| U_Cancel checkpoint_io

datatype phase_exit = Phase_Done | Phase_Cancelled | Phase_Failed | Phase_Reconcile | Phase_Running

fun read_stream ::
    "deps \<Rightarrow> checkpoint option \<Rightarrow> bool \<Rightarrow> unified_event list \<Rightarrow>
       unified_state \<times> disk \<times> sink \<times> nat option \<Rightarrow> phase_exit \<times> unified_state \<times> disk \<times> sink" where
  "read_stream d dedupe reconcile [] (us, disk, s, fs) = (Phase_Running, us, disk, s)"
| "read_stream d dedupe reconcile (U_Cancel io # es) (us, disk, s, fs) =
     (Phase_Cancelled, us, save_checkpoint d io (us_last us) disk, s)"
| "read_stream d dedupe reconcile (U_Eof io # es) (us, disk, s, fs) =
     (Phase_Done, us, save_checkpoint d io (us_last us) disk, s)"
| "read_stream d dedupe reconcile (U_Error io # es) (us, disk, s, fs) =
     (Phase_Failed, us, save_checkpoint d io (us_last us) disk, s)"
| "read_stream d dedupe reconcile (U_Line line waits io # es) (us, disk, s, fs) =
     (if UNIFIED_MAX_LINE_LEN < length line \<or> \<not> starts_with (trim_start line) ''{''
      then read_stream d dedupe reconcile es (us, disk, s, fs)
      else (case ship_line d dedupe reconcile line io waits (us, disk, s, fs) of
              None \<Rightarrow> (Phase_Running, us, disk, s)
            | Some (Line_Done, us', disk', s', fs') \<Rightarrow> read_stream d dedupe reconcile es (us', disk', s', fs')
            | Some (Line_Cancelled, us', disk', s', fs') \<Rightarrow>
                (Phase_Cancelled, us', save_checkpoint d io (us_last us') disk', s')
            | Some (Line_Reconcile, us', disk', s', fs') \<Rightarrow>
                (Phase_Reconcile, us', save_checkpoint d io (us_last us') disk', s')))"

text \<open>
  \<open>run_backfill\<close> and \<open>run_live\<close>; \<open>spawned\<close> says whether the subprocess could be started.
\<close>

definition run_backfill ::
    "deps \<Rightarrow> bool \<Rightarrow> checkpoint \<Rightarrow> unified_event list \<Rightarrow> unified_state \<times> disk \<times> sink \<Rightarrow>
       phase_exit \<times> unified_state \<times> disk \<times> sink" where
  "run_backfill d spawned dedupe es st =
     (case st of (us, disk, s) \<Rightarrow>
        if spawned then read_stream d (Some dedupe) False es (us, disk, s, None)
        else (Phase_Failed, us, disk, s))"

definition run_live ::
    "deps \<Rightarrow> bool \<Rightarrow> unified_event list \<Rightarrow> unified_state \<times> disk \<times> sink \<Rightarrow>
       phase_exit \<times> unified_state \<times> disk \<times> sink" where
  "run_live d spawned es st =
     (case st of (us, disk, s) \<Rightarrow>
        if spawned then read_stream d None True es (us, disk, s, None)
        else (Phase_Failed, us, disk, s))"

record unified_cycle =
  uc_show :: bool
  uc_backfill :: "unified_event list"
  uc_stream :: bool
  uc_live :: "unified_event list"

text \<open>\<open>run_cycle\<close>: one element of the list per turn of the loop.\<close>

fun run_cycle ::
    "deps \<Rightarrow> unified_cycle list \<Rightarrow> disk \<times> sink \<Rightarrow> loop_exit \<times> disk \<times> sink" where
  "run_cycle d [] (disk, s) = (Exit_Running, disk, s)"
| "run_cycle d (c # cs) (disk, s) =
     (let initial = load_checkpoint d disk;
          us0 = unified_state_new initial;
          (bx, us1, disk1, s1) =
            (case initial of
               Some cp \<Rightarrow> run_backfill d (uc_show c) cp (uc_backfill c) (us0, disk, s)
             | None \<Rightarrow> (Phase_Done, us0, disk, s))
      in if bx = Phase_Cancelled then (Exit_Cancelled, disk1, s1)
         else if bx = Phase_Failed then (Exit_Failed, disk1, s1)
         else if bx = Phase_Running then (Exit_Running, disk1, s1)
         else (case run_live d (uc_stream c) (uc_live c) (us1, disk1, s1) of
                 (Phase_Cancelled, us2, disk2, s2) \<Rightarrow> (Exit_Cancelled, disk2, s2)
               | (Phase_Failed, us2, disk2, s2) \<Rightarrow> (Exit_Failed, disk2, s2)
               | (Phase_Done, us2, disk2, s2) \<Rightarrow> (Exit_Failed, disk2, s2)
               | (Phase_Running, us2, disk2, s2) \<Rightarrow> (Exit_Running, disk2, s2)
               | (Phase_Reconcile, us2, disk2, s2) \<Rightarrow> run_cycle d cs (disk2, s2)))"

section \<open>Restarts\<close>

definition LOG_BIN :: path where "LOG_BIN = ''/usr/bin/log''"
definition UNIFIED_MAX_BACKOFF :: nat where "UNIFIED_MAX_BACKOFF = 30 * 1000"

text \<open>The arguments of the two subprocesses.\<close>

definition show_args :: "string \<Rightarrow> string \<Rightarrow> string list" where
  "show_args predicate start_wall = [''show'', ''--style'', ''ndjson'', ''--start'', start_wall, ''--predicate'', predicate]"

definition stream_args :: "string \<Rightarrow> string list" where
  "stream_args predicate = [''stream'', ''--style'', ''ndjson'', ''--predicate'', predicate]"

definition checkpoint_path :: "path \<Rightarrow> path" where
  "checkpoint_path state_dir = state_dir @ ''/unified_log_checkpoint''"

text \<open>\<open>is_available\<close>: the mode bits of a regular file at \<open>LOG_BIN\<close>, if there is one.\<close>

definition unified_is_available :: "nat option \<Rightarrow> bool" where
  "unified_is_available mode = (case mode of None \<Rightarrow> False | Some m \<Rightarrow> and m 73 \<noteq> 0)"

text \<open>
  One turn of \<open>tail_unified_log\<close>: the cycle, the cancellation flag after it, and whether the sleep
  elapses. The result is how the watcher ends, the delays slept, the checkpoint file and the sink.
\<close>

record unified_attempt =
  ut_cycles :: "unified_cycle list"
  ut_cancelled :: bool
  ut_slept :: bool

fun tail_unified_from :: "deps \<Rightarrow> unified_attempt list \<Rightarrow> nat \<Rightarrow> disk \<times> sink \<Rightarrow> loop_exit \<times> nat list \<times> disk \<times> sink" where
  "tail_unified_from d [] backoff st = (Exit_Running, [], st)"
| "tail_unified_from d (a # as) backoff st =
     (case run_cycle d (ut_cycles a) st of
        (Exit_Running, st') \<Rightarrow> (Exit_Running, [], st')
      | (Exit_Cancelled, st') \<Rightarrow> (Exit_Cancelled, [], st')
      | (Exit_Failed, st') \<Rightarrow>
          if ut_cancelled a then (Exit_Cancelled, [], st')
          else if \<not> ut_slept a then (Exit_Cancelled, [backoff], st')
          else (case tail_unified_from d as (next_backoff backoff UNIFIED_MAX_BACKOFF) st' of
                  (x, delays, st'') \<Rightarrow> (x, backoff # delays, st'')))"

definition tail_unified_log :: "deps \<Rightarrow> unified_attempt list \<Rightarrow> disk \<times> sink \<Rightarrow> loop_exit \<times> nat list \<times> disk \<times> sink" where
  "tail_unified_log d as st = tail_unified_from d as 1000 st"

end
