(* ===== verification/Unified_Props.thy ===== *)
theory Unified_Props
  imports Unified
begin

text \<open>
  The unified-log source meets the contract of an entry source in both phases; what the
  boundary deduplication guarantees, and where the checkpoint can move backwards.
\<close>

section \<open>The interface\<close>

definition unified_decision ::
    "deps \<Rightarrow> checkpoint option \<Rightarrow> string \<Rightarrow> (checkpoint option \<times> log_entry list) option" where
  "unified_decision d dedupe line =
     (case unified_parse d line of
        None \<Rightarrow> None
      | Some e \<Rightarrow>
          Some (if ue_event_type e \<notin> {Some ''logEvent'', Some ''traceEvent''} then (entry_checkpoint e, [])
                else if dedupe_hit dedupe e then (None, [])
                else (entry_checkpoint e,
                      if is_self e \<or> ue_event_message e \<in> {None, Some []} then []
                      else [\<lparr>le_level = message_type_to_level (ue_message_type e),
                             le_message = the (ue_event_message e), le_component = None,
                             le_service = Some (unified_service_of e),
                             le_payload = unified_build_payload d e\<rparr>])))"

definition unified_entries :: "deps \<Rightarrow> checkpoint option \<Rightarrow> string \<Rightarrow> log_entry list" where
  "unified_entries d dedupe line = (case unified_decision d dedupe line of None \<Rightarrow> [] | Some (c, es) \<Rightarrow> es)"

definition unified_position :: "deps \<Rightarrow> checkpoint option \<Rightarrow> string \<Rightarrow> checkpoint option" where
  "unified_position d dedupe line = (case unified_decision d dedupe line of None \<Rightarrow> None | Some (c, es) \<Rightarrow> c)"

lemma unified_process_cases:
  assumes "is_live s" and "unified_process_entry d dedupe l s = (r, s')"
  shows "(r = ChannelFull \<and> is_live s' \<and> delivered s' = delivered s)
    \<or> (r = Handled (unified_position d dedupe l) \<and> is_live s' \<and> delivered s' = delivered s @ unified_entries d dedupe l)
    \<or> (r = ParseFailed \<and> s' = s \<and> unified_entries d dedupe l = [] \<and> unified_position d dedupe l = None)"
proof (cases "unified_parse d l")
  case None
  with assms show ?thesis
    by (simp add: unified_process_entry_def unified_entries_def unified_position_def unified_decision_def)
next
  case (Some e)
  note defs = unified_process_entry_def unified_entries_def unified_position_def unified_decision_def Let_def
  show ?thesis
  proof (cases "unified_entries d dedupe l")
    case Nil
    with Some assms show ?thesis
      by (auto simp: defs split: option.splits if_splits)
  next
    case (Cons x xs)
    obtain ok s1 where s1: "try_log_with_service d s x = (ok, s1)" by fastforce
    note law = tell_channel.send_sent [OF assms(1) s1] tell_channel.send_live [OF assms(1) s1]
    from Cons Some assms(2) s1 law show ?thesis
      by (cases ok) (auto simp: defs split: option.splits if_splits)
  qed
qed

interpretation unified_src:
  entry_source "unified_process_entry d dedupe" delivered is_live "unified_entries d dedupe" "unified_position d dedupe" for d dedupe
proof unfold_locales
  fix s l s' c
  assume live: "is_live s"
  { assume "unified_process_entry d dedupe l s = (ChannelFull, s')"
    from unified_process_cases [OF live this] show "is_live s' \<and> delivered s' = delivered s" by simp }
  { assume "unified_process_entry d dedupe l s = (Handled c, s')"
    from unified_process_cases [OF live this]
    show "is_live s' \<and> delivered s' = delivered s @ unified_entries d dedupe l \<and> c = unified_position d dedupe l" by simp }
  { assume "unified_process_entry d dedupe l s = (ParseFailed, s')"
    from unified_process_cases [OF live this] live
    show "is_live s' \<and> delivered s' = delivered s \<and> unified_entries d dedupe l = [] \<and> unified_position d dedupe l = None" by simp }
qed

section \<open>Phases\<close>

abbreviation unified_run_ok where
  "unified_run_ok d dedupe \<equiv> run_ok delivered is_live (unified_entries d dedupe) (unified_position d dedupe)"

abbreviation cp_bytes where "cp_bytes d \<equiv> \<lambda>c. Some (cp_to_vec d c)"

lemma save_checkpoint_run_ok:
  "unified_run_ok d dd base c0 d0 (cp_bytes d) seen c (fst disk) s \<Longrightarrow>
     unified_run_ok d dd base c0 d0 (cp_bytes d) seen c (fst (save_checkpoint d io c disk)) s"
  by (erule unified_src.run_ok_save) (use write_checkpoint_cases in \<open>auto simp: save_checkpoint_def\<close>)

text \<open>One processed line and its bookkeeping.\<close>

lemma record_result_run_ok:
  assumes ok: "unified_run_ok d dd base c0 d0 (cp_bytes d) seen (us_last us) (fst disk) s"
    and p: "unified_process_entry d dd line s = (res, s')"
    and r: "record_result d io res (us, disk) = (out, us', disk')"
  shows "out = Advanced \<Longrightarrow> unified_run_ok d dd base c0 d0 (cp_bytes d) (seen @ [line]) (us_last us') (fst disk') s'"
    and "out = Record_Full \<Longrightarrow> us' = us \<and> disk' = disk \<and> unified_run_ok d dd base c0 d0 (cp_bytes d) seen (us_last us) (fst disk) s'"
proof -
  have live: "is_live s" using ok by (simp add: run_ok_def)
  note c = unified_process_cases [OF live p]
  have line: "unified_run_ok d dd base c0 d0 (cp_bytes d) (seen @ [line])
      (case unified_position d dd line of None \<Rightarrow> us_last us | Some x \<Rightarrow> Some x) (fst disk) s'"
    if "res \<noteq> ChannelFull"
    using unified_src.run_ok_line [OF ok, of s' line] c that live by auto
  show "unified_run_ok d dd base c0 d0 (cp_bytes d) (seen @ [line]) (us_last us') (fst disk') s'" if "out = Advanced"
  proof -
    have nf: "res \<noteq> ChannelFull" using r that by (auto simp: record_result_def)
    show ?thesis
      using r c nf line [OF nf] save_checkpoint_run_ok [OF line [OF nf], of io]
      by (auto simp: record_result_def Let_def split: option.splits if_splits)
  qed
  show "us' = us \<and> disk' = disk \<and> unified_run_ok d dd base c0 d0 (cp_bytes d) seen (us_last us) (fst disk) s'" if "out = Record_Full"
  proof -
    have f: "res = ChannelFull" using r that
      by (auto simp: record_result_def Let_def split: outcome.splits option.splits if_splits)
    with c r unified_src.run_ok_cancel [OF ok] show ?thesis by (auto simp: record_result_def)
  qed
qed

lemma ship_line_run_ok:
  "ship_line d dd rc line io waits (us, disk, s, fs) = Some (out, us', disk', s', fs') \<Longrightarrow>
     unified_run_ok d dd base c0 d0 (cp_bytes d) seen (us_last us) (fst disk) s \<Longrightarrow>
     unified_run_ok d dd base c0 d0 (cp_bytes d) (if out = Line_Done then seen @ [line] else seen) (us_last us') (fst disk') s'"
proof (induction waits arbitrary: us disk s fs)
  case Nil
  obtain res s1 where p: "unified_process_entry d dd line s = (res, s1)" by fastforce
  obtain o1 us1 disk1 where r: "record_result d io res (us, disk) = (o1, us1, disk1)" by (metis prod_cases3)
  from Nil p r record_result_run_ok [OF Nil(2) p r] show ?case by (cases o1) auto
next
  case (Cons w ws)
  obtain now slept where w: "w = (now, slept)" by fastforce
  obtain res s1 where p: "unified_process_entry d dd line s = (res, s1)" by fastforce
  obtain o1 us1 disk1 where r: "record_result d io res (us, disk) = (o1, us1, disk1)" by (metis prod_cases3)
  note rr = record_result_run_ok [OF Cons.prems(2) p r]
  show ?case
  proof (cases o1)
    case Advanced
    with Cons.prems(1) p r rr show ?thesis by auto
  next
    case Record_Full
    with rr have "us1 = us" "disk1 = disk" and ok: "unified_run_ok d dd base c0 d0 (cp_bytes d) seen (us_last us) (fst disk) s1" by auto
    with Cons.prems(1) p r Record_Full w Cons.IH [OF _ ok] show ?thesis
      by (auto simp: Let_def split: if_splits)
  qed
qed

lemma unified_process_accepting:
  "accepting d \<Longrightarrow> is_live s \<Longrightarrow> fst (unified_process_entry d dd l s) \<noteq> ChannelFull"
  by (auto simp: unified_process_entry_def Let_def dest: try_log_accepting split: option.splits prod.splits bool.splits)

lemma record_result_advanced: "res \<noteq> ChannelFull \<Longrightarrow> fst (record_result d io res st) = Advanced"
  by (cases st; cases res) (auto simp: record_result_def Let_def split: option.splits)

lemma ship_line_accepting:
  assumes "accepting d" and "is_live s"
  shows "map_option fst (ship_line d dd rc line io waits (us, disk, s, fs)) = Some Line_Done"
  using record_result_advanced [OF unified_process_accepting [OF assms, of dd line], of d io "(us, disk)"]
  by (subst ship_line.simps) (auto split: prod.splits record_outcome.splits)

definition unified_lines :: "unified_event list \<Rightarrow> string list" where
  "unified_lines es = concat (map (\<lambda>e. case e of
     U_Line l ws io \<Rightarrow> if UNIFIED_MAX_LINE_LEN < length l \<or> \<not> starts_with (trim_start l) ''{'' then [] else [l]
   | _ \<Rightarrow> []) es)"

fun arrived_unified :: "unified_event list \<Rightarrow> string list" where
  "arrived_unified [] = []"
| "arrived_unified (U_Line l ws io # es) =
     (if UNIFIED_MAX_LINE_LEN < length l \<or> \<not> starts_with (trim_start l) ''{'' then [] else [l]) @ arrived_unified es"
| "arrived_unified (e # es) = []"

lemma read_stream_run_ok:
  "read_stream d dd rc es (us, disk, s, fs) = (x, us', disk', s') \<Longrightarrow>
     unified_run_ok d dd base c0 d0 (cp_bytes d) seen (us_last us) (fst disk) s \<Longrightarrow>
     \<exists>more. prefix more (unified_lines es) \<and> (accepting d \<longrightarrow> more = arrived_unified es)
       \<and> unified_run_ok d dd base c0 d0 (cp_bytes d) (seen @ more) (us_last us') (fst disk') s'"
proof (induction es arbitrary: us disk s fs seen)
  case Nil
  then show ?case by (intro exI [of _ "[]"]) simp
next
  case (Cons e es)
  have live: "is_live s" using Cons.prems(2) by (simp add: run_ok_def)
  let ?goal = "\<exists>more. prefix more (unified_lines (e # es)) \<and> (accepting d \<longrightarrow> more = arrived_unified (e # es))
       \<and> unified_run_ok d dd base c0 d0 (cp_bytes d) (seen @ more) (us_last us') (fst disk') s'"
  have stop: ?goal if "us' = us1" "disk' = save_checkpoint d io (us_last us1) disk1" "s' = s1"
    "unified_run_ok d dd base c0 d0 (cp_bytes d) seen (us_last us1) (fst disk1) s1"
    "accepting d \<longrightarrow> arrived_unified (e # es) = []" for us1 disk1 s1 io
    using that save_checkpoint_run_ok [OF that(4), of io] by (intro exI [of _ "[]"]) simp
  show ?case
  proof (cases e)
    case (U_Line line waits io)
    show ?thesis
    proof (cases "UNIFIED_MAX_LINE_LEN < length line \<or> \<not> starts_with (trim_start line) ''{''")
      case True
      with Cons.prems(1) U_Line have "read_stream d dd rc es (us, disk, s, fs) = (x, us', disk', s')" by simp
      from Cons.IH [OF this Cons.prems(2)] True U_Line show ?thesis by (simp add: unified_lines_def)
    next
      case False
      then have ev: "unified_lines (e # es) = line # unified_lines es" by (simp add: unified_lines_def U_Line)
      show ?thesis
      proof (cases "ship_line d dd rc line io waits (us, disk, s, fs)")
        case None
        then have "\<not> accepting d" using ship_line_accepting [OF _ live, of d dd rc line io waits us disk fs] by auto
        with None Cons.prems U_Line False show ?thesis
          by (intro exI [of _ "[]"]) (simp del: ship_line.simps)
      next
        case (Some res)
        obtain o1 us1 disk1 s1 fs1 where res: "res = (o1, us1, disk1, s1, fs1)" by (metis prod_cases5)
        note h = ship_line_run_ok [OF Some [unfolded res] Cons.prems(2)]
        have acc: "accepting d \<Longrightarrow> o1 = Line_Done"
          using ship_line_accepting [OF _ live, of d dd rc line io waits us disk fs] Some res by simp
        show ?thesis
        proof (cases o1)
          case Line_Done
          with Cons.prems(1) U_Line False Some res
          have rec: "read_stream d dd rc es (us1, disk1, s1, fs1) = (x, us', disk', s')" by (simp del: ship_line.simps)
          from Cons.IH [OF rec, of "seen @ [line]"] h Line_Done obtain more where "prefix more (unified_lines es)"
            "accepting d \<longrightarrow> more = arrived_unified es"
            "unified_run_ok d dd base c0 d0 (cp_bytes d) (seen @ [line] @ more) (us_last us') (fst disk') s'" by auto
          then show ?thesis using False ev by (intro exI [of _ "line # more"]) (simp add: U_Line)
        next
          case Line_Cancelled
          with Cons.prems(1) U_Line False Some res h acc show ?thesis by (intro stop [of us1 io disk1 s1]) (auto simp del: ship_line.simps)
        next
          case Line_Reconcile
          with Cons.prems(1) U_Line False Some res h acc show ?thesis by (intro stop [of us1 io disk1 s1]) (auto simp del: ship_line.simps)
        qed
      qed
    qed
  qed (use Cons.prems stop [of us _ disk s] in auto)
qed

section \<open>Properties\<close>



text \<open>
  C28: the replay never sends an entry again that the checkpoint covers: during backfill an
  entry of the same boot with a mach timestamp at or before the checkpoint is neither sent
  nor refused, and a log or trace entry among them does not move the checkpoint.
\<close>

theorem backfill_dedupe:
  assumes "unified_parse d line = Some e" and "ue_boot_uuid e = Some (boot_uuid cp)"
    and "ue_mach_timestamp e = Some mach" and "mach \<le> mach_timestamp cp"
  shows "\<exists>p. unified_process_entry d (Some cp) line s = (Handled p, s)
    \<and> (ue_event_type e \<in> {Some ''logEvent'', Some ''traceEvent''} \<longrightarrow> p = None)"
  using assms by (auto simp: unified_process_entry_def Let_def dedupe_hit_def)

definition demo_unified_deps :: deps where
  "demo_unified_deps =
     ref_deps\<lparr>serde_members := (\<lambda>s. Some [(''eventType'', JString s), (''eventMessage'', JString ''m''),
       (''machTimestamp'', JNumber (PosInt 90)), (''bootUUID'', JString ''B''), (''timestamp'', JString ''T'')])\<rparr>"

lemma demo_unified_parse:
  "trim s = s \<Longrightarrow> unified_parse demo_unified_deps s =
     Some \<lparr>ue_event_type = Some s, ue_message_type = None, ue_event_message = Some ''m'', ue_subsystem = None,
           ue_category = None, ue_process_image_path = None, ue_process_id = None, ue_mach_timestamp = Some 90,
           ue_boot_uuid = Some ''B'', ue_wall_timestamp = Some ''T'', ue_extras = []\<rparr>"
  by (simp add: unified_parse_def demo_unified_deps_def unified_of_members_def opt_string_field_def
      opt_i64_field_def opt_u64_field_def member_values_def flatten_extras_def UNIFIED_FIELDS_def)

theorem backfill_dedupe_witness:
  "unified_process_entry demo_unified_deps (Some \<lparr>boot_uuid = ''B'', mach_timestamp = 100, wall_timestamp = ''U''\<rparr>) ''logEvent'' sink_discard
     = (Handled None, sink_discard)"
proof -
  have "trim ''logEvent'' = ''logEvent''"
    by (simp add: trim_def trim_start_def trim_end_def trim_front.simps ws_seqs_def)
  from backfill_dedupe [OF demo_unified_parse [OF this], of "\<lparr>boot_uuid = ''B'', mach_timestamp = 100, wall_timestamp = ''U''\<rparr>" 90 sink_discard]
  show ?thesis by auto
qed

text \<open>
  The order of the two tests lets the checkpoint move backwards. A structural entry
  (neither log nor trace event) replayed at the boundary is recognised before the
  deduplication, so the source records its position although it lies before the checkpoint;
  entries between the two positions are sent again after the next restart.
\<close>

theorem checkpoint_moves_back:
  "\<exists>p us disk. unified_process_entry demo_unified_deps (Some \<lparr>boot_uuid = ''B'', mach_timestamp = 100, wall_timestamp = ''U''\<rparr>)
       ''activityCreateEvent'' s = (Handled (Some p), s)
     \<and> record_result demo_unified_deps io (Handled (Some p))
         (unified_state_new (Some \<lparr>boot_uuid = ''B'', mach_timestamp = 100, wall_timestamp = ''U''\<rparr>), disk0) = (Advanced, us, disk)
     \<and> us_last us = Some p \<and> mach_timestamp p < 100"
proof -
  have t: "trim ''activityCreateEvent'' = ''activityCreateEvent''"
    by (simp add: trim_def trim_start_def trim_end_def trim_front.simps ws_seqs_def)
  show ?thesis
    by (simp add: unified_process_entry_def demo_unified_parse [OF t] entry_checkpoint_def record_result_def
        unified_state_new_def UNIFIED_SAVE_INTERVAL_def)
qed

end
