(* ===== verification/Eventlog_Filter.thy ===== *)
theory Eventlog_Filter
  imports Sink
begin

text \<open>
  \<open>src/logs/eventlog_filter.rs\<close>: the event-id specification (ranges to include and to
  exclude) and the provider exclusion. Errors carry the message of the source.
\<close>

section \<open>Definitions\<close>

record event_id_filter =
  ids_include :: "(nat \<times> nat) list"
  ids_exclude :: "(nat \<times> nat) list"

definition quote :: "string \<Rightarrow> string" where
  "quote s = CHR 0x27 # s @ [CHR 0x27]"

definition parse_id :: "string \<Rightarrow> string \<Rightarrow> string + nat" where
  "parse_id s tok =
     (case parse_u32 (trim s) of Some n \<Rightarrow> Inr n | None \<Rightarrow> Inl (''invalid event id token '' @ quote tok))"

definition parse_range :: "string \<Rightarrow> string \<Rightarrow> string + (nat \<times> nat)" where
  "parse_range bdy tok =
     (case split_once CHR ''-'' bdy of
        Some (a, b) \<Rightarrow>
          (case parse_id a tok of
             Inl e \<Rightarrow> Inl e
           | Inr lo \<Rightarrow>
               (case parse_id b tok of
                  Inl e \<Rightarrow> Inl e
                | Inr hi \<Rightarrow>
                    if hi < lo
                    then Inl (''invalid event id range '' @ quote tok @ '': '' @ show_nat lo @ '' > '' @ show_nat hi)
                    else Inr (lo, hi)))
      | None \<Rightarrow> (case parse_id bdy tok of Inl e \<Rightarrow> Inl e | Inr n \<Rightarrow> Inr (n, n)))"

fun parse_tokens :: "string list \<Rightarrow> event_id_filter \<Rightarrow> string + event_id_filter" where
  "parse_tokens [] f = Inr f"
| "parse_tokens (raw # raws) f =
     (let tok = trim raw in
      if tok = [] then parse_tokens raws f
      else (case strip_prefix ''-'' tok of
              Some rest \<Rightarrow>
                (case parse_range (trim rest) tok of
                   Inl e \<Rightarrow> Inl e | Inr r \<Rightarrow> parse_tokens raws (f\<lparr>ids_exclude := ids_exclude f @ [r]\<rparr>))
            | None \<Rightarrow>
                (case parse_range tok tok of
                   Inl e \<Rightarrow> Inl e | Inr r \<Rightarrow> parse_tokens raws (f\<lparr>ids_include := ids_include f @ [r]\<rparr>))))"

definition event_id_parse :: "string \<Rightarrow> string + event_id_filter" where
  "event_id_parse spec = parse_tokens (split_char CHR '','' spec) \<lparr>ids_include = [], ids_exclude = []\<rparr>"

definition in_range :: "nat \<Rightarrow> nat \<times> nat \<Rightarrow> bool" where
  "in_range ident = (\<lambda>(lo, hi). lo \<le> ident \<and> ident \<le> hi)"

definition id_matches :: "event_id_filter \<Rightarrow> nat \<Rightarrow> bool" where
  "id_matches f ident =
     (if list_ex (in_range ident) (ids_exclude f) then False
      else if ids_include f = [] then True
      else list_ex (in_range ident) (ids_include f))"

record event_filter =
  ef_event_ids :: "event_id_filter option"
  ef_exclude_providers :: "string list"

definition event_filter_new :: "string option \<Rightarrow> string list \<Rightarrow> string + event_filter" where
  "event_filter_new event_ids exclude_providers =
     (case event_ids of
        Some s \<Rightarrow> (case event_id_parse s of
                     Inl e \<Rightarrow> Inl e
                   | Inr f \<Rightarrow> Inr \<lparr>ef_event_ids = Some f, ef_exclude_providers = exclude_providers\<rparr>)
      | None \<Rightarrow> Inr \<lparr>ef_event_ids = None, ef_exclude_providers = exclude_providers\<rparr>)"

definition event_excludes :: "event_filter \<Rightarrow> string \<Rightarrow> string \<Rightarrow> bool" where
  "event_excludes f provider event_id =
     (if list_ex (\<lambda>p. eq_ignore_ascii_case p provider) (ef_exclude_providers f) then True
      else (case ef_event_ids f of
              None \<Rightarrow> False
            | Some ids \<Rightarrow> (case parse_u32 event_id of None \<Rightarrow> False | Some n \<Rightarrow> \<not> id_matches ids n)))"

section \<open>Printing a filter\<close>

definition print_range :: "nat \<times> nat \<Rightarrow> string" where
  "print_range = (\<lambda>(lo, hi). if lo = hi then show_nat lo else show_nat lo @ ''-'' @ show_nat hi)"

definition print_tokens :: "event_id_filter \<Rightarrow> string list" where
  "print_tokens f = map print_range (ids_include f) @ map (\<lambda>r. ''-'' @ print_range r) (ids_exclude f)"

definition print_filter :: "event_id_filter \<Rightarrow> string" where
  "print_filter f = join '','' (print_tokens f)"

definition range_ok :: "nat \<times> nat \<Rightarrow> bool" where
  "range_ok = (\<lambda>(lo, hi). lo \<le> hi \<and> hi < 2 ^ 32)"

lemma minus_visible: "32 < code CHR ''-'' \<and> code CHR ''-'' < 128"
  by (simp add: code_def)

lemma print_range_visible: "\<forall>c \<in> set (print_range r). 32 < code c \<and> code c < 128"
  using show_nat_visible minus_visible by (auto simp: print_range_def split: prod.splits if_splits)

lemma show_nat_no_minus: "CHR ''-'' \<notin> set (show_nat n)" "CHR '','' \<notin> set (show_nat n)"
  by (simp_all add: show_nat_no_sep is_ascii_digit_def code_def)

lemma parse_id_show: "n < 2 ^ 32 \<Longrightarrow> parse_id (show_nat n) tok = Inr n"
  using trim_visible [of "show_nat n"] show_nat_visible by (simp add: parse_id_def parse_show_nat)

lemma parse_print_range: "range_ok r \<Longrightarrow> parse_range (print_range r) tok = Inr r"
proof -
  obtain lo hi where r: "r = (lo, hi)" by fastforce
  assume "range_ok r"
  then have *: "lo \<le> hi" "lo < 2 ^ 32" "hi < 2 ^ 32" by (auto simp: range_ok_def r)
  show ?thesis
  proof (cases "lo = hi")
    case True
    then show ?thesis
      using * show_nat_no_minus(1) [of hi]
      by (simp add: parse_range_def print_range_def r split_once_None [THEN iffD2] parse_id_show del: power_numeral)
  next
    case False
    then show ?thesis
      using * split_once_append [OF show_nat_no_minus(1), of lo "show_nat hi"]
      by (simp add: parse_range_def print_range_def r parse_id_show del: power_numeral)
  qed
qed

lemma print_range_digit: "print_range r = c # s \<Longrightarrow> is_ascii_digit c"
  using show_nat_digits show_nat_nonempty
  by (auto simp: print_range_def split: prod.splits if_splits) (metis hd_append2 hd_in_set list.sel(1))+

lemma strip_minus_range: "strip_prefix ''-'' (print_range r) = None"
  using print_range_digit [of r] by (cases "print_range r") (auto simp: strip_prefix_def is_ascii_digit_def code_def)

lemma print_range_nonempty: "print_range r \<noteq> []"
  using show_nat_nonempty by (auto simp: print_range_def split: prod.splits)

lemma parse_tokens_includes:
  "\<forall>r \<in> set rs. range_ok r \<Longrightarrow>
     parse_tokens (map print_range rs @ raws) f = parse_tokens raws (f\<lparr>ids_include := ids_include f @ rs\<rparr>)"
  by (induction rs arbitrary: f)
    (simp_all add: trim_visible [OF print_range_visible] print_range_nonempty strip_minus_range parse_print_range)

lemma parse_tokens_excludes:
  "\<forall>r \<in> set rs. range_ok r \<Longrightarrow>
     parse_tokens (map (\<lambda>r. CHR ''-'' # print_range r) rs) f = Inr (f\<lparr>ids_exclude := ids_exclude f @ rs\<rparr>)"
proof (induction rs arbitrary: f)
  case (Cons r rs)
  have t: "trim (CHR ''-'' # print_range r) = CHR ''-'' # print_range r"
    by (rule trim_visible) (use print_range_visible minus_visible in auto)
  from Cons t show ?case
    by (simp add: strip_prefix_def trim_visible [OF print_range_visible] parse_print_range)
qed simp

lemma split_join:
  "ts \<noteq> [] \<Longrightarrow> \<forall>t \<in> set ts. c \<notin> set t \<Longrightarrow> split_char c (join [c] ts) = ts"
proof (induction "[c]" ts rule: join.induct)
  case (2 x)
  then show ?case by (induction x) auto
next
  case (3 x y xs)
  have "split_char c (x @ c # b) = x # split_char c b" if "c \<notin> set x" for b
    using that by (induction x) auto
  with 3 show ?case by simp
qed simp

lemma print_tokens_no_comma: "t \<in> set (print_tokens f) \<Longrightarrow> CHR '','' \<notin> set t"
  using show_nat_no_minus(2) by (auto simp: print_tokens_def print_range_def split: prod.splits if_splits)

lemma parse_range_ok: "parse_range b tok = Inr r \<Longrightarrow> range_ok r"
  by (auto simp: parse_range_def parse_id_def range_ok_def split: option.splits sum.splits if_splits
      dest!: parse_uint_bound)

lemma parse_tokens_ok:
  "parse_tokens raws f = Inr g \<Longrightarrow> \<forall>r \<in> set (ids_include f) \<union> set (ids_exclude f). range_ok r \<Longrightarrow>
     \<forall>r \<in> set (ids_include g) \<union> set (ids_exclude g). range_ok r"
proof (induction raws arbitrary: f)
  case (Cons raw raws)
  let ?tok = "trim raw"
  consider (blank) "?tok = []"
    | (excl) rest r where "?tok \<noteq> []" "strip_prefix ''-'' ?tok = Some rest" "parse_range (trim rest) ?tok = Inr r"
        "parse_tokens raws (f\<lparr>ids_exclude := ids_exclude f @ [r]\<rparr>) = Inr g"
    | (incl) r where "?tok \<noteq> []" "strip_prefix ''-'' ?tok = None" "parse_range ?tok ?tok = Inr r"
        "parse_tokens raws (f\<lparr>ids_include := ids_include f @ [r]\<rparr>) = Inr g"
    using Cons.prems(1) by (auto simp: Let_def split: if_splits option.splits sum.splits)
  then show ?case
  proof cases
    case blank
    with Cons show ?thesis by simp
  next
    case excl
    show ?thesis by (rule Cons.IH [OF excl(4)]) (use Cons.prems(2) parse_range_ok [OF excl(3)] in auto)
  next
    case incl
    show ?thesis by (rule Cons.IH [OF incl(4)]) (use Cons.prems(2) parse_range_ok [OF incl(3)] in auto)
  qed
qed simp

section \<open>Properties\<close>

text \<open>
  Parsing inverts printing. A filter printed in the documented syntax (single ids,
  ranges, excluded ids and ranges) is parsed back to the same include and exclude ranges.
\<close>

theorem event_filter_roundtrip:
  assumes "\<forall>r \<in> set (ids_include f) \<union> set (ids_exclude f). range_ok r"
  shows "event_id_parse (print_filter f) = Inr f"
proof -
  have parsed: "parse_tokens (print_tokens f) \<lparr>ids_include = [], ids_exclude = []\<rparr> = Inr f"
    using assms by (simp add: print_tokens_def parse_tokens_includes parse_tokens_excludes)
  show ?thesis
  proof (cases "print_tokens f = []")
    case True
    then show ?thesis using parsed by (simp add: event_id_parse_def print_filter_def)
  next
    case False
    then show ?thesis
      using parsed split_join [OF False] print_tokens_no_comma by (simp add: event_id_parse_def print_filter_def)
  qed
qed

theorem event_filter_roundtrip_witness:
  "event_id_parse (print_filter \<lparr>ids_include = [(4624, 4625), (7, 7)], ids_exclude = [(4735, 4735)]\<rparr>)
     = Inr \<lparr>ids_include = [(4624, 4625), (7, 7)], ids_exclude = [(4735, 4735)]\<rparr>"
  by (rule event_filter_roundtrip) (simp add: range_ok_def)

text \<open>
  What the parser accepts is usable: every range of a parsed specification is ordered
  and in the 32-bit range, so an accepted include always matches some id unless excluded.
\<close>

theorem event_id_parse_sound:
  assumes "event_id_parse spec = Inr f"
  shows "\<forall>r \<in> set (ids_include f) \<union> set (ids_exclude f). range_ok r"
  using parse_tokens_ok [OF assms [unfolded event_id_parse_def]] by simp

theorem event_id_parse_sound_witness: "range_ok (4624, 4625)"
proof -
  have "event_id_parse (print_filter \<lparr>ids_include = [(4624, 4625)], ids_exclude = []\<rparr>) = Inr \<lparr>ids_include = [(4624, 4625)], ids_exclude = []\<rparr>"
    using parse_tokens_includes [of "[(4624, 4625)]" "[]" "\<lparr>ids_include = [], ids_exclude = []\<rparr>"]
      split_join [of "print_tokens \<lparr>ids_include = [(4624, 4625)], ids_exclude = []\<rparr>" "CHR '',''"]
      print_tokens_no_comma [of _ "\<lparr>ids_include = [(4624, 4625)], ids_exclude = []\<rparr>"]
    by (simp add: event_id_parse_def print_filter_def print_tokens_def range_ok_def)
  from event_id_parse_sound [OF this] show ?thesis by simp
qed

end
