(* ===== verification/Eventlog.thy ===== *)
theory Eventlog
  imports Eventlog_Filter Journal_Props
begin

text \<open>
  \<open>src/logs/eventlog_parse.rs\<close> and the platform-independent logic of \<open>src/logs/eventlog.rs\<close>:
  parsing of a rendered event, severity, body and payload, the bookmark file, and the pull
  pump with its back-pressure loop. The XML reader and the Windows calls are parameters.
\<close>

section \<open>Constants\<close>

definition AUDIT_FAILURE :: "64 word" where "AUDIT_FAILURE = 0x8010000000000000"
definition AUDIT_SUCCESS :: "64 word" where "AUDIT_SUCCESS = 0x8020000000000000"
definition MAX_XML_LEN :: nat where "MAX_XML_LEN = 256 * 1024"
definition SELF_PROVIDER :: string where "SELF_PROVIDER = ''witness''"
definition BOOKMARK_SAVE_INTERVAL :: nat where "BOOKMARK_SAVE_INTERVAL = 100"

definition DEFAULT_QUERY :: string where
  "DEFAULT_QUERY = ''*[System[(Level=0 or Level=1 or Level=2 or Level=3 or Level=4)]]''"

definition effective_query :: "string option \<Rightarrow> string" where
  "effective_query configured = (case configured of Some q \<Rightarrow> q | None \<Rightarrow> DEFAULT_QUERY)"

section \<open>Events\<close>

record event_entry =
  ee_provider :: string
  ee_event_id :: string
  ee_qualifiers :: string
  ee_level :: "nat option"
  ee_task :: string
  ee_opcode :: string
  ee_keywords :: string
  ee_version :: string
  ee_time_created :: string
  ee_computer :: string
  ee_channel :: string
  ee_record_id :: string
  ee_activity_id :: string
  ee_related_activity_id :: string
  ee_process_id :: string
  ee_thread_id :: string
  ee_user_sid :: string
  ee_data :: "(string option \<times> string) list"

definition event_default :: event_entry where
  "event_default =
     \<lparr>ee_provider = [], ee_event_id = [], ee_qualifiers = [], ee_level = None, ee_task = [],
      ee_opcode = [], ee_keywords = [], ee_version = [], ee_time_created = [], ee_computer = [],
      ee_channel = [], ee_record_id = [], ee_activity_id = [], ee_related_activity_id = [],
      ee_process_id = [], ee_thread_id = [], ee_user_sid = [], ee_data = []\<rparr>"

definition level_of :: "nat option \<Rightarrow> log_level" where
  "level_of level =
     (if level = Some 1 then Critical else if level = Some 2 then Error
      else if level = Some 3 then Warning else if level = Some 5 then Debug else Info)"

definition parse_keywords_hex :: "string \<Rightarrow> 64 word option" where
  "parse_keywords_hex s =
     (let hex = trim s in
      case (case strip_prefix ''0x'' hex of Some h \<Rightarrow> Some h | None \<Rightarrow> strip_prefix ''0X'' hex) of
        None \<Rightarrow> None
      | Some h \<Rightarrow> map_option of_nat (parse_uint 16 (2 ^ 64) h))"

definition resolve_severity :: "event_entry \<Rightarrow> log_level \<times> string option" where
  "resolve_severity e =
     (case parse_keywords_hex (ee_keywords e) of
        Some k \<Rightarrow>
          if k AND AUDIT_FAILURE = AUDIT_FAILURE then (Error, Some ''failure'')
          else if k AND AUDIT_SUCCESS = AUDIT_SUCCESS then (Info, Some ''success'')
          else (level_of (ee_level e), None)
      | None \<Rightarrow> (level_of (ee_level e), None))"

definition mask_event_id :: "string \<Rightarrow> string" where
  "mask_event_id raw =
     (case parse_u32 raw of
        Some n \<Rightarrow> if 0xFFFF < n then show_nat (unat ((of_nat n :: 32 word) AND 0xFFFF)) else raw
      | None \<Rightarrow> raw)"

definition event_service_of :: "event_entry \<Rightarrow> string" where
  "event_service_of e = (if ee_provider e = [] then ''unknown'' else ee_provider e)"

definition data_parts :: "event_entry \<Rightarrow> string list" where
  "data_parts e = filter (\<lambda>t. t \<noteq> []) (map (trim \<circ> snd) (ee_data e))"

definition body_of :: "event_entry \<Rightarrow> string option \<Rightarrow> string" where
  "body_of e formatted =
     (let synth = (if data_parts e \<noteq> [] then join '', '' (data_parts e)
                   else (if ee_provider e = [] then ''unknown'' else ee_provider e) @ '' event '' @ ee_event_id e)
      in case formatted of
           Some msg \<Rightarrow> if trim msg \<noteq> [] then trim msg else synth
         | None \<Rightarrow> synth)"

definition insert_non_empty :: "string \<Rightarrow> string \<Rightarrow> (string, json) btree_map \<Rightarrow> (string, json) btree_map" where
  "insert_non_empty k v m = (if v \<noteq> [] then bt_insert k (JString v) m else m)"

definition system_fields :: "event_entry \<Rightarrow> string option \<Rightarrow> (string, json) btree_map" where
  "system_fields e out =
     (let m1 = insert_non_empty ''provider'' (ee_provider e) [];
          m2 = insert_non_empty ''event_id'' (ee_event_id e) m1;
          m3 = insert_non_empty ''qualifiers'' (ee_qualifiers e) m2;
          m4 = (case ee_level e of Some l \<Rightarrow> bt_insert ''level'' (JNumber (PosInt l)) m3 | None \<Rightarrow> m3);
          m5 = insert_non_empty ''task'' (ee_task e) m4;
          m6 = insert_non_empty ''opcode'' (ee_opcode e) m5;
          m7 = insert_non_empty ''keywords'' (ee_keywords e) m6;
          m8 = insert_non_empty ''version'' (ee_version e) m7;
          m9 = insert_non_empty ''channel'' (ee_channel e) m8;
          m10 = insert_non_empty ''computer'' (ee_computer e) m9;
          m11 = insert_non_empty ''record_id'' (ee_record_id e) m10;
          m12 = insert_non_empty ''time_created'' (ee_time_created e) m11;
          m13 = insert_non_empty ''activity_id'' (ee_activity_id e) m12;
          m14 = insert_non_empty ''related_activity_id'' (ee_related_activity_id e) m13;
          m15 = insert_non_empty ''process_id'' (ee_process_id e) m14;
          m16 = insert_non_empty ''thread_id'' (ee_thread_id e) m15;
          m17 = insert_non_empty ''user_sid'' (ee_user_sid e) m16
      in case out of Some x \<Rightarrow> bt_insert ''outcome'' (JString x) m17 | None \<Rightarrow> m17)"

definition entry_or_insert :: "string \<Rightarrow> json \<Rightarrow> (string, json) btree_map \<Rightarrow> (string, json) btree_map" where
  "entry_or_insert k v m = (case map_of m k of Some _ \<Rightarrow> m | None \<Rightarrow> bt_insert k v m)"

definition add_data :: "deps \<Rightarrow> (string option \<times> string) list \<Rightarrow> (string, json) btree_map \<Rightarrow> (string, json) btree_map" where
  "add_data d kvs m =
     fold (\<lambda>(name, v) m. case name of Some n \<Rightarrow> entry_or_insert (to_lowercase d n) (JString v) m | None \<Rightarrow> m) kvs m"

definition event_build_payload :: "deps \<Rightarrow> event_entry \<Rightarrow> string option \<Rightarrow> json option" where
  "event_build_payload d e out =
     (let obj = add_data d (ee_data e) (system_fields e out)
      in if obj = [] then None else Some (JObject obj))"

section \<open>XML\<close>

datatype xml_section = Sec_None | Sec_System | Sec_EventData | Sec_UserData

definition local_name :: "string \<Rightarrow> string" where
  "local_name n = (case position ((=) CHR '':'') n of Some i \<Rightarrow> drop (i + 1) n | None \<Rightarrow> n)"

definition enter_section :: "string \<Rightarrow> xml_section \<Rightarrow> xml_section" where
  "enter_section lname sec =
     (if lname = ''System'' then Sec_System else if lname = ''EventData'' then Sec_EventData
      else if lname = ''UserData'' then Sec_UserData else sec)"

text \<open>\<open>set_from_attr\<close>: the error, or the field with the attribute's value if it is present.\<close>

definition set_from_attr :: "xml_tag \<Rightarrow> string \<Rightarrow> (string \<Rightarrow> event_entry \<Rightarrow> event_entry) \<Rightarrow> event_entry \<Rightarrow> unit + event_entry" where
  "set_from_attr tag name upd e =
     (case tag_attr tag name of Inl x \<Rightarrow> Inl x | Inr None \<Rightarrow> Inr e | Inr (Some v) \<Rightarrow> Inr (upd v e))"

record parse_state =
  ps_entry :: event_entry
  ps_section :: xml_section
  ps_cur :: string
  ps_attr :: "string option option"
  ps_unnamed :: nat
  ps_text :: string

definition on_open :: "xml_tag \<Rightarrow> string \<Rightarrow> parse_state \<Rightarrow> unit + parse_state" where
  "on_open tag lname st =
     (let e = ps_entry st; put = map_sum id (\<lambda>e. st\<lparr>ps_entry := e\<rparr>) in
      if ps_section st = Sec_System then
        (if lname = ''Provider'' then put (set_from_attr tag ''Name'' (\<lambda>v e. e\<lparr>ee_provider := v\<rparr>) e)
         else if lname = ''EventID'' then put (set_from_attr tag ''Qualifiers'' (\<lambda>v e. e\<lparr>ee_qualifiers := v\<rparr>) e)
         else if lname = ''TimeCreated'' then put (set_from_attr tag ''SystemTime'' (\<lambda>v e. e\<lparr>ee_time_created := v\<rparr>) e)
         else if lname = ''Correlation'' then
           (case set_from_attr tag ''ActivityID'' (\<lambda>v e. e\<lparr>ee_activity_id := v\<rparr>) e of
              Inl x \<Rightarrow> Inl x
            | Inr e1 \<Rightarrow> put (set_from_attr tag ''RelatedActivityID'' (\<lambda>v e. e\<lparr>ee_related_activity_id := v\<rparr>) e1))
         else if lname = ''Execution'' then
           (case set_from_attr tag ''ProcessID'' (\<lambda>v e. e\<lparr>ee_process_id := v\<rparr>) e of
              Inl x \<Rightarrow> Inl x
            | Inr e1 \<Rightarrow> put (set_from_attr tag ''ThreadID'' (\<lambda>v e. e\<lparr>ee_thread_id := v\<rparr>) e1))
         else if lname = ''Security'' then put (set_from_attr tag ''UserID'' (\<lambda>v e. e\<lparr>ee_user_sid := v\<rparr>) e)
         else Inr st)
      else if ps_section st = Sec_EventData \<and> lname = ''Data'' then
        (case tag_attr tag ''Name'' of Inl x \<Rightarrow> Inl x | Inr a \<Rightarrow> Inr (st\<lparr>ps_attr := Some a\<rparr>))
      else Inr st)"

definition set_system_text :: "string \<Rightarrow> string \<Rightarrow> event_entry \<Rightarrow> event_entry" where
  "set_system_text lname t e =
     (if lname = ''EventID'' then e\<lparr>ee_event_id := mask_event_id t\<rparr>
      else if lname = ''Level'' then e\<lparr>ee_level := parse_uint 10 256 t\<rparr>
      else if lname = ''Task'' then e\<lparr>ee_task := t\<rparr>
      else if lname = ''Opcode'' then e\<lparr>ee_opcode := t\<rparr>
      else if lname = ''Keywords'' then e\<lparr>ee_keywords := t\<rparr>
      else if lname = ''Version'' then e\<lparr>ee_version := t\<rparr>
      else if lname = ''EventRecordID'' then e\<lparr>ee_record_id := t\<rparr>
      else if lname = ''Channel'' then e\<lparr>ee_channel := t\<rparr>
      else if lname = ''Computer'' then e\<lparr>ee_computer := t\<rparr>
      else e)"

definition push_data :: "string \<Rightarrow> string \<Rightarrow> event_entry \<Rightarrow> event_entry" where
  "push_data name v e = e\<lparr>ee_data := ee_data e @ [(Some name, v)]\<rparr>"

definition on_close :: "string \<Rightarrow> string \<Rightarrow> parse_state \<Rightarrow> parse_state" where
  "on_close lname txt_acc st =
     (let t = trim txt_acc in
      case ps_section st of
        Sec_System \<Rightarrow> st\<lparr>ps_entry := set_system_text lname t (ps_entry st)\<rparr>
      | Sec_EventData \<Rightarrow>
          if lname = ''Data'' then
            (case ps_attr st of
               Some (Some n) \<Rightarrow> st\<lparr>ps_attr := None, ps_entry := push_data n t (ps_entry st)\<rparr>
             | _ \<Rightarrow> st\<lparr>ps_attr := None, ps_unnamed := ps_unnamed st + 1,
                       ps_entry := push_data (''param'' @ show_nat (ps_unnamed st + 1)) t (ps_entry st)\<rparr>)
          else st
      | Sec_UserData \<Rightarrow>
          if lname \<noteq> ''UserData'' \<and> t \<noteq> [] then st\<lparr>ps_entry := push_data (from_utf8_lossy lname) t (ps_entry st)\<rparr>
          else st
      | Sec_None \<Rightarrow> st)"

fun xml_step :: "xml_event \<Rightarrow> parse_state \<Rightarrow> unit + parse_state" where
  "xml_step (X_Start tag) st =
     (let lname = local_name (tag_name tag) in
      case on_open tag lname (st\<lparr>ps_section := enter_section lname (ps_section st)\<rparr>) of
        Inl x \<Rightarrow> Inl x | Inr st' \<Rightarrow> Inr (st'\<lparr>ps_cur := lname, ps_text := []\<rparr>))"
| "xml_step (X_Empty tag) st =
     (let lname = local_name (tag_name tag) in
      case on_open tag lname (st\<lparr>ps_section := enter_section lname (ps_section st)\<rparr>) of
        Inl x \<Rightarrow> Inl x | Inr st' \<Rightarrow> Inr ((on_close lname [] st')\<lparr>ps_text := []\<rparr>))"
| "xml_step (X_Text t) st = Inr (case t of Some x \<Rightarrow> st\<lparr>ps_text := ps_text st @ x\<rparr> | None \<Rightarrow> st)"
| "xml_step (X_Ref t) st = Inr (case t of Some x \<Rightarrow> st\<lparr>ps_text := ps_text st @ x\<rparr> | None \<Rightarrow> st)"
| "xml_step (X_CData t) st = Inr (st\<lparr>ps_text := ps_text st @ from_utf8_lossy t\<rparr>)"
| "xml_step (X_End n) st =
     (let lname = local_name n;
          st1 = (if lname = ps_cur st then on_close lname (ps_text st) st else st)
      in Inr (st1\<lparr>ps_text := [], ps_cur := []\<rparr>))"
| "xml_step X_Other st = Inr st"
| "xml_step X_Error st = Inl ()"

fun xml_run :: "xml_event list \<Rightarrow> parse_state \<Rightarrow> unit + parse_state" where
  "xml_run [] st = Inr st"
| "xml_run (ev # evs) st = (case xml_step ev st of Inl x \<Rightarrow> Inl x | Inr st' \<Rightarrow> xml_run evs st')"

definition parse_init :: parse_state where
  "parse_init =
     \<lparr>ps_entry = event_default, ps_section = Sec_None, ps_cur = [], ps_attr = None, ps_unnamed = 0, ps_text = []\<rparr>"

definition parse_event_xml :: "deps \<Rightarrow> string \<Rightarrow> unit + event_entry" where
  "parse_event_xml d xml = map_sum id ps_entry (xml_run (xml_read d xml) parse_init)"

section \<open>Processing one event\<close>

definition event_process_entry ::
    "deps \<Rightarrow> event_filter \<Rightarrow> string option \<Rightarrow> string \<Rightarrow> sink \<Rightarrow> unit outcome \<times> sink" where
  "event_process_entry d flt formatted xml s =
     (if MAX_XML_LEN < length xml then (ParseFailed, s)
      else (case parse_event_xml d xml of
              Inl _ \<Rightarrow> (ParseFailed, s)
            | Inr e \<Rightarrow>
                if ee_provider e = SELF_PROVIDER then (Handled (), s)
                else if event_excludes flt (ee_provider e) (ee_event_id e) then (Handled (), s)
                else (let (level, out) = resolve_severity e in
                      case try_log_with_service d s
                             \<lparr>le_level = level, le_message = body_of e formatted, le_component = None,
                              le_service = Some (event_service_of e), le_payload = event_build_payload d e out\<rparr> of
                        (False, s') \<Rightarrow> (ChannelFull, s')
                      | (True, s') \<Rightarrow> (Handled (), s'))))"

section \<open>The bookmark file\<close>

definition sanitize_channel :: "string \<Rightarrow> string" where
  "sanitize_channel channel =
     concat (map (\<lambda>c. if is_cont c then []
                     else if is_ascii_alphanumeric c \<or> c = CHR ''-'' \<or> c = CHR ''_'' then [c] else ''_'') channel)"

definition bookmark_path :: "path \<Rightarrow> string \<Rightarrow> path" where
  "bookmark_path state_dir channel = state_dir @ ''/eventlog_bookmark_'' @ sanitize_channel channel"

definition load_bookmark :: "disk \<Rightarrow> string option" where
  "load_bookmark disk =
     (case fst disk of
        None \<Rightarrow> None
      | Some s \<Rightarrow> if utf8_valid s \<and> trim s \<noteq> [] then Some (trim s) else None)"

definition save_bookmark :: "checkpoint_io \<Rightarrow> string \<Rightarrow> disk \<Rightarrow> disk" where
  "save_bookmark io xml disk = write_checkpoint io xml disk"

section \<open>The pump\<close>

text \<open>
  One attempt to save the bookmark: whether rendering it succeeds, and the file system.
\<close>

record flush_io =
  fl_render :: bool
  fl_io :: checkpoint_io

text \<open>
  An event as the pump sees it: what rendering returns, whether updating the bookmark
  succeeds, the bookmark XML that stands for it, a save after it, and the waits it meets.
\<close>

record win_event =
  ev_xml :: "string option"
  ev_update :: bool
  ev_mark :: string
  ev_flush :: flush_io
  ev_waits :: "bool list"

text \<open>The pump state: the bookmark as it renders, the events since the last save, the file.\<close>

record pump_state =
  pu_bookmark :: string
  pu_since_save :: nat
  pu_disk :: disk

definition pump_flush :: "flush_io \<Rightarrow> pump_state \<Rightarrow> pump_state" where
  "pump_flush io st =
     (if fl_render io then st\<lparr>pu_disk := save_bookmark (fl_io io) (pu_bookmark st) (pu_disk st)\<rparr> else st)"

definition on_shipped :: "flush_io \<Rightarrow> pump_state \<Rightarrow> pump_state" where
  "on_shipped io st =
     (let st1 = st\<lparr>pu_since_save := pu_since_save st + 1\<rparr> in
      if BOOKMARK_SAVE_INTERVAL \<le> pu_since_save st1
      then (pump_flush io st1)\<lparr>pu_since_save := 0\<rparr> else st1)"

datatype event_outcome = Event_Handled | Event_Cancelled | Event_Failed

text \<open>\<open>ship_event\<close>; \<open>None\<close>: it still waits for the channel.\<close>

definition ship_event ::
    "deps \<Rightarrow> event_filter \<Rightarrow> win_event \<Rightarrow> pump_state \<times> sink \<Rightarrow> (event_outcome \<times> pump_state \<times> sink) option" where
  "ship_event d flt ev st =
     (case st of (pu, s) \<Rightarrow>
      case ev_xml ev of
        None \<Rightarrow> Some (Event_Handled, pu, s)
      | Some xml \<Rightarrow>
          (case retry (event_process_entry d flt None xml) (ev_waits ev) s of
             None \<Rightarrow> None
           | Some (None, s') \<Rightarrow> Some (Event_Cancelled, pu, s')
           | Some (Some r, s') \<Rightarrow>
               if ev_update ev
               then Some (Event_Handled, on_shipped (ev_flush ev) (pu\<lparr>pu_bookmark := ev_mark ev\<rparr>), s')
               else Some (Event_Failed, pu, s')))"

datatype batch_outcome = Batch_More | Batch_Cancelled | Batch_Failed | Batch_Running

text \<open>
  \<open>drain_batch\<close> over the events of consecutive \<open>EvtNext\<close> calls; \<open>more\<close> says how the final
  call ends (no more items or timeout, against another error).
\<close>

fun drain_batch ::
    "deps \<Rightarrow> event_filter \<Rightarrow> win_event list \<Rightarrow> bool \<Rightarrow> pump_state \<times> sink \<Rightarrow> batch_outcome \<times> pump_state \<times> sink" where
  "drain_batch d flt [] ended st = (if ended then Batch_More else Batch_Failed, st)"
| "drain_batch d flt (ev # evs) ended st =
     (case ship_event d flt ev st of
        None \<Rightarrow> (Batch_Running, st)
      | Some (Event_Handled, st') \<Rightarrow> drain_batch d flt evs ended st'
      | Some (Event_Cancelled, st') \<Rightarrow> (Batch_Cancelled, st')
      | Some (Event_Failed, st') \<Rightarrow> (Batch_Failed, st'))"

datatype pump_exit = Pump_Cancelled | Pump_Failed | Pump_AccessDenied | Pump_Running

text \<open>
  \<open>pull_loop\<close>: each turn sees the cancellation, a wait without a signal, or a batch; the
  save is the one made when the loop returns in that turn.
\<close>

datatype pull_step = Pull_Cancel flush_io | Pull_Timeout | Pull_Batch "win_event list" bool flush_io

fun pull_loop ::
    "deps \<Rightarrow> event_filter \<Rightarrow> pull_step list \<Rightarrow> pump_state \<times> sink \<Rightarrow> pump_exit \<times> pump_state \<times> sink" where
  "pull_loop d flt [] st = (Pump_Running, st)"
| "pull_loop d flt (Pull_Cancel io # xs) (pu, s) = (Pump_Cancelled, pump_flush io pu, s)"
| "pull_loop d flt (Pull_Timeout # xs) st = pull_loop d flt xs st"
| "pull_loop d flt (Pull_Batch evs ended io # xs) st =
     (case drain_batch d flt evs ended st of
        (Batch_More, st') \<Rightarrow> pull_loop d flt xs st'
      | (Batch_Cancelled, (pu, s)) \<Rightarrow> (Pump_Cancelled, pump_flush io pu, s)
      | (Batch_Failed, (pu, s)) \<Rightarrow> (Pump_Failed, pump_flush io pu, s)
      | (Batch_Running, st') \<Rightarrow> (Pump_Running, st'))"

text \<open>\<open>sleep_cancellable\<close>: \<open>cancel k\<close> is the flag at the \<open>k\<close>-th look at it.\<close>

function sleep_cancellable :: "nat \<Rightarrow> (nat \<Rightarrow> bool) \<Rightarrow> nat \<Rightarrow> bool" where
  "sleep_cancellable remaining cancel k =
     (if remaining = 0 then cancel k
      else if cancel k then True
      else sleep_cancellable (remaining - min remaining 50) cancel (k + 1))"
  by pat_completeness auto
termination
  by (relation "measure (\<lambda>(r, c, k). r)") auto

declare sleep_cancellable.simps [simp del]

text \<open>The flags of the subscription: resume after the bookmark or future events only.\<close>

datatype subscribe_mode = StartAfterBookmark | ToFutureEvents

definition subscribe_mode_of :: "disk \<Rightarrow> subscribe_mode" where
  "subscribe_mode_of disk = (if load_bookmark disk = None then ToFutureEvents else StartAfterBookmark)"

text \<open>
  One subscription: whether the signal and the bookmark can be created, what the new bookmark renders
  to, the answer to the subscription, and the turns of the loop.
\<close>

datatype subscribe_answer = Sub_Open | Sub_AccessDenied | Sub_Failed

record pump_env =
  pe_signal :: bool
  pe_bookmark :: bool
  pe_mark :: "string option \<Rightarrow> string"
  pe_subscribe :: "subscribe_mode \<Rightarrow> subscribe_answer"
  pe_steps :: "pull_step list"

definition pump_once :: "deps \<Rightarrow> event_filter \<Rightarrow> pump_env \<Rightarrow> disk \<times> sink \<Rightarrow> pump_exit \<times> disk \<times> sink" where
  "pump_once d flt env st =
     (case st of (disk, s) \<Rightarrow>
        if \<not> pe_signal env then (Pump_Failed, disk, s)
        else if \<not> pe_bookmark env then (Pump_Failed, disk, s)
        else (case pe_subscribe env (subscribe_mode_of disk) of
                Sub_AccessDenied \<Rightarrow> (Pump_AccessDenied, disk, s)
              | Sub_Failed \<Rightarrow> (Pump_Failed, disk, s)
              | Sub_Open \<Rightarrow>
                  (case pull_loop d flt (pe_steps env)
                          (\<lparr>pu_bookmark = pe_mark env (load_bookmark disk), pu_since_save = 0, pu_disk = disk\<rparr>, s) of
                     (x, pu, s') \<Rightarrow> (x, pu_disk pu, s'))))"

text \<open>
  \<open>run_channel\<close>: the subscriptions in turn, with the cancellation flag before and after each and
  whether the sleep after a failure was cut short. The result is the delays slept, the bookmark
  file and the sink.
\<close>

record pump_attempt =
  pt_cancelled_before :: bool
  pt_pump :: pump_env
  pt_cancelled_after :: bool
  pt_sleep_cancelled :: bool

fun run_channel :: "deps \<Rightarrow> event_filter \<Rightarrow> pump_attempt list \<Rightarrow> nat \<Rightarrow> disk \<times> sink \<Rightarrow> nat list \<times> disk \<times> sink" where
  "run_channel d flt [] backoff st = ([], st)"
| "run_channel d flt (a # as) backoff st =
     (if pt_cancelled_before a then ([], st)
      else (case pump_once d flt (pt_pump a) st of
              (Pump_Failed, st') \<Rightarrow>
                if pt_cancelled_after a then ([], st')
                else if pt_sleep_cancelled a then ([backoff], st')
                else map_prod ((#) backoff) (\<lambda>x. x) (run_channel d flt as (next_backoff backoff 30000) st')
            | (Pump_Cancelled, st') \<Rightarrow> ([], st')
            | (Pump_AccessDenied, st') \<Rightarrow> ([], st')
            | (Pump_Running, st') \<Rightarrow> ([], st')))"

text \<open>The pumps \<open>tail_eventlog\<close> starts: one per channel, with the query and the filter they share.\<close>

definition eventlog_pumps ::
    "string option \<Rightarrow> string option \<Rightarrow> string list \<Rightarrow> string list \<Rightarrow> (string \<times> string \<times> event_filter) list" where
  "eventlog_pumps query event_ids exclude_providers channels =
     (let flt = (case event_filter_new event_ids exclude_providers of
                   Inr f \<Rightarrow> f
                 | Inl e \<Rightarrow> \<lparr>ef_event_ids = None, ef_exclude_providers = []\<rparr>)
      in map (\<lambda>ch. (ch, effective_query query, flt)) channels)"

section \<open>Rendered texts\<close>

text \<open>\<open>String::from_utf16_lossy\<close> on the code units, and the UTF-8 of a scalar value.\<close>

fun decode_utf16_lossy :: "nat list \<Rightarrow> nat list" where
  "decode_utf16_lossy [] = []"
| "decode_utf16_lossy (u # us) =
     (if u < 0xD800 \<or> 0xDFFF < u then u # decode_utf16_lossy us
      else if 0xDC00 \<le> u then 0xFFFD # decode_utf16_lossy us
      else (case us of
              [] \<Rightarrow> [0xFFFD]
            | v # vs \<Rightarrow>
                if 0xDC00 \<le> v \<and> v \<le> 0xDFFF
                then (0x10000 + (u - 0xD800) * 1024 + (v - 0xDC00)) # decode_utf16_lossy vs
                else 0xFFFD # decode_utf16_lossy us))"

definition byte_chr :: "nat \<Rightarrow> char" where "byte_chr n = char_of n"

definition encode_utf8 :: "nat \<Rightarrow> string" where
  "encode_utf8 c =
     (if c < 0x80 then [byte_chr c]
      else if c < 0x800 then [byte_chr (0xC0 + c div 64), byte_chr (0x80 + c mod 64)]
      else if c < 0x10000 then [byte_chr (0xE0 + c div 4096), byte_chr (0x80 + c div 64 mod 64), byte_chr (0x80 + c mod 64)]
      else [byte_chr (0xF0 + c div 262144), byte_chr (0x80 + c div 4096 mod 64), byte_chr (0x80 + c div 64 mod 64), byte_chr (0x80 + c mod 64)])"

fun le_units :: "string \<Rightarrow> nat list" where
  "le_units (a # b # s) = (code a + 256 * code b) # le_units s"
| "le_units _ = []"

definition utf16_bytes_to_string :: "string \<Rightarrow> string" where
  "utf16_bytes_to_string bytes = concat (map encode_utf8 (decode_utf16_lossy (takeWhile ((\<noteq>) 0) (le_units bytes))))"

text \<open>\<open>render_handle\<close>: the size the probe reports, and the buffer the second call fills.\<close>

definition render_handle :: "nat \<Rightarrow> (nat \<Rightarrow> string option) \<Rightarrow> string option" where
  "render_handle used evt_render =
     (if used = 0 then Some [] else map_option utf16_bytes_to_string (evt_render used))"

end
