(* ===== verification/Eventlog_Props.thy ===== *)
theory Eventlog_Props
  imports Eventlog
begin

text \<open>
  The Windows Event Log source meets the contract of an entry source; severity, payload,
  parsing of event data and the name of the bookmark file.
\<close>

section \<open>The interface\<close>

definition event_entries :: "deps \<Rightarrow> event_filter \<Rightarrow> win_event \<Rightarrow> log_entry list" where
  "event_entries d flt ev =
     (case ev_xml ev of
        None \<Rightarrow> []
      | Some xml \<Rightarrow>
          (if MAX_XML_LEN < length xml then []
           else (case parse_event_xml d xml of
                   Inl _ \<Rightarrow> []
                 | Inr e \<Rightarrow>
                     if ee_provider e = SELF_PROVIDER \<or> event_excludes flt (ee_provider e) (ee_event_id e) then []
                     else [\<lparr>le_level = fst (resolve_severity e), le_message = body_of e None, le_component = None,
                            le_service = Some (event_service_of e),
                            le_payload = event_build_payload d e (snd (resolve_severity e))\<rparr>])))"

definition event_position :: "win_event \<Rightarrow> string option" where
  "event_position ev = (if ev_xml ev = None then None else Some (ev_mark ev))"

text \<open>One attempt of \<open>ship_event\<close>, with the bookmark position an attempt that is not refused reaches.\<close>

definition event_once :: "deps \<Rightarrow> event_filter \<Rightarrow> win_event \<Rightarrow> sink \<Rightarrow> string option outcome \<times> sink" where
  "event_once d flt ev s =
     (case ev_xml ev of
        None \<Rightarrow> (ParseFailed, s)
      | Some xml \<Rightarrow>
          (case event_process_entry d flt None xml s of
             (ChannelFull, s') \<Rightarrow> (ChannelFull, s')
           | (_, s') \<Rightarrow> (Handled (Some (ev_mark ev)), s')))"

lemma event_process_cases:
  assumes "is_live s" and "ev_xml ev = Some xml" and "event_process_entry d flt None xml s = (r, s')"
  shows "(r = ChannelFull \<and> is_live s' \<and> delivered s' = delivered s)
    \<or> (r \<noteq> ChannelFull \<and> is_live s' \<and> delivered s' = delivered s @ event_entries d flt ev)"
proof (cases "event_entries d flt ev")
  case Nil
  with assms show ?thesis
    by (auto simp: event_process_entry_def event_entries_def split: if_splits sum.splits prod.splits)
next
  case (Cons x xs)
  obtain ok s1 where s1: "try_log_with_service d s x = (ok, s1)" by fastforce
  note law = tell_channel.send_sent [OF assms(1) s1] tell_channel.send_live [OF assms(1) s1]
  from Cons assms(2,3) s1 law show ?thesis
    by (cases ok) (auto simp: event_process_entry_def event_entries_def split: if_splits sum.splits prod.splits)
qed

interpretation event_src:
  entry_source "event_once d flt" delivered is_live "event_entries d flt" event_position for d flt
proof unfold_locales
  fix s l s' c
  assume live: "is_live s"
  note cs = event_process_cases [OF live, of l _ d flt]
  { assume "event_once d flt l s = (ChannelFull, s')"
    with cs show "is_live s' \<and> delivered s' = delivered s"
      by (auto simp: event_once_def split: option.splits outcome.splits prod.splits) }
  { assume "event_once d flt l s = (Handled c, s')"
    with cs show "is_live s' \<and> delivered s' = delivered s @ event_entries d flt l \<and> c = event_position l"
      by (auto simp: event_once_def event_position_def split: option.splits outcome.splits prod.splits) }
  { assume "event_once d flt l s = (ParseFailed, s')"
    with live show "is_live s' \<and> delivered s' = delivered s \<and> event_entries d flt l = [] \<and> event_position l = None"
      by (auto simp: event_once_def event_position_def event_entries_def split: option.splits outcome.splits prod.splits) }
qed

lemma retry_event_once:
  "ev_xml ev = Some xml \<Longrightarrow>
     retry (event_once d flt ev) ws s =
       map_option (\<lambda>(r, s'). (map_option (\<lambda>_. Handled (Some (ev_mark ev))) r, s'))
         (retry (event_process_entry d flt None xml) ws s)"
proof (induction ws arbitrary: s)
  case Nil
  then show ?case by (auto simp: event_once_def split: outcome.splits prod.splits)
next
  case (Cons w ws)
  then show ?case by (auto simp: event_once_def split: outcome.splits prod.splits)
qed

section \<open>The pump\<close>

abbreviation event_run_ok where
  "event_run_ok d flt \<equiv> run_ok delivered is_live (event_entries d flt) event_position"

lemma pump_flush_run_ok:
  "event_run_ok d flt base c0 d0 Some seen (Some (pu_bookmark pu)) (fst (pu_disk pu)) s \<Longrightarrow>
     event_run_ok d flt base c0 d0 Some seen (Some (pu_bookmark (pump_flush io pu))) (fst (pu_disk (pump_flush io pu))) s"
  using event_src.run_ok_save [of d flt base c0 d0 Some seen "Some (pu_bookmark pu)" "fst (pu_disk pu)" s
      "fst (pu_disk (pump_flush io pu))"] write_checkpoint_cases [of "fl_io io" "pu_bookmark pu" "pu_disk pu"]
  by (auto simp: pump_flush_def save_bookmark_def)

lemma on_shipped_run_ok:
  assumes "event_run_ok d flt base c0 d0 Some seen (Some (pu_bookmark pu)) (fst (pu_disk pu)) s"
  shows "event_run_ok d flt base c0 d0 Some seen (Some (pu_bookmark (on_shipped io pu))) (fst (pu_disk (on_shipped io pu))) s"
  using assms pump_flush_run_ok [of d flt base c0 d0 seen "pu\<lparr>pu_since_save := pu_since_save pu + 1\<rparr>" s io]
  by (simp add: on_shipped_def Let_def)

lemma ship_event_run_ok:
  assumes ok: "event_run_ok d flt base c0 d0 Some seen (Some (pu_bookmark pu)) (fst (pu_disk pu)) s"
    and r: "ship_event d flt ev (pu, s) = Some (out, pu', s')" and u: "ev_update ev"
  shows "event_run_ok d flt base c0 d0 Some (if out = Event_Handled then seen @ [ev] else seen)
      (Some (pu_bookmark pu')) (fst (pu_disk pu')) s'" and "out \<noteq> Event_Failed"
proof -
  have live: "is_live s" using ok by (simp add: run_ok_def)
  show "out \<noteq> Event_Failed" using r u by (auto simp: ship_event_def split: option.splits)
  show "event_run_ok d flt base c0 d0 Some (if out = Event_Handled then seen @ [ev] else seen)
      (Some (pu_bookmark pu')) (fst (pu_disk pu')) s'"
  proof (cases "ev_xml ev")
    case None
    then have "out = Event_Handled" "pu' = pu" "s' = s" using r by (auto simp: ship_event_def)
    with event_src.run_ok_line [OF ok live, of ev] None show ?thesis
      by (simp add: event_entries_def event_position_def)
  next
    case (Some xml)
    obtain q s1 where q: "retry (event_process_entry d flt None xml) (ev_waits ev) s = Some (q, s1)"
      using r Some by (auto simp: ship_event_def split: option.splits)
    then have once: "retry (event_once d flt ev) (ev_waits ev) s = Some (map_option (\<lambda>_. Handled (Some (ev_mark ev))) q, s1)"
      using retry_event_once [OF Some] by simp
    note sent = event_src.retry_sent [OF live once]
    show ?thesis
    proof (cases q)
      case None
      with r Some q sent ok event_src.run_ok_cancel show ?thesis by (auto simp: ship_event_def)
    next
      case (Some q1)
      have out: "out = Event_Handled" "pu' = on_shipped (ev_flush ev) (pu\<lparr>pu_bookmark := ev_mark ev\<rparr>)" "s' = s1"
        using r u q Some \<open>ev_xml ev = Some xml\<close> by (auto simp: ship_event_def)
      have "event_run_ok d flt base c0 d0 Some (seen @ [ev]) (Some (ev_mark ev)) (fst (pu_disk pu)) s1"
        using event_src.run_ok_line [OF ok, of s1 ev] sent Some \<open>ev_xml ev = Some xml\<close> by (simp add: event_position_def)
      then show ?thesis
        using on_shipped_run_ok [of d flt base c0 d0 "seen @ [ev]" "pu\<lparr>pu_bookmark := ev_mark ev\<rparr>" s1 "ev_flush ev"] out
        by simp
    qed
  qed
qed

lemma event_process_accepting:
  "accepting d \<Longrightarrow> is_live s \<Longrightarrow> fst (event_process_entry d flt m xml s) \<noteq> ChannelFull"
  by (auto simp: event_process_entry_def Let_def dest: try_log_accepting split: sum.splits prod.splits bool.splits)

lemma ship_event_accepting:
  assumes "accepting d" and "is_live s" and "ev_update ev"
  shows "map_option fst (ship_event d flt ev (pu, s)) = Some Event_Handled"
proof (cases "ev_xml ev")
  case (Some xml)
  note acc = event_process_accepting [OF assms(1,2), of flt None xml]
  from Some assms(3) retry_accepted [of "event_process_entry d flt None xml" s "ev_waits ev", OF acc]
  show ?thesis by (simp add: ship_event_def)
qed (simp add: ship_event_def)

lemma drain_batch_run_ok:
  "drain_batch d flt evs ended (pu, s) = (x, pu', s') \<Longrightarrow> \<forall>ev \<in> set evs. ev_update ev \<Longrightarrow>
     event_run_ok d flt base c0 d0 Some seen (Some (pu_bookmark pu)) (fst (pu_disk pu)) s \<Longrightarrow>
     \<exists>more. prefix more evs \<and> (x = Batch_More \<longrightarrow> more = evs)
       \<and> (accepting d \<longrightarrow> more = evs \<and> x = (if ended then Batch_More else Batch_Failed))
       \<and> event_run_ok d flt base c0 d0 Some (seen @ more) (Some (pu_bookmark pu')) (fst (pu_disk pu')) s'"
proof (induction evs arbitrary: pu s seen)
  case Nil
  then show ?case by (intro exI [of _ "[]"]) auto
next
  case (Cons ev evs)
  have live: "is_live s" using Cons.prems(3) by (simp add: run_ok_def)
  have u: "ev_update ev" using Cons.prems(2) by simp
  show ?case
  proof (cases "ship_event d flt ev (pu, s)")
    case None
    then have "\<not> accepting d" using ship_event_accepting [OF _ live u, of d flt pu] by auto
    with None Cons.prems show ?thesis by (intro exI [of _ "[]"]) auto
  next
    case (Some res)
    obtain out pu1 s1 where res: "res = (out, pu1, s1)" by (metis prod_cases3)
    have acc: "accepting d \<Longrightarrow> out = Event_Handled"
      using ship_event_accepting [OF _ live u, of d flt pu] Some res by simp
    note h = ship_event_run_ok [OF Cons.prems(3) Some [unfolded res] u]
    show ?thesis
    proof (cases out)
      case Event_Handled
      with Cons.prems(1) Some res have rec: "drain_batch d flt evs ended (pu1, s1) = (x, pu', s')" by simp
      from Cons.IH [OF rec, of "seen @ [ev]"] Cons.prems(2) h(1) Event_Handled obtain more where
        "prefix more evs" "x = Batch_More \<longrightarrow> more = evs"
        "accepting d \<longrightarrow> more = evs \<and> x = (if ended then Batch_More else Batch_Failed)"
        "event_run_ok d flt base c0 d0 Some (seen @ [ev] @ more) (Some (pu_bookmark pu')) (fst (pu_disk pu')) s'" by auto
      then show ?thesis by (intro exI [of _ "ev # more"]) simp
    next
      case Event_Cancelled
      with Cons.prems(1) Some res h(1) acc show ?thesis by (intro exI [of _ "[]"]) auto
    next
      case Event_Failed
      with h(2) show ?thesis by simp
    qed
  qed
qed

definition pull_events :: "pull_step list \<Rightarrow> win_event list" where
  "pull_events xs = concat (map (\<lambda>x. case x of Pull_Batch evs ended io \<Rightarrow> evs | _ \<Rightarrow> []) xs)"

text \<open>The events of the batches up to the cancellation or the first failing \<open>EvtNext\<close>.\<close>

fun arrived_events :: "pull_step list \<Rightarrow> win_event list" where
  "arrived_events [] = []"
| "arrived_events (Pull_Cancel io # xs) = []"
| "arrived_events (Pull_Timeout # xs) = arrived_events xs"
| "arrived_events (Pull_Batch evs ended io # xs) = evs @ (if ended then arrived_events xs else [])"

lemma pull_loop_run_ok:
  "pull_loop d flt xs (pu, s) = (x, pu', s') \<Longrightarrow> \<forall>ev \<in> set (pull_events xs). ev_update ev \<Longrightarrow>
     event_run_ok d flt base c0 d0 Some seen (Some (pu_bookmark pu)) (fst (pu_disk pu)) s \<Longrightarrow>
     \<exists>more. prefix more (pull_events xs) \<and> (accepting d \<longrightarrow> more = arrived_events xs)
       \<and> event_run_ok d flt base c0 d0 Some (seen @ more) (Some (pu_bookmark pu')) (fst (pu_disk pu')) s'"
proof (induction xs arbitrary: pu s seen)
  case Nil
  then show ?case by (intro exI [of _ "[]"]) auto
next
  case (Cons st xs)
  show ?case
  proof (cases st)
    case (Pull_Cancel io)
    with Cons.prems pump_flush_run_ok [OF Cons.prems(3), of io] show ?thesis by (intro exI [of _ "[]"]) auto
  next
    case Pull_Timeout
    with Cons show ?thesis by (simp add: pull_events_def)
  next
    case (Pull_Batch evs ended io)
    obtain b pu1 s1 where b: "drain_batch d flt evs ended (pu, s) = (b, pu1, s1)" by (metis prod_cases3)
    have u: "\<forall>ev \<in> set evs. ev_update ev" "\<forall>ev \<in> set (pull_events xs). ev_update ev"
      using Cons.prems(2) Pull_Batch by (auto simp: pull_events_def)
    obtain more where more: "prefix more evs" "b = Batch_More \<longrightarrow> more = evs"
      "accepting d \<longrightarrow> more = evs \<and> b = (if ended then Batch_More else Batch_Failed)"
      "event_run_ok d flt base c0 d0 Some (seen @ more) (Some (pu_bookmark pu1)) (fst (pu_disk pu1)) s1"
      using drain_batch_run_ok [OF b u(1) Cons.prems(3)] by auto
    have pe: "pull_events (st # xs) = evs @ pull_events xs" by (simp add: pull_events_def Pull_Batch)
    show ?thesis
    proof (cases "b = Batch_More")
      case True
      with Cons.prems(1) b Pull_Batch have "pull_loop d flt xs (pu1, s1) = (x, pu', s')" by simp
      from Cons.IH [OF this u(2) more(4)] more(2,3) True pe obtain more' where "prefix more' (pull_events xs)"
        "accepting d \<longrightarrow> more' = arrived_events xs"
        "event_run_ok d flt base c0 d0 Some ((seen @ evs) @ more') (Some (pu_bookmark pu')) (fst (pu_disk pu')) s'" by auto
      then show ?thesis using pe more(3) True Pull_Batch by (intro exI [of _ "evs @ more'"]) (auto split: if_splits)
    next
      case False
      with Cons.prems(1) b Pull_Batch more pump_flush_run_ok [OF more(4), of io] pe show ?thesis
        by (intro exI [of _ more]) (cases b, auto intro: prefix_prefix)
    qed
  qed
qed

section \<open>Severity\<close>

lemma mask_bits:
  assumes "m = push_bit i 1 OR push_bit j (1 :: 64 word)" and "i < 64" and "j < 64"
  shows "k AND m = m \<longleftrightarrow> bit k i \<and> bit k j"
proof -
  have m: "bit m n \<longleftrightarrow> n = i \<or> n = j" for n
    using assms by (auto simp: bit_simps)
  show ?thesis
  proof
    assume *: "k AND m = m"
    then have "bit (k AND m) i = bit m i" "bit (k AND m) j = bit m j" by simp_all
    with m show "bit k i \<and> bit k j" by (simp add: bit_and_iff)
  next
    assume "bit k i \<and> bit k j"
    with m show "k AND m = m" by (intro bit_eqI) (auto simp: bit_and_iff)
  qed
qed

lemma audit_bits:
  "k AND AUDIT_FAILURE = AUDIT_FAILURE \<longleftrightarrow> bit k 63 \<and> bit k 52"
  "k AND AUDIT_SUCCESS = AUDIT_SUCCESS \<longleftrightarrow> bit k 63 \<and> bit k 53"
proof -
  have "AUDIT_FAILURE = push_bit 63 1 OR push_bit 52 1" "AUDIT_SUCCESS = push_bit 63 1 OR push_bit 53 1"
    by (simp_all add: AUDIT_FAILURE_def AUDIT_SUCCESS_def push_bit_eq_mult)
  then show "k AND AUDIT_FAILURE = AUDIT_FAILURE \<longleftrightarrow> bit k 63 \<and> bit k 52"
    and "k AND AUDIT_SUCCESS = AUDIT_SUCCESS \<longleftrightarrow> bit k 63 \<and> bit k 53"
    by (auto simp only: mask_bits)
qed

section \<open>Event data\<close>

text \<open>The XML events of one \<open>Data\<close> element, with an optional name.\<close>

definition data_events :: "string option \<times> string \<Rightarrow> xml_event list" where
  "data_events = (\<lambda>(name, v).
     [X_Start \<lparr>tag_name = ''Data'', tag_attr = (\<lambda>a. Inr (if a = ''Name'' then name else None))\<rparr>,
      X_Text (Some v), X_End ''Data''])"

text \<open>The names the elements get: unnamed ones are numbered from \<open>n + 1\<close>.\<close>

fun data_names :: "nat \<Rightarrow> (string option \<times> string) list \<Rightarrow> (string option \<times> string) list" where
  "data_names n [] = []"
| "data_names n ((Some k, v) # kvs) = (Some k, trim v) # data_names n kvs"
| "data_names n ((None, v) # kvs) = (Some (''param'' @ show_nat (n + 1)), trim v) # data_names (n + 1) kvs"

lemma xml_run_append: "xml_run (as @ bs) st = (case xml_run as st of Inl x \<Rightarrow> Inl x | Inr st' \<Rightarrow> xml_run bs st')"
  by (induction as arbitrary: st) (auto split: sum.splits)

lemma local_name_data: "local_name ''Data'' = ''Data''"
  by (simp add: local_name_def)

lemma data_element:
  assumes "ps_section st = Sec_EventData"
  shows "\<exists>st'. xml_run (data_events (name, v)) st = Inr st' \<and> ps_section st' = Sec_EventData
    \<and> (case name of
         Some k \<Rightarrow> ps_unnamed st' = ps_unnamed st \<and> ps_entry st' = push_data k (trim v) (ps_entry st)
       | None \<Rightarrow> ps_unnamed st' = ps_unnamed st + 1
                 \<and> ps_entry st' = push_data (''param'' @ show_nat (ps_unnamed st + 1)) (trim v) (ps_entry st))"
  using assms
  by (cases name) (simp_all add: data_events_def local_name_data enter_section_def on_open_def on_close_def Let_def)

lemma data_elements:
  "ps_section st = Sec_EventData \<Longrightarrow>
     \<exists>st'. xml_run (concat (map data_events kvs)) st = Inr st' \<and> ps_section st' = Sec_EventData
       \<and> ps_entry st' = (ps_entry st)\<lparr>ee_data := ee_data (ps_entry st) @ data_names (ps_unnamed st) kvs\<rparr>"
proof (induction kvs arbitrary: st)
  case (Cons kv kvs)
  obtain name v where kv: "kv = (name, v)" by fastforce
  obtain st1 where st1: "xml_run (data_events (name, v)) st = Inr st1" "ps_section st1 = Sec_EventData"
    and e1: "case name of
         Some k \<Rightarrow> ps_unnamed st1 = ps_unnamed st \<and> ps_entry st1 = push_data k (trim v) (ps_entry st)
       | None \<Rightarrow> ps_unnamed st1 = ps_unnamed st + 1
                 \<and> ps_entry st1 = push_data (''param'' @ show_nat (ps_unnamed st + 1)) (trim v) (ps_entry st)"
    using data_element [OF Cons.prems, of name v] by blast
  obtain st2 where "xml_run (concat (map data_events kvs)) st1 = Inr st2" "ps_section st2 = Sec_EventData"
    "ps_entry st2 = (ps_entry st1)\<lparr>ee_data := ee_data (ps_entry st1) @ data_names (ps_unnamed st1) kvs\<rparr>"
    using Cons.IH [OF st1(2)] by blast
  with st1 e1 kv show ?case
    by (cases name) (simp_all add: xml_run_append push_data_def)
qed simp

section \<open>Payload\<close>

lemma bt_wf_or_insert: "bt_wf m \<Longrightarrow> bt_wf (entry_or_insert k v m)"
  by (simp add: entry_or_insert_def btree.wf_ins split: option.splits)

lemma add_data_keeps:
  "map_of m k = Some v \<Longrightarrow> map_of (add_data d kvs m) k = Some v"
proof (induction kvs arbitrary: m)
  case (Cons kv kvs)
  obtain n w where kv: "kv = (n, w)" by fastforce
  have "map_of (case n of Some x \<Rightarrow> entry_or_insert (to_lowercase d x) (JString w) m | None \<Rightarrow> m) k = Some v"
    using Cons.prems by (auto simp: entry_or_insert_def bt_lookup_insert split: option.splits)
  from Cons.IH [OF this] kv show ?case by (simp add: add_data_def)
qed (simp add: add_data_def)

lemma sanitize_bytes: "c \<in> set (sanitize_channel ch) \<Longrightarrow> is_ascii_alphanumeric c \<or> c = CHR ''-'' \<or> c = CHR ''_''"
  by (induction ch) (auto simp: sanitize_channel_def split: if_splits)

section \<open>Properties\<close>

text \<open>
  C7: no loss and no duplication against the bookmark. If updating the bookmark handle
  succeeds, then whatever batches, refusals, cancellations and failing bookmark saves occur,
  the entries sent are exactly those of a prefix of the events pulled, the bookmark stands
  for the last of them that could be rendered, and the bookmark file holds its old contents
  or a bookmark of such a prefix. When the channel refuses nothing, the prefix is every
  event of the batches up to the cancellation or the first failing pull.
\<close>

theorem eventlog_contract:
  assumes "is_live s" and "\<forall>ev \<in> set (pull_events xs). ev_update ev"
    and "pull_loop d flt xs (pu, s) = (x, pu', s')"
  shows "\<exists>seen. prefix seen (pull_events xs) \<and> (accepting d \<longrightarrow> seen = arrived_events xs)
    \<and> run_ok delivered is_live (event_entries d flt) event_position (delivered s)
        (Some (pu_bookmark pu)) (fst (pu_disk pu)) Some seen (Some (pu_bookmark pu')) (fst (pu_disk pu')) s'"
  using pull_loop_run_ok [OF assms(3,2) event_src.run_ok_start [OF assms(1)]] by auto

definition demo_flush :: flush_io where
  "demo_flush = \<lparr>fl_render = True, fl_io = \<lparr>ck_create = True, ck_room = 9, ck_sync = True, ck_rename = True\<rparr>\<rparr>"

definition demo_event :: win_event where
  "demo_event = \<lparr>ev_xml = Some ''<Event/>'', ev_update = True, ev_mark = ''b1'', ev_flush = demo_flush, ev_waits = []\<rparr>"

theorem eventlog_contract_witness:
  "\<exists>x pu' s'. pull_loop ref_deps \<lparr>ef_event_ids = None, ef_exclude_providers = []\<rparr>
       [Pull_Timeout, Pull_Batch [demo_event] True demo_flush, Pull_Cancel demo_flush]
       (\<lparr>pu_bookmark = ''b'', pu_since_save = 0, pu_disk = (None, None)\<rparr>, \<lparr>inner = Live [], tags = []\<rparr>) = (x, pu', s')
     \<and> delivered s' = event_entries ref_deps \<lparr>ef_event_ids = None, ef_exclude_providers = []\<rparr> demo_event
     \<and> pu_bookmark pu' = ''b1''"
proof -
  let ?xs = "[Pull_Timeout, Pull_Batch [demo_event] True demo_flush, Pull_Cancel demo_flush]"
  let ?pu = "\<lparr>pu_bookmark = ''b'', pu_since_save = 0, pu_disk = (None, None)\<rparr>" and ?s = "\<lparr>inner = Live [], tags = []\<rparr>"
  obtain x pu' s' where r: "pull_loop ref_deps \<lparr>ef_event_ids = None, ef_exclude_providers = []\<rparr> ?xs (?pu, ?s) = (x, pu', s')"
    by (metis prod_cases3)
  have "is_live ?s" "\<forall>ev \<in> set (pull_events ?xs). ev_update ev" by (simp_all add: is_live_def pull_events_def demo_event_def)
  from eventlog_contract [OF this r] ref_deps_accepting
  have "delivered s' = event_entries ref_deps \<lparr>ef_event_ids = None, ef_exclude_providers = []\<rparr> demo_event" "pu_bookmark pu' = ''b1''"
    by (auto simp: run_ok_def position_after_def event_position_def demo_event_def delivered_def [of ?s])
  with r show ?thesis by blast
qed

text \<open>
  Audit keywords win over the numeric level, on 64-bit words: an event is an audit
  failure exactly when bits 63 and 52 of its keywords are set, otherwise an audit success
  exactly when bits 63 and 53 are, and only otherwise does the level decide.
\<close>

theorem resolve_severity_bits:
  "resolve_severity e =
     (case parse_keywords_hex (ee_keywords e) of
        Some k \<Rightarrow> if bit k 63 \<and> bit k 52 then (Error, Some ''failure'')
                  else if bit k 63 \<and> bit k 53 then (Info, Some ''success'') else (level_of (ee_level e), None)
      | None \<Rightarrow> (level_of (ee_level e), None))"
  by (simp add: resolve_severity_def audit_bits split: option.splits)



text \<open>
  The fields of the System section win over event data of the same name: whatever the
  event data are called, the provider of a payload is the provider of the event.
\<close>

theorem system_fields_win:
  assumes "map_of (system_fields e out) k = Some v"
  shows "\<exists>obj. event_build_payload d e out = Some (JObject obj) \<and> map_of obj k = Some v"
  using add_data_keeps [OF assms, of d "ee_data e"] by (auto simp: event_build_payload_def Let_def)

theorem system_fields_win_witness:
  "\<exists>obj. event_build_payload ref_deps (event_default\<lparr>ee_provider := ''P'', ee_data := [(Some ''Provider'', ''evil'')]\<rparr>) None
     = Some (JObject obj) \<and> map_of obj ''provider'' = Some (JString ''P'')"
  by (rule system_fields_win) (simp add: system_fields_def event_default_def insert_non_empty_def)

text \<open>
  The bookmark file stays in the state directory: the part of its name that comes from
  the channel has no separator, no dot and no colon, whatever the channel is called.
\<close>

theorem bookmark_path_contained:
  "\<exists>name. bookmark_path dir channel = dir @ ''/'' @ name
     \<and> CHR ''/'' \<notin> set name \<and> BSL \<notin> set name \<and> CHR ''.'' \<notin> set name \<and> CHR '':'' \<notin> set name"
proof (intro exI [of _ "''eventlog_bookmark_'' @ sanitize_channel channel"] conjI)
  have "c \<notin> set (sanitize_channel channel)" if "\<not> is_ascii_alphanumeric c" "c \<noteq> CHR ''-''" "c \<noteq> CHR ''_''" for c
    using sanitize_bytes [of c channel] that by auto
  from this [of "CHR ''/''"] this [of BSL] this [of "CHR ''.''"] this [of "CHR '':''"]
  show "CHR ''/'' \<notin> set (''eventlog_bookmark_'' @ sanitize_channel channel)"
    and "BSL \<notin> set (''eventlog_bookmark_'' @ sanitize_channel channel)"
    and "CHR ''.'' \<notin> set (''eventlog_bookmark_'' @ sanitize_channel channel)"
    and "CHR '':'' \<notin> set (''eventlog_bookmark_'' @ sanitize_channel channel)"
    by (simp_all add: ascii_defs)
qed (simp add: bookmark_path_def)

end
