(* ===== verification/Eventlog_Restart.thy ===== *)
theory Eventlog_Restart
  imports Eventlog_Props Restart Rust_Words
begin

text \<open>
  A channel of the Windows Event Log over all its subscriptions: with the documented behaviour of
  bookmarks no event is skipped.
\<close>

section \<open>The feed\<close>

text \<open>An event of the channel is its XML and the bookmark that stands for it.\<close>

type_synonym channel_event = "string \<times> string"

definition ev_core :: "win_event \<Rightarrow> channel_event" where
  "ev_core ev = (the (ev_xml ev), ev_mark ev)"

definition channel_entries :: "deps \<Rightarrow> event_filter \<Rightarrow> channel_event \<Rightarrow> log_entry list" where
  "channel_entries d flt c =
     event_entries d flt \<lparr>ev_xml = Some (fst c), ev_update = True, ev_mark = snd c,
       ev_flush = \<lparr>fl_render = True, fl_io = \<lparr>ck_create = True, ck_room = 0, ck_sync = True, ck_rename = True\<rparr>\<rparr>, ev_waits = []\<rparr>"

abbreviation channel_mark :: "channel_event \<Rightarrow> string option" where "channel_mark \<equiv> \<lambda>c. Some (snd c)"

lemma ev_core_same:
  "ev_xml ev \<noteq> None \<Longrightarrow> event_entries d flt ev = channel_entries d flt (ev_core ev) \<and> event_position ev = channel_mark (ev_core ev)"
  by (auto simp: channel_entries_def ev_core_def event_entries_def event_position_def)

text \<open>Bookmarks differ, and are read back from the file as they were written.\<close>

definition mark_text :: "string \<Rightarrow> bool" where
  "mark_text m \<longleftrightarrow> utf8_valid m \<and> trim m = m \<and> m \<noteq> []"

definition channel_ok :: "string \<Rightarrow> channel_event list \<Rightarrow> bool" where
  "channel_ok c0 J \<longleftrightarrow> store_ok channel_mark c0 J \<and> mark_text c0 \<and> (\<forall>c \<in> set J. mark_text (snd c))"

text \<open>
  A subscription that opens is fed events after the bookmark in the file; a bookmark made from a text
  renders to this text, and events render and update it.
\<close>

definition subscription_ok :: "string \<Rightarrow> channel_event list \<Rightarrow> pump_env \<Rightarrow> disk \<Rightarrow> bool" where
  "subscription_ok c0 J env disk \<longleftrightarrow>
     (\<forall>m. pe_mark env (Some m) = m) \<and> (\<forall>ev \<in> set (pull_events (pe_steps env)). ev_update ev \<and> ev_xml ev \<noteq> None)
     \<and> (case load_bookmark disk of
          Some m \<Rightarrow> prefix (map ev_core (pull_events (pe_steps env))) (resume_after channel_mark c0 J m)
        | None \<Rightarrow> False)"

fun subscriptions_ok :: "deps \<Rightarrow> event_filter \<Rightarrow> string \<Rightarrow> channel_event list \<Rightarrow> pump_attempt list \<Rightarrow> disk \<times> sink \<Rightarrow> bool" where
  "subscriptions_ok d flt c0 J [] st = True"
| "subscriptions_ok d flt c0 J (a # as) st =
     (subscription_ok c0 J (pt_pump a) (fst st) \<and> subscriptions_ok d flt c0 J as (snd (pump_once d flt (pt_pump a) st)))"

lemma channel_mark_text:
  assumes "channel_ok c0 J" and "k \<le> length J" and "mark_at channel_mark c0 J k = Some c"
  shows "mark_text c"
proof (cases k)
  case 0
  with assms show ?thesis by (simp add: mark_at_def channel_ok_def)
next
  case (Suc i)
  with assms mark_at_Suc [of channel_mark c0 J i] show ?thesis by (auto simp: channel_ok_def)
qed

abbreviation channel_history where
  "channel_history d flt c0 J base k n disk s \<equiv>
     history_ok channel_mark (channel_entries d flt) c0 J base Some k n (fst disk) (delivered s)"

lemma pump_once_history:
  assumes J: "channel_ok c0 J" and live: "is_live s" and h: "channel_history d flt c0 J base k n disk s"
    and run: "pump_once d flt env (disk, s) = (x, disk', s')" and feed: "subscription_ok c0 J env disk"
  shows "is_live s' \<and> (\<exists>k' n'. k \<le> k' \<and> n \<le> n' \<and> channel_history d flt c0 J base k' n' disk' s')"
proof (cases "pe_signal env \<and> pe_bookmark env \<and> pe_subscribe env (subscribe_mode_of disk) = Sub_Open")
  case False
  then have "disk' = disk \<and> s' = s" using run by (auto simp: pump_once_def split: if_splits subscribe_answer.splits)
  with h live show ?thesis by blast
next
  case True
  obtain p where p: "k \<le> length J" "mark_at channel_mark c0 J k = Some p" "fst disk = Some p"
    using h by (auto simp: history_ok_def)
  have load: "load_bookmark disk = Some p"
    using channel_mark_text [OF J p(1,2)] p(3) by (simp add: load_bookmark_def mark_text_def)
  let ?pu = "\<lparr>pu_bookmark = p, pu_since_save = 0, pu_disk = disk\<rparr>" and ?xs = "pe_steps env"
  have u: "\<forall>ev \<in> set (pull_events ?xs). ev_update ev" and r: "\<forall>ev \<in> set (pull_events ?xs). ev_xml ev \<noteq> None"
    and m: "pe_mark env (Some p) = p" using feed by (auto simp: subscription_ok_def)
  obtain pu' where loop: "pull_loop d flt ?xs (?pu, s) = (x, pu', s')" and disk': "disk' = pu_disk pu'"
    using run True load m by (auto simp: pump_once_def split: prod.splits)
  have "event_run_ok d flt (delivered s) (Some p) (fst disk) Some [] (Some (pu_bookmark ?pu)) (fst (pu_disk ?pu)) s"
    using event_src.run_ok_start [OF live] by simp
  from pull_loop_run_ok [OF loop u this] obtain seen where seen: "prefix seen (pull_events ?xs)"
    and ok: "event_run_ok d flt (delivered s) (Some p) (fst disk) Some seen (Some (pu_bookmark pu')) (fst disk') s'"
    using disk' by auto
  have "\<forall>ev \<in> set seen. ev_xml ev \<noteq> None" using r seen by (auto simp: prefix_def)
  then have "\<forall>ev \<in> set seen. event_entries d flt ev = channel_entries d flt (ev_core ev) \<and> event_position ev = channel_mark (ev_core ev)"
    using ev_core_same by blast
  note core = run_ok_map [where f = ev_core and ent' = "channel_entries d flt" and pos' = channel_mark, OF ok this, folded p(2)]
  have pre: "prefix (map ev_core seen) (drop k J)"
  proof -
    have "prefix (map ev_core (pull_events ?xs)) (drop k J)"
      using feed load resume_mark_at [OF _ p(1,2)] J by (simp add: subscription_ok_def channel_ok_def)
    moreover have "prefix (map ev_core seen) (map ev_core (pull_events ?xs))" using seen by (auto simp: prefix_def)
    ultimately show ?thesis by (meson prefix_order.trans)
  qed
  from history_step [OF h core pre] obtain k' where "k \<le> k'"
    "channel_history d flt c0 J base k' (max n (k + length (map ev_core seen))) disk' s'" by blast
  moreover have "is_live s'" using ok by (simp add: run_ok_def)
  ultimately show ?thesis by (metis max.cobounded1)
qed

lemma run_channel_history:
  assumes J: "channel_ok c0 J"
  shows "run_channel d flt as backoff (disk, s) = (delays, disk', s') \<Longrightarrow> is_live s \<Longrightarrow>
     channel_history d flt c0 J base k n disk s \<Longrightarrow> subscriptions_ok d flt c0 J as (disk, s) \<Longrightarrow>
     \<exists>k' n'. k \<le> k' \<and> n \<le> n' \<and> channel_history d flt c0 J base k' n' disk' s'"
proof (induction as arbitrary: backoff disk s delays k n)
  case Nil
  then show ?case by auto
next
  case (Cons a as)
  obtain y disk1 s1 where run: "pump_once d flt (pt_pump a) (disk, s) = (y, disk1, s1)" by (metis prod_cases3)
  from pump_once_history [OF J Cons.prems(2,3) run] Cons.prems(4) obtain k1 n1 where
    one: "is_live s1" "k \<le> k1" "n \<le> n1" "channel_history d flt c0 J base k1 n1 disk1 s1" by auto
  show ?case
  proof (cases "\<not> pt_cancelled_before a \<and> y = Pump_Failed \<and> \<not> pt_cancelled_after a \<and> \<not> pt_sleep_cancelled a")
    case True
    obtain ds where "run_channel d flt as (next_backoff backoff 30000) (disk1, s1) = (ds, disk', s')"
      using Cons.prems(1) run True by (cases "run_channel d flt as (next_backoff backoff 30000) (disk1, s1)") auto
    from Cons.IH [OF this one(1,4)] Cons.prems(4) run obtain k' n' where
      "k1 \<le> k'" "n1 \<le> n'" "channel_history d flt c0 J base k' n' disk' s'" by auto
    with one(2,3) show ?thesis by (meson order_trans)
  next
    case False
    then have "(disk' = disk1 \<and> s' = s1) \<or> (disk' = disk \<and> s' = s)"
      using Cons.prems(1) run by (cases y) (auto split: if_splits)
    with one Cons.prems(3) show ?thesis by blast
  qed
qed

lemma run_channel_delays:
  "run_channel d flt as backoff st = (delays, st') \<Longrightarrow> backoff \<le> 30000 \<Longrightarrow>
     delays = map (\<lambda>i. min (backoff * 2 ^ i) 30000) [0..<length delays]"
proof (induction as arbitrary: backoff st delays)
  case (Cons a as)
  obtain y st1 where run: "pump_once d flt (pt_pump a) st = (y, st1)" by (rule prod.exhaust)
  show ?case
  proof (cases "\<not> pt_cancelled_before a \<and> y = Pump_Failed \<and> \<not> pt_cancelled_after a \<and> \<not> pt_sleep_cancelled a")
    case True
    obtain ds where ds: "run_channel d flt as (next_backoff backoff 30000) st1 = (ds, st')" "delays = backoff # ds"
      using Cons.prems(1) run True by (cases "run_channel d flt as (next_backoff backoff 30000) st1") auto
    have "ds = map (\<lambda>i. min (next_backoff backoff 30000 * 2 ^ i) 30000) [0..<length ds]"
      using Cons.IH [OF ds(1)] by (simp add: next_backoff_def)
    from capped_delays_Cons [OF Cons.prems(2) this] ds(2) show ?thesis by simp
  next
    case False
    then have "delays = [] \<or> delays = [backoff]" using Cons.prems(1) run by (cases y) (auto split: if_splits)
    with Cons.prems(2) show ?thesis by (auto simp: min_def)
  qed
qed simp

section \<open>Properties\<close>


definition demo_channel_attempts :: "pump_attempt list" where
  "demo_channel_attempts =
     (let io = \<lparr>fl_render = True, fl_io = \<lparr>ck_create = True, ck_room = 9, ck_sync = True, ck_rename = True\<rparr>\<rparr>;
          env = \<lparr>pe_signal = True, pe_bookmark = True, pe_mark = (\<lambda>m. case m of Some x \<Rightarrow> x | None \<Rightarrow> []),
                 pe_subscribe = (\<lambda>_. Sub_Failed), pe_steps = []\<rparr>
      in [\<lparr>pt_cancelled_before = False, pt_pump = env, pt_cancelled_after = False, pt_sleep_cancelled = False\<rparr>,
          \<lparr>pt_cancelled_before = False,
           pt_pump = env\<lparr>pe_subscribe := (\<lambda>_. Sub_Open), pe_steps :=
             [Pull_Batch [\<lparr>ev_xml = Some ''x'', ev_update = True, ev_mark = ''m1'', ev_flush = io, ev_waits = []\<rparr>] True io, Pull_Cancel io]\<rparr>,
           pt_cancelled_after = True, pt_sleep_cancelled = False\<rparr>])"


end
