(* ===== verification/Eventlog_Text.thy ===== *)
theory Eventlog_Text
  imports Eventlog
begin

text \<open>
  The texts of the Event Log API: the little-endian UTF-16 that a rendered event or bookmark
  consists of is decoded to the same characters, and whatever the buffer holds the result is
  well-formed UTF-8, as a Rust string has to be.
\<close>

section \<open>Characters\<close>

definition scalar :: "nat \<Rightarrow> bool" where
  "scalar c \<longleftrightarrow> c < 0xD800 \<or> 0xE000 \<le> c \<and> c < 0x110000"

definition encode_utf16 :: "nat \<Rightarrow> nat list" where
  "encode_utf16 c = (if c < 0x10000 then [c] else [0xD800 + (c - 0x10000) div 1024, 0xDC00 + (c - 0x10000) mod 1024])"

definition le_bytes :: "nat list \<Rightarrow> string" where
  "le_bytes us = concat (map (\<lambda>u. [char_of (u mod 256), char_of (u div 256)]) us)"

lemma code_char_of: "code (char_of n) = n mod 256"
  by (simp add: code_def)

lemma le_units_bytes: "\<forall>u \<in> set us. u < 0x10000 \<Longrightarrow> le_units (le_bytes us @ t) = us @ le_units t"
  by (induction us) (auto simp: le_bytes_def code_char_of)

lemma le_units_less: "\<forall>u \<in> set (le_units s). u < 0x10000"
proof (induction s rule: le_units.induct)
  case (1 a b s)
  have "code a < 256" "code b < 256" by (simp_all add: code_def)
  then have "code a + 256 * code b < 0x10000" by linarith
  with 1 show ?case by auto
qed simp_all

section \<open>UTF-16\<close>

lemma decode_encode: "scalar c \<Longrightarrow> decode_utf16_lossy (encode_utf16 c @ us) = c # decode_utf16_lossy us"
proof (cases "c < 0x10000")
  case False
  assume "scalar c"
  with False have k: "c - 0x10000 < 0x100000" "0x10000 \<le> c" by (auto simp: scalar_def)
  define k where "k = c - 0x10000"
  from k have k: "k < 0x100000" "c = 0x10000 + k" by (simp_all add: k_def)
  have "k div 1024 < 1024" "k mod 1024 < 1024" "k div 1024 * 1024 + k mod 1024 = k" using k(1) by auto
  with k False show ?thesis by (auto simp: encode_utf16_def)
qed (auto simp: scalar_def encode_utf16_def)

lemma decode_encode_all: "\<forall>c \<in> set cs. scalar c \<Longrightarrow> decode_utf16_lossy (concat (map encode_utf16 cs) @ us) = cs @ decode_utf16_lossy us"
  by (induction cs) (simp_all add: decode_encode del: decode_utf16_lossy.simps(2))

lemma scalar_values:
  "u < 0x10000 \<Longrightarrow> u < 0xD800 \<or> 0xDFFF < u \<Longrightarrow> scalar u" "scalar 0xFFFD"
  "u < 0xDC00 \<Longrightarrow> 0xDC00 \<le> v \<Longrightarrow> v \<le> 0xDFFF \<Longrightarrow> scalar (0x2400 + ((u - 0xD800) * 1024 + v))"
  by (auto simp: scalar_def)

declare decode_utf16_lossy.simps(2) [simp del]

lemma decode_scalar: "\<forall>u \<in> set us. u < 0x10000 \<Longrightarrow> \<forall>c \<in> set (decode_utf16_lossy us). scalar c"
proof (induction us rule: length_induct)
  case (1 us)
  note IH = 1(1) [rule_format]
  show ?case
  proof (cases us)
    case (Cons u vs)
    have u: "u < 0x10000" and tl: "\<forall>c \<in> set (decode_utf16_lossy vs). scalar c"
      using 1(2) IH [of vs] by (auto simp: Cons)
    have tl2: "\<forall>c \<in> set (decode_utf16_lossy ws). scalar c" if "vs = v # ws" for v ws
      using 1(2) IH [of ws] that by (auto simp: Cons)
    show ?thesis
    proof (cases vs)
      case Nil
      with u show ?thesis by (simp add: Cons decode_utf16_lossy.simps(2) scalar_values)
    next
      case (Cons v ws)
      with u tl tl2 [OF Cons] \<open>us = u # vs\<close> show ?thesis
        by (simp add: decode_utf16_lossy.simps(2) [of u] scalar_values)
    qed
  qed simp
qed

lemma encode_units: "scalar c \<Longrightarrow> u \<in> set (encode_utf16 c) \<Longrightarrow> u < 0x10000 \<and> (c \<noteq> 0 \<longrightarrow> u \<noteq> 0)"
  by (auto simp: scalar_def encode_utf16_def split: if_splits)

section \<open>UTF-8\<close>

lemma code_byte_chr: "n < 256 \<Longrightarrow> code (byte_chr n) = n"
  by (simp add: byte_chr_def code_char_of)

lemma utf8_next_encode: "scalar c \<Longrightarrow> utf8_next (encode_utf8 c) = (True, length (encode_utf8 c))"
proof -
  assume c: "scalar c"
  consider "c < 0x80" | "0x80 \<le> c" "c < 0x800" | "0x800 \<le> c" "c < 0x10000" | "0x10000 \<le> c" by linarith
  then show ?thesis
  proof cases
    case 1
    then show ?thesis by (simp add: encode_utf8_def utf8_next.simps code_byte_chr)
  next
    case 2
    then have "2 \<le> c div 64" "c div 64 < 32" "c mod 64 < 64" by auto
    with 2 show ?thesis by (simp add: encode_utf8_def utf8_next.simps code_byte_chr is_cont_def)
  next
    case 3
    then have "c div 4096 < 16" "c div 64 mod 64 < 64" "c mod 64 < 64" by auto
    moreover have "c div 4096 = 0 \<Longrightarrow> 32 \<le> c div 64 mod 64" using 3 by auto
    moreover have "c div 4096 = 13 \<Longrightarrow> c div 64 mod 64 < 32"
    proof -
      assume "c div 4096 = 13"
      moreover from this have "c < 0xD800" using c by (auto simp: scalar_def)
      ultimately have "c mod 4096 < 2048" using div_mult_mod_eq [of c 4096] by linarith
      then show ?thesis using mod_mult2_eq [of c 64 64] by simp
    qed
    ultimately show ?thesis
      using 3 by (auto simp: encode_utf8_def utf8_next.simps code_byte_chr is_cont_def utf8_second_ok_def Let_def)
  next
    case 4
    with c have "c < 0x110000" by (auto simp: scalar_def)
    then have "c div 262144 \<le> 4" "c div 4096 mod 64 < 64" "c div 64 mod 64 < 64" "c mod 64 < 64" by auto
    moreover have "c div 262144 = 0 \<Longrightarrow> 16 \<le> c div 4096 mod 64" using 4 by auto
    moreover have "c div 262144 = 4 \<Longrightarrow> c div 4096 mod 64 < 16"
    proof -
      assume "c div 262144 = 4"
      then have "c mod 262144 < 65536" using \<open>c < 0x110000\<close> div_mult_mod_eq [of c 262144] by linarith
      then show ?thesis using mod_mult2_eq [of c 4096 64] by simp
    qed
    ultimately show ?thesis
      using 4 by (auto simp: encode_utf8_def utf8_next.simps code_byte_chr is_cont_def utf8_second_ok_def Let_def)
  qed
qed

lemma utf8_valid_encode: "scalar c \<Longrightarrow> utf8_valid (encode_utf8 c)"
proof -
  assume "scalar c"
  from utf8_next_encode [OF this] show ?thesis
    by (subst utf8_valid_step [of _ True "length (encode_utf8 c)"]) (auto simp: encode_utf8_def)
qed

lemma utf8_valid_concat: "\<forall>s \<in> set ss. utf8_valid s \<Longrightarrow> utf8_valid (concat ss)"
  by (induction ss) (auto intro: utf8_valid_append)

section \<open>Properties\<close>

text \<open>
  C33: rendered texts. A text of the Event Log API, in little-endian UTF-16 and ended by a zero unit or
  by the end of the buffer, is decoded to the UTF-8 of the same characters, those outside the basic
  plane included; and whatever bytes a buffer holds, unpaired surrogates and an odd byte included,
  the result is well-formed UTF-8.
\<close>

theorem utf16_text_roundtrip:
  assumes "\<forall>c \<in> set cs. scalar c \<and> c \<noteq> 0" and "rest = [] \<or> (\<exists>t. rest = CHR 0x00 # CHR 0x00 # t)"
  shows "utf16_bytes_to_string (le_bytes (concat (map encode_utf16 cs)) @ rest) = concat (map encode_utf8 cs)
    \<and> utf8_valid (utf16_bytes_to_string bytes)"
proof
  let ?us = "concat (map encode_utf16 cs)"
  have u: "\<forall>u \<in> set ?us. u < 0x10000 \<and> u \<noteq> 0" using assms(1) encode_units by fastforce
  have "takeWhile ((\<noteq>) 0) (?us @ le_units rest) = ?us"
    using assms(2) u by (subst takeWhile_append2) (auto simp: code_def)
  moreover have "le_units (le_bytes ?us @ rest) = ?us @ le_units rest" using u by (intro le_units_bytes) blast
  ultimately show "utf16_bytes_to_string (le_bytes ?us @ rest) = concat (map encode_utf8 cs)"
    using decode_encode_all [of cs "[]"] assms(1) by (simp add: utf16_bytes_to_string_def)
  have "\<forall>u \<in> set (takeWhile ((\<noteq>) 0) (le_units bytes)). u < 0x10000"
    using le_units_less [of bytes] by (meson set_takeWhileD)
  from decode_scalar [OF this] show "utf8_valid (utf16_bytes_to_string bytes)"
    by (auto simp: utf16_bytes_to_string_def intro!: utf8_valid_concat utf8_valid_encode)
qed

theorem utf16_text_roundtrip_witness:
  "utf16_bytes_to_string (le_bytes (concat (map encode_utf16 [65, 0x20AC, 0x1F600])) @ [CHR 0x00, CHR 0x00, CHR ''x''])
     = concat (map encode_utf8 [65, 0x20AC, 0x1F600]) \<and> utf8_valid (utf16_bytes_to_string [CHR 0x00, CHR 0xD8, CHR ''x''])"
  using utf16_text_roundtrip [of "[65, 0x20AC, 0x1F600]" "[CHR 0x00, CHR 0x00, CHR ''x'']" "[CHR 0x00, CHR 0xD8, CHR ''x'']"]
  by (simp add: scalar_def)

end
