(* ===== verification/Config.thy ===== *)
theory Config
  imports Eventlog_Filter "HOL-Library.Monad_Syntax"
begin

text \<open>
  \<open>src/config.rs\<close>: the agent configuration, its defaults, the deserialisation of its fields
  from a TOML table (what \<open>derive(Deserialize)\<close> generates from the field attributes; the
  positional forms \<open>serde\<close> would also take for a struct or an enum are not considered),
  durations, the device filter, and validation. A duration is a number of milliseconds. The
  operating system the agent is compiled for is an argument.
\<close>

section \<open>Data\<close>

datatype target_os = Os_Linux | Os_MacOS | Os_Windows | Os_Other

datatype log_source = Source_Auto | Source_Journald | Source_UnifiedLog | Source_EventLog | Source_Files

record filter_config =
  fc_include :: "string list"
  fc_exclude :: "string list"

record system_config =
  sc_cpu :: bool
  sc_memory :: bool
  sc_load :: bool
  sc_disk :: bool
  sc_network :: bool
  sc_tcp :: bool
  sc_cgroups :: bool
  sc_containers :: bool
  sc_processes :: bool
  sc_process_top :: nat
  sc_network_filter :: filter_config
  sc_disk_filter :: filter_config
  sc_disk_fs_types :: "string list"

record agent_config =
  ac_api_key :: string
  ac_endpoint :: string
  ac_server :: "string option"
  ac_config_poll_interval :: nat
  ac_hostname :: string
  ac_interval :: nat
  ac_tags :: "(string, string) hash_map"
  ac_log_source :: log_source
  ac_unified_log_predicate :: "string option"
  ac_eventlog_channels :: "string list"
  ac_eventlog_query :: "string option"
  ac_eventlog_event_ids :: "string option"
  ac_eventlog_exclude_providers :: "string list"
  ac_journal_include_services :: "string list"
  ac_journal_exclude_services :: "string list"
  ac_parse_syslog :: bool
  ac_parse_structured :: bool
  ac_detect_levels :: bool
  ac_multiline_start_pattern :: "string option"
  ac_multiline_timeout_ms :: nat
  ac_multiline_max_bytes :: nat
  ac_logs :: "string list"
  ac_batch_size :: nat
  ac_buffer_max_bytes :: "nat option"
  ac_system :: system_config

section \<open>Defaults\<close>

definition default_log_source :: log_source where "default_log_source = Source_Auto"

definition default_eventlog_channels :: "string list" where
  "default_eventlog_channels = [''System'', ''Application'', ''Security'']"

definition default_metrics_enabled :: "target_os \<Rightarrow> bool" where
  "default_metrics_enabled os \<longleftrightarrow> os = Os_Linux"

definition default_endpoint :: string where "default_endpoint = ''localhost:50000''"
definition default_interval :: nat where "default_interval = 15 * 1000"
definition default_config_poll_interval :: nat where "default_config_poll_interval = 300 * 1000"
definition default_multiline_timeout_ms :: nat where "default_multiline_timeout_ms = 1000"
definition default_multiline_max_bytes :: nat where "default_multiline_max_bytes = 1024 * 1024"
definition default_batch_size :: nat where "default_batch_size = 500"
definition default_top_n :: nat where "default_top_n = 10"

fun default_logs :: "target_os \<Rightarrow> string list" where
  "default_logs Os_Linux =
     [''/var/log/syslog'', ''/var/log/auth.log'', ''/var/log/kern.log'',
      ''/var/log/nginx/*.log'', ''/var/log/apache2/*.log'',
      ''/var/log/postgresql/*.log'', ''/var/log/mysql/*.log'', ''/var/log/mongodb/*.log'', ''/var/log/redis/*.log'',
      ''/var/log/haproxy/*.log'', ''/var/log/traefik/*.log'', ''/var/log/elasticsearch/*.log'', ''/var/log/rabbitmq/*.log'']"
| "default_logs Os_MacOS =
     [''/var/log/install.log'', ''/var/log/system.log'', ''/opt/homebrew/var/log/*.log'', ''/usr/local/var/log/*.log'']"
| "default_logs Os_Windows = []"
| "default_logs Os_Other = []"

definition filter_config_default :: filter_config where
  "filter_config_default = \<lparr>fc_include = [], fc_exclude = []\<rparr>"

definition system_config_default :: "target_os \<Rightarrow> system_config" where
  "system_config_default os =
     (let enabled = default_metrics_enabled os in
      \<lparr>sc_cpu = enabled, sc_memory = enabled, sc_load = enabled, sc_disk = enabled, sc_network = enabled,
       sc_tcp = enabled, sc_cgroups = enabled, sc_containers = enabled, sc_processes = enabled,
       sc_process_top = default_top_n, sc_network_filter = filter_config_default,
       sc_disk_filter = filter_config_default, sc_disk_fs_types = []\<rparr>)"

section \<open>Durations\<close>

definition strip_suffix :: "string \<Rightarrow> string \<Rightarrow> string option" where
  "strip_suffix suf s = (if suffix suf s then Some (take (length s - length suf) s) else None)"

definition duration_number :: "string \<Rightarrow> string \<Rightarrow> string + nat" where
  "duration_number s n =
     (case parse_u64 n of Some v \<Rightarrow> Inr v | None \<Rightarrow> Inl (''invalid number in duration '' @ quote s))"

text \<open>The products of minutes and hours are \<open>u64\<close> products, which wrap in a release build.\<close>

definition parse_duration :: "string \<Rightarrow> string + nat" where
  "parse_duration str =
     (let s = trim str in
      if s = [] then Inl ''empty duration string''
      else case strip_suffix ''ms'' s of
        Some n \<Rightarrow> duration_number s n
      | None \<Rightarrow> (case strip_suffix ''s'' s of
        Some n \<Rightarrow> map_sum (\<lambda>e. e) (\<lambda>v. v * 1000) (duration_number s n)
      | None \<Rightarrow> (case strip_suffix ''m'' s of
        Some n \<Rightarrow> map_sum (\<lambda>e. e) (\<lambda>v. v * 60 mod 2 ^ 64 * 1000) (duration_number s n)
      | None \<Rightarrow> (case strip_suffix ''h'' s of
        Some n \<Rightarrow> map_sum (\<lambda>e. e) (\<lambda>v. v * 3600 mod 2 ^ 64 * 1000) (duration_number s n)
      | None \<Rightarrow> Inl (''unknown duration suffix in '' @ quote s @ '', expected ms/s/m/h'')))))"

section \<open>Deserialisation\<close>

fun de_string :: "toml \<Rightarrow> string option" where
  "de_string (T_String s) = Some s"
| "de_string _ = None"

fun de_bool :: "toml \<Rightarrow> bool option" where
  "de_bool (T_Boolean b) = Some b"
| "de_bool _ = None"

fun de_uint :: "toml \<Rightarrow> nat option" where
  "de_uint (T_Integer i) = (if 0 \<le> i then Some (nat i) else None)"
| "de_uint _ = None"

fun de_all :: "('a \<Rightarrow> 'b option) \<Rightarrow> 'a list \<Rightarrow> 'b list option" where
  "de_all f [] = Some []"
| "de_all f (x # xs) = (case f x of None \<Rightarrow> None | Some y \<Rightarrow> map_option ((#) y) (de_all f xs))"

fun de_strings :: "toml \<Rightarrow> string list option" where
  "de_strings (T_Array ts) = de_all de_string ts"
| "de_strings _ = None"

fun de_string_map :: "toml \<Rightarrow> (string, string) hash_map option" where
  "de_string_map (T_Table kvs) = de_all (\<lambda>(k, v). map_option (Pair k) (de_string v)) kvs"
| "de_string_map _ = None"

definition deserialize_duration :: "toml \<Rightarrow> nat option" where
  "deserialize_duration t =
     (case de_string t of
        None \<Rightarrow> None
      | Some s \<Rightarrow> (case parse_duration s of Inl _ \<Rightarrow> None | Inr v \<Rightarrow> Some v))"

fun de_log_source :: "toml \<Rightarrow> log_source option" where
  "de_log_source (T_String s) =
     map_of [(''auto'', Source_Auto), (''journald'', Source_Journald), (''unifiedlog'', Source_UnifiedLog),
       (''unified'', Source_UnifiedLog), (''eventlog'', Source_EventLog), (''event_log'', Source_EventLog),
       (''files'', Source_Files)] s"
| "de_log_source _ = None"

text \<open>A field: the value of its key, or its default when the key is absent (\<open>None\<close>: required).\<close>

definition de_field :: "(string \<times> toml) list \<Rightarrow> string \<Rightarrow> (toml \<Rightarrow> 'a option) \<Rightarrow> 'a option \<Rightarrow> 'a option" where
  "de_field tbl key de default_value = (case map_of tbl key of None \<Rightarrow> default_value | Some v \<Rightarrow> de v)"

definition de_opt :: "(toml \<Rightarrow> 'a option) \<Rightarrow> toml \<Rightarrow> 'a option option" where
  "de_opt de v = map_option Some (de v)"

fun de_filter_config :: "toml \<Rightarrow> filter_config option" where
  "de_filter_config (T_Table t) = do {
     i \<leftarrow> de_field t ''include'' de_strings (Some []);
     e \<leftarrow> de_field t ''exclude'' de_strings (Some []);
     Some \<lparr>fc_include = i, fc_exclude = e\<rparr> }"
| "de_filter_config _ = None"

fun de_system_config :: "target_os \<Rightarrow> toml \<Rightarrow> system_config option" where
  "de_system_config os (T_Table t) =
     (let flag = (\<lambda>key. de_field t key de_bool (Some (default_metrics_enabled os))) in do {
     cpu \<leftarrow> flag ''cpu''; memory \<leftarrow> flag ''memory''; load \<leftarrow> flag ''load''; disk \<leftarrow> flag ''disk'';
     network \<leftarrow> flag ''network''; tcp \<leftarrow> flag ''tcp''; cgroups \<leftarrow> flag ''cgroups'';
     containers \<leftarrow> flag ''containers''; processes \<leftarrow> flag ''processes'';
     top \<leftarrow> de_field t ''process_top'' de_uint (Some default_top_n);
     nf \<leftarrow> de_field t ''network_filter'' de_filter_config (Some filter_config_default);
     df \<leftarrow> de_field t ''disk_filter'' de_filter_config (Some filter_config_default);
     fs \<leftarrow> de_field t ''disk_fs_types'' de_strings (Some []);
     Some \<lparr>sc_cpu = cpu, sc_memory = memory, sc_load = load, sc_disk = disk, sc_network = network,
           sc_tcp = tcp, sc_cgroups = cgroups, sc_containers = containers, sc_processes = processes,
           sc_process_top = top, sc_network_filter = nf, sc_disk_filter = df, sc_disk_fs_types = fs\<rparr> })"
| "de_system_config os _ = None"

definition de_agent_config :: "target_os \<Rightarrow> (string \<times> toml) list \<Rightarrow> agent_config option" where
  "de_agent_config os t = do {
     key \<leftarrow> de_field t ''api_key'' de_string None;
     endpoint \<leftarrow> de_field t ''endpoint'' de_string (Some default_endpoint);
     server \<leftarrow> de_field t ''server'' (de_opt de_string) (Some None);
     poll \<leftarrow> de_field t ''config_poll_interval'' deserialize_duration (Some default_config_poll_interval);
     hostname \<leftarrow> de_field t ''hostname'' de_string (Some []);
     interval \<leftarrow> de_field t ''interval'' deserialize_duration (Some default_interval);
     tgs \<leftarrow> de_field t ''tags'' de_string_map (Some []);
     src \<leftarrow> de_field t ''log_source'' de_log_source (Some default_log_source);
     pred \<leftarrow> de_field t ''unified_log_predicate'' (de_opt de_string) (Some None);
     channels \<leftarrow> de_field t ''eventlog_channels'' de_strings (Some default_eventlog_channels);
     query \<leftarrow> de_field t ''eventlog_query'' (de_opt de_string) (Some None);
     ids \<leftarrow> de_field t ''eventlog_event_ids'' (de_opt de_string) (Some None);
     providers \<leftarrow> de_field t ''eventlog_exclude_providers'' de_strings (Some []);
     jinc \<leftarrow> de_field t ''journal_include_services'' de_strings (Some []);
     jexc \<leftarrow> de_field t ''journal_exclude_services'' de_strings (Some []);
     psys \<leftarrow> de_field t ''parse_syslog'' de_bool (Some True);
     pstr \<leftarrow> de_field t ''parse_structured'' de_bool (Some True);
     lev \<leftarrow> de_field t ''detect_levels'' de_bool (Some True);
     pat \<leftarrow> de_field t ''multiline_start_pattern'' (de_opt de_string) (Some None);
     mto \<leftarrow> de_field t ''multiline_timeout_ms'' de_uint (Some default_multiline_timeout_ms);
     mmax \<leftarrow> de_field t ''multiline_max_bytes'' de_uint (Some default_multiline_max_bytes);
     lgs \<leftarrow> de_field t ''logs'' de_strings (Some (default_logs os));
     batch \<leftarrow> de_field t ''batch_size'' de_uint (Some default_batch_size);
     buf \<leftarrow> de_field t ''buffer_max_bytes'' (de_opt de_uint) (Some None);
     sys \<leftarrow> de_field t ''system'' (de_system_config os) (Some (system_config_default os));
     Some \<lparr>ac_api_key = key, ac_endpoint = endpoint, ac_server = server, ac_config_poll_interval = poll,
       ac_hostname = hostname, ac_interval = interval, ac_tags = tgs, ac_log_source = src,
       ac_unified_log_predicate = pred, ac_eventlog_channels = channels, ac_eventlog_query = query,
       ac_eventlog_event_ids = ids, ac_eventlog_exclude_providers = providers,
       ac_journal_include_services = jinc, ac_journal_exclude_services = jexc, ac_parse_syslog = psys,
       ac_parse_structured = pstr, ac_detect_levels = lev, ac_multiline_start_pattern = pat,
       ac_multiline_timeout_ms = mto, ac_multiline_max_bytes = mmax, ac_logs = lgs, ac_batch_size = batch,
       ac_buffer_max_bytes = buf, ac_system = sys\<rparr> }"

section \<open>Validation\<close>

definition is_ascii_hexdigit :: "char \<Rightarrow> bool" where
  "is_ascii_hexdigit c \<longleftrightarrow>
     is_ascii_digit c \<or> (65 \<le> code c \<and> code c \<le> 70) \<or> (97 \<le> code c \<and> code c \<le> 102)"

definition validate_api_key :: "string \<Rightarrow> string + unit" where
  "validate_api_key key =
     (if key = [] then Inl ''api_key is required''
      else if length key \<noteq> 32 then Inl (''api_key must be 32 hex characters, got '' @ show_nat (length key))
      else if \<not> (\<forall>b \<in> set key. is_ascii_hexdigit b)
      then Inl ''api_key must contain only hex characters (0-9, a-f)''
      else Inr ())"

text \<open>The text of a TOML error or of a regex error is that of the crate.\<close>

datatype config_error = Toml_Error | Config_Message string | Pattern_Error

definition parse_config :: "deps \<Rightarrow> target_os \<Rightarrow> string \<Rightarrow> config_error + agent_config" where
  "parse_config d os contents =
     (case Option.bind (toml_read d contents) (de_agent_config os) of
        None \<Rightarrow> Inl Toml_Error
      | Some c \<Rightarrow>
          (case validate_api_key (ac_api_key c) of
             Inl e \<Rightarrow> Inl (Config_Message e)
           | Inr _ \<Rightarrow>
               (case (case ac_eventlog_event_ids c of
                        None \<Rightarrow> Inr ()
                      | Some spec \<Rightarrow> (case event_id_parse spec of
                            Inl e \<Rightarrow> Inl (Config_Message (''invalid eventlog_event_ids: '' @ e))
                          | Inr _ \<Rightarrow> Inr ())) of
                  Inl e \<Rightarrow> Inl e
                | Inr _ \<Rightarrow>
                    (case ac_multiline_start_pattern c of
                       None \<Rightarrow> Inr c
                     | Some p \<Rightarrow> if regex_new d p then Inr c else Inl Pattern_Error))))"

text \<open>\<open>load_config\<close>: the contents of the file, if it can be read as UTF-8.\<close>

definition load_config :: "deps \<Rightarrow> target_os \<Rightarrow> string option \<Rightarrow> config_error option + agent_config" where
  "load_config d os contents =
     (case contents of
        None \<Rightarrow> Inl None
      | Some s \<Rightarrow> if utf8_valid s then map_sum Some (\<lambda>c. c) (parse_config d os s) else Inl None)"

section \<open>Device filter\<close>

record device_filter =
  df_include :: "string list"
  df_exclude :: "string list"

definition device_filter_new :: "deps \<Rightarrow> filter_config \<Rightarrow> string list \<Rightarrow> device_filter" where
  "device_filter_new d cfg default_exclude =
     \<lparr>df_include = filter (glob_new d) (fc_include cfg),
      df_exclude = filter (glob_new d) (if fc_exclude cfg = [] then default_exclude else fc_exclude cfg)\<rparr>"

definition device_allows :: "deps \<Rightarrow> device_filter \<Rightarrow> string \<Rightarrow> bool" where
  "device_allows d f name \<longleftrightarrow>
     (df_include f = [] \<or> (\<exists>p \<in> set (df_include f). glob_matches d p name))
     \<and> \<not> (\<exists>p \<in> set (df_exclude f). glob_matches d p name)"

section \<open>Host name\<close>

text \<open>\<open>etc\<close> is the contents of \<open>/etc/hostname\<close>, \<open>buf\<close> the buffer \<open>gethostname\<close> filled.\<close>

definition gethostname_of :: "string option \<Rightarrow> string option" where
  "gethostname_of buf =
     (case buf of
        None \<Rightarrow> None
      | Some b \<Rightarrow> (case position ((=) (CHR 0x00)) b of
            None \<Rightarrow> None
          | Some e \<Rightarrow> if utf8_valid (take e b) \<and> take e b \<noteq> [] then Some (take e b) else None))"

definition resolve_hostname :: "string \<Rightarrow> string option \<Rightarrow> string option \<Rightarrow> string" where
  "resolve_hostname configured etc buf =
     (if configured \<noteq> [] then configured
      else case (case etc of
                   None \<Rightarrow> None
                 | Some h \<Rightarrow> if utf8_valid h \<and> trim h \<noteq> [] then Some (trim h) else None) of
             Some h \<Rightarrow> h
           | None \<Rightarrow> (case gethostname_of buf of Some h \<Rightarrow> h | None \<Rightarrow> ''unknown''))"

end
