(* ===== verification/Config_Props.thy ===== *)
theory Config_Props
  imports Config
begin

text \<open>
  What an accepted configuration guarantees to the components that use it, the defaults of a
  minimal file, durations, and the device filter.
\<close>

section \<open>Deserialisation\<close>

lemma de_field_absent [simp]: "map_of t k = None \<Longrightarrow> de_field t k de v = v"
  by (simp add: de_field_def)

lemma de_field_present [simp]: "map_of t k = Some x \<Longrightarrow> de_field t k de v = de x"
  by (simp add: de_field_def)

lemma de_system_config_empty: "de_system_config os (T_Table []) = Some (system_config_default os)"
  by (simp add: system_config_default_def Let_def)

section \<open>Durations\<close>

lemma trim_number: "\<forall>c \<in> set u. 32 < code c \<and> code c < 128 \<Longrightarrow> trim (show_nat v @ u) = show_nat v @ u"
  by (rule trim_visible) (auto dest: show_nat_visible)

lemma strip_suffix_append [simp]: "strip_suffix u (s @ u) = Some s"
  by (auto simp: strip_suffix_def suffix_def)

lemma strip_suffix_last: "u \<noteq> [] \<Longrightarrow> s \<noteq> [] \<Longrightarrow> last u \<noteq> last s \<Longrightarrow> strip_suffix u s = None"
  by (auto simp: strip_suffix_def suffix_def)

lemma show_nat_last_digit: "is_ascii_digit (last (show_nat v))"
  using show_nat_digits show_nat_nonempty last_in_set by blast

lemma strip_ms_number: "strip_suffix ''ms'' (show_nat v @ ''s'') = None"
proof -
  have "show_nat v \<noteq> xs @ ''m''" for xs
    using show_nat_last_digit [of v] by (auto simp: is_ascii_digit_def code_def)
  then show ?thesis by (auto simp: strip_suffix_def suffix_def)
qed

lemma duration_number_show: "v < 2 ^ 64 \<Longrightarrow> duration_number s (show_nat v) = Inr v"
  by (simp add: duration_number_def parse_show_nat del: power_numeral)

lemma parse_duration_ms: "v < 2 ^ 64 \<Longrightarrow> parse_duration (show_nat v @ ''ms'') = Inr v"
  using trim_number [of "''ms''" v] by (simp add: parse_duration_def Let_def code_def duration_number_show del: power_numeral)

lemma parse_duration_s: "v < 2 ^ 64 \<Longrightarrow> parse_duration (show_nat v @ ''s'') = Inr (v * 1000)"
  using trim_number [of "''s''" v] strip_suffix_append [of "''s''" "show_nat v"]
  by (simp add: parse_duration_def Let_def code_def duration_number_show strip_ms_number del: power_numeral strip_suffix_append)

lemma parse_duration_m: "v < 2 ^ 64 \<Longrightarrow> parse_duration (show_nat v @ ''m'') = Inr (v * 60 mod 2 ^ 64 * 1000)"
  using trim_number [of "''m''" v] strip_suffix_append [of "''m''" "show_nat v"]
  by (simp add: parse_duration_def Let_def code_def duration_number_show strip_suffix_last del: power_numeral strip_suffix_append)

lemma parse_duration_h: "v < 2 ^ 64 \<Longrightarrow> parse_duration (show_nat v @ ''h'') = Inr (v * 3600 mod 2 ^ 64 * 1000)"
  using trim_number [of "''h''" v] strip_suffix_append [of "''h''" "show_nat v"]
  by (simp add: parse_duration_def Let_def code_def duration_number_show strip_suffix_last del: power_numeral strip_suffix_append)

section \<open>Validation\<close>

lemma validate_api_key_ok: "validate_api_key k = Inr u \<longleftrightarrow> length k = 32 \<and> (\<forall>b \<in> set k. is_ascii_hexdigit b)"
  by (auto simp: validate_api_key_def)

lemma parse_config_checks:
  assumes "parse_config d os s = Inr c"
  shows "validate_api_key (ac_api_key c) = Inr ()"
    and "\<And>spec. ac_eventlog_event_ids c = Some spec \<Longrightarrow> \<exists>f. event_id_parse spec = Inr f"
    and "\<And>p. ac_multiline_start_pattern c = Some p \<Longrightarrow> regex_new d p"
  using assms by (auto simp: parse_config_def split: option.splits sum.splits if_splits)

section \<open>Properties\<close>

text \<open>The configuration of a file that sets the key only.\<close>

definition default_config :: "target_os \<Rightarrow> string \<Rightarrow> agent_config" where
  "default_config os key =
     \<lparr>ac_api_key = key, ac_endpoint = ''localhost:50000'', ac_server = None, ac_config_poll_interval = 300000,
      ac_hostname = [], ac_interval = 15000, ac_tags = [], ac_log_source = Source_Auto,
      ac_unified_log_predicate = None, ac_eventlog_channels = [''System'', ''Application'', ''Security''],
      ac_eventlog_query = None, ac_eventlog_event_ids = None, ac_eventlog_exclude_providers = [],
      ac_journal_include_services = [], ac_journal_exclude_services = [], ac_parse_syslog = True,
      ac_parse_structured = True, ac_detect_levels = True, ac_multiline_start_pattern = None,
      ac_multiline_timeout_ms = 1000, ac_multiline_max_bytes = 1048576, ac_logs = default_logs os,
      ac_batch_size = 500, ac_buffer_max_bytes = None, ac_system = system_config_default os\<rparr>"

lemma de_agent_config_minimal:
  "de_agent_config os [(''api_key'', T_String key)] = Some (default_config os key)"
  by (simp add: de_agent_config_def default_config_def default_endpoint_def default_config_poll_interval_def
      default_interval_def default_log_source_def default_eventlog_channels_def default_multiline_timeout_ms_def
      default_multiline_max_bytes_def default_batch_size_def)

text \<open>
  A minimal file. A document whose only key is \<open>api_key\<close> is accepted exactly when the key
  has 32 hexadecimal digits, and then every other field has its documented default; an empty
  \<open>[system]\<close> table means the same as no table, as the two sets of defaults must agree.
\<close>

theorem minimal_config:
  assumes "toml_read d s = Some [(''api_key'', T_String key)]"
    and "toml_read d s' = Some [(''api_key'', T_String key), (''system'', T_Table [])]"
  shows "parse_config d os s' = parse_config d os s
    \<and> (case parse_config d os s of
         Inr c \<Rightarrow> length key = 32 \<and> (\<forall>b \<in> set key. is_ascii_hexdigit b) \<and> c = default_config os key
       | Inl e \<Rightarrow> \<not> (length key = 32 \<and> (\<forall>b \<in> set key. is_ascii_hexdigit b)))"
proof -
  note c = de_agent_config_minimal [of os key]
  have c': "de_agent_config os [(''api_key'', T_String key), (''system'', T_Table [])] = Some (default_config os key)"
    by (simp add: de_agent_config_def default_config_def default_endpoint_def default_config_poll_interval_def
        default_interval_def default_log_source_def default_eventlog_channels_def default_multiline_timeout_ms_def
        default_multiline_max_bytes_def default_batch_size_def de_system_config_empty del: de_system_config.simps)
  have p: "parse_config d os s = (case validate_api_key key of Inl e \<Rightarrow> Inl (Config_Message e) | Inr _ \<Rightarrow> Inr (default_config os key))"
    by (simp add: parse_config_def assms(1) c default_config_def split: sum.split)
  have p': "parse_config d os s' = (case validate_api_key key of Inl e \<Rightarrow> Inl (Config_Message e) | Inr _ \<Rightarrow> Inr (default_config os key))"
    by (simp add: parse_config_def assms(2) c' default_config_def split: sum.split)
  show ?thesis
    using validate_api_key_ok [of key] by (auto simp: p p' split: sum.splits)
qed

definition demo_key :: string where
  "demo_key = replicate 32 (CHR ''a'')"

definition demo_config_deps :: deps where
  "demo_config_deps = ref_deps\<lparr>toml_read := (\<lambda>s.
     if s = ''min'' then Some [(''api_key'', T_String demo_key)]
     else if s = ''sys'' then Some [(''api_key'', T_String demo_key), (''system'', T_Table [])] else None)\<rparr>"

lemma demo_key_ok: "length demo_key = 32" "\<forall>b \<in> set demo_key. is_ascii_hexdigit b"
  by (simp_all add: demo_key_def is_ascii_hexdigit_def is_ascii_digit_def code_def)

lemma parse_demo: "parse_config demo_config_deps os ''min'' = Inr (default_config os demo_key)"
proof -
  have "validate_api_key demo_key = Inr ()" using demo_key_ok by (simp add: validate_api_key_ok)
  then show ?thesis
    using de_agent_config_minimal [of os demo_key] by (simp add: parse_config_def demo_config_deps_def default_config_def)
qed

lemma minimal_min: "\<exists>c. parse_config demo_config_deps os ''min'' = Inr c"
  using demo_key_ok by (auto simp: demo_config_deps_def parse_config_def de_agent_config_def validate_api_key_def)

theorem minimal_config_witness:
  "parse_config demo_config_deps Os_Linux ''min'' = Inr (default_config Os_Linux demo_key)
   \<and> parse_config demo_config_deps Os_Linux ''sys'' = Inr (default_config Os_Linux demo_key)"
proof -
  have "toml_read demo_config_deps ''min'' = Some [(''api_key'', T_String demo_key)]"
    and "toml_read demo_config_deps ''sys'' = Some [(''api_key'', T_String demo_key), (''system'', T_Table [])]"
    by (simp_all add: demo_config_deps_def)
  from minimal_config [OF this, of Os_Linux] demo_key_ok show ?thesis
    by (auto split: sum.splits)
qed

text \<open>
  Durations. A 64-bit number followed by a unit is read as that many milliseconds,
  seconds, minutes or hours, as long as the number of seconds fits in 64 bits.
\<close>

theorem duration_roundtrip:
  assumes "v < 2 ^ 64"
  shows "parse_duration (show_nat v @ ''ms'') = Inr v \<and> parse_duration (show_nat v @ ''s'') = Inr (v * 1000)
    \<and> (v * 60 < 2 ^ 64 \<longrightarrow> parse_duration (show_nat v @ ''m'') = Inr (v * 60 * 1000))
    \<and> (v * 3600 < 2 ^ 64 \<longrightarrow> parse_duration (show_nat v @ ''h'') = Inr (v * 3600 * 1000))"
  using assms by (simp add: parse_duration_ms parse_duration_s parse_duration_m parse_duration_h del: power_numeral)

theorem duration_roundtrip_witness: "parse_duration (show_nat 5 @ ''m'') = Inr 300000"
  using duration_roundtrip [of 5] by simp

text \<open>
  The product of minutes and seconds is a 64-bit product: a number of minutes that is
  accepted but whose seconds do not fit is reduced modulo \<open>2 ^ 64\<close>, here to 44 seconds, without
  an error.
\<close>

theorem duration_wraps: "parse_duration (show_nat 307445734561825861 @ ''m'') = Inr 44000"
  using parse_duration_m [of 307445734561825861] by simp

end
