(* ===== verification/Remote_Config.thy ===== *)
theory Remote_Config
  imports Config_Props Source
begin

text \<open>
  \<open>src/remote_config.rs\<close>: the digest of the configuration, the parser of the response of
  \<open>curl -i\<close>, its classification, the atomic write of the configuration file, and the poller
  as a function of the sequence of turns it sees. An indexing panic of the source is the value
  \<open>Panics\<close>. Durations are milliseconds. Owner and mode of the file are not modelled.
\<close>

section \<open>Digest\<close>

definition FNV_OFFSET :: u64 where "FNV_OFFSET = 0xcbf29ce484222325"
definition FNV_PRIME :: u64 where "FNV_PRIME = 0x00000100000001b3"

definition fnv_step :: "u64 \<Rightarrow> char \<Rightarrow> u64" where
  "fnv_step h b = (h XOR of_nat (code b)) * FNV_PRIME"

definition hex_chr :: "nat \<Rightarrow> char" where
  "hex_chr n = char_of (if n < 10 then 48 + n else 87 + n)"

definition hex16 :: "u64 \<Rightarrow> string" where
  "hex16 w = map (\<lambda>i. hex_chr (unat (drop_bit (4 * i) w AND 15))) (rev [0..<16])"

definition config_hash :: "string \<Rightarrow> string" where
  "config_hash bytes = hex16 (foldl fnv_step FNV_OFFSET bytes)"

section \<open>HTTP response\<close>

datatype 'a rust = Returns 'a | Panics

record http_response =
  hr_status :: nat
  hr_etag :: "string option"
  hr_body :: string

definition find_subslice :: "string \<Rightarrow> string \<Rightarrow> nat option" where
  "find_subslice haystack needle =
     (if needle = [] \<or> length haystack < length needle then None
      else List.find (\<lambda>i. take (length needle) (drop i haystack) = needle)
             [0..<length haystack - length needle + 1])"

definition parse_status_code :: "string \<Rightarrow> nat option" where
  "parse_status_code status_line =
     (case split_whitespace status_line of
        _ # w # _ \<Rightarrow> parse_uint 10 (2 ^ 16) w
      | _ \<Rightarrow> None)"

text \<open>\<open>lines.find(..)\<close>: the slice \<open>l[..5]\<close> panics when byte 5 is inside a character.\<close>

fun find_etag :: "string list \<Rightarrow> string option rust" where
  "find_etag [] = Returns None"
| "find_etag (l # ls) =
     (if length l < 5 then find_etag ls
      else if \<not> is_char_boundary l 5 then Panics
      else if eq_ignore_ascii_case (take 5 l) ''etag:'' then Returns (Some (trim (drop 5 l)))
      else find_etag ls)"

definition header_end :: "string \<Rightarrow> (nat \<times> nat) option" where
  "header_end raw =
     (case find_subslice raw [CR, NL, CR, NL] of
        Some i \<Rightarrow> Some (i, 4)
      | None \<Rightarrow> map_option (\<lambda>i. (i, 2)) (find_subslice raw [NL, NL]))"

definition parse_http_response :: "string \<Rightarrow> http_response option rust" where
  "parse_http_response raw =
     (case header_end raw of
        None \<Rightarrow> Returns None
      | Some (hdr_end, sep_len) \<Rightarrow>
          (case str_lines (from_utf8_lossy (take hdr_end raw)) of
             [] \<Rightarrow> Returns None
           | status_line # ls \<Rightarrow>
               (case parse_status_code status_line of
                  None \<Rightarrow> Returns None
                | Some st \<Rightarrow>
                    (case find_etag ls of
                       Panics \<Rightarrow> Panics
                     | Returns e \<Rightarrow>
                         Returns (Some \<lparr>hr_status = st, hr_etag = e, hr_body = drop (hdr_end + sep_len) raw\<rparr>)))))"

section \<open>Classification\<close>

record poller_config =
  pc_server :: string
  pc_api_key :: string
  pc_endpoint :: string
  pc_config_path :: path
  pc_interval :: nat
  pc_applied_hash :: string

datatype poll_outcome =
  NotModified
| Unchanged "string option"
| Changed (changed_body: string) (changed_hash: string) (endpoint_changed: bool) (api_key_changed: bool) (server_dropped: bool)
| Invalid config_error

datatype poll_error = CurlMissing | Fetch string

definition classify_response ::
    "deps \<Rightarrow> target_os \<Rightarrow> poller_config \<Rightarrow> string \<Rightarrow> http_response \<Rightarrow> poll_error + poll_outcome" where
  "classify_response d os pc applied_hash resp =
     (if hr_status resp = 304 then Inr NotModified
      else if hr_status resp = 200 then
        (if \<forall>b \<in> set (hr_body resp). is_ascii_whitespace b then Inl (Fetch ''server returned an empty body'')
         else (let bdy = from_utf8_lossy (hr_body resp) in
               case parse_config d os bdy of
                 Inl e \<Rightarrow> Inr (Invalid e)
               | Inr new_cfg \<Rightarrow>
                   (let hash = config_hash bdy in
                    if hash = applied_hash then Inr (Unchanged (hr_etag resp))
                    else Inr (Changed bdy hash (ac_endpoint new_cfg \<noteq> pc_endpoint pc)
                                (ac_api_key new_cfg \<noteq> pc_api_key pc) (ac_server new_cfg = None)))))
      else Inl (Fetch (''unexpected HTTP status '' @ show_nat (hr_status resp))))"

text \<open>What the blocking task that runs \<open>curl\<close> returns.\<close>

record curl_output =
  co_success :: bool
  co_stdout :: string
  co_stderr :: string

datatype curl_result = Curl_Output curl_output | Curl_NotFound | Curl_Error string | Curl_Task_Failed string

definition trim_end_slashes :: "string \<Rightarrow> string" where
  "trim_end_slashes s = rev (dropWhile ((=) (CHR ''/'')) (rev s))"

text \<open>The command line; the token goes to the standard input of \<open>curl\<close>. \<open>version\<close> is the package version.\<close>

definition poll_args :: "string \<Rightarrow> poller_config \<Rightarrow> string \<Rightarrow> string option \<Rightarrow> string list" where
  "poll_args version pc applied_hash etag =
     [''-sS'', ''-i'', ''--max-time'', ''10'', ''-H'', ''User-Agent: witness/'' @ version,
      ''-H'', ''X-Witness-Config-Hash: '' @ applied_hash]
     @ (case etag of Some e \<Rightarrow> [''-H'', ''If-None-Match: '' @ e] | None \<Rightarrow> [])
     @ [''--config'', ''-'', trim_end_slashes (pc_server pc) @ ''/v1/agent/config'']"

definition poll_once ::
    "deps \<Rightarrow> target_os \<Rightarrow> (string list \<Rightarrow> string \<Rightarrow> curl_result) \<Rightarrow> string \<Rightarrow> poller_config \<Rightarrow> string \<Rightarrow> string option
       \<Rightarrow> (poll_error + poll_outcome) rust" where
  "poll_once d os run_with_bearer version pc applied_hash etag =
     (case run_with_bearer (poll_args version pc applied_hash etag) (pc_api_key pc) of
        Curl_NotFound \<Rightarrow> Returns (Inl CurlMissing)
      | Curl_Error e \<Rightarrow> Returns (Inl (Fetch (''curl spawn failed: '' @ e)))
      | Curl_Task_Failed e \<Rightarrow> Returns (Inl (Fetch (''poll task failed: '' @ e)))
      | Curl_Output out \<Rightarrow>
          if \<not> co_success out
          then Returns (Inl (Fetch (''curl exited non-zero: '' @ trim (from_utf8_lossy (co_stderr out)))))
          else (case parse_http_response (co_stdout out) of
                  Panics \<Rightarrow> Panics
                | Returns None \<Rightarrow> Returns (Inl (Fetch ''unparseable HTTP response''))
                | Returns (Some resp) \<Rightarrow> Returns (classify_response d os pc applied_hash resp)))"

section \<open>The configuration file\<close>

record config_io =
  cw_create :: bool
  cw_room :: nat
  cw_sync :: bool
  cw_chmod :: bool
  cw_rename :: bool

text \<open>The pair is the live file and the temporary file; the boolean is \<open>Ok\<close>.\<close>

definition write_config_atomic ::
    "config_io \<Rightarrow> string \<Rightarrow> string option \<times> string option \<Rightarrow> bool \<times> string option \<times> string option" where
  "write_config_atomic io bytes disk =
     (case disk of (live_file, tmp) \<Rightarrow>
        if \<not> cw_create io then (False, live_file, tmp)
        else if \<not> (length bytes \<le> cw_room io \<and> cw_sync io) then (False, live_file, Some (take (cw_room io) bytes))
        else if \<not> cw_chmod io then (False, live_file, Some bytes)
        else if \<not> cw_rename io then (False, live_file, Some bytes)
        else (True, Some bytes, None))"

section \<open>The poller\<close>

definition BACKOFF_CAP :: nat where "BACKOFF_CAP = 30 * 60 * 1000"

record poller_state =
  po_delay :: nat
  po_etag :: "string option"
  po_disk :: "string option \<times> string option"
  po_reload :: bool

datatype poller_exit =
  Poller_Disabled | Poller_Cancelled | Poller_Applied | Poller_CurlMissing | Poller_Panicked | Poller_Running

text \<open>One turn of the loop: cancelled while it sleeps, or a poll with the server and the disk of the moment.\<close>

datatype poll_turn = Turn_Cancel | Turn_Poll "string list \<Rightarrow> string \<Rightarrow> curl_result" config_io

definition on_outcome ::
    "poller_config \<Rightarrow> config_io \<Rightarrow> poll_error + poll_outcome \<Rightarrow> poller_state \<Rightarrow> poller_exit \<times> poller_state" where
  "on_outcome pc io res st =
     (case res of
        Inr NotModified \<Rightarrow> (Poller_Running, st\<lparr>po_delay := pc_interval pc\<rparr>)
      | Inr (Unchanged new) \<Rightarrow>
          (Poller_Running, st\<lparr>po_etag := (case new of Some e \<Rightarrow> Some e | None \<Rightarrow> po_etag st), po_delay := pc_interval pc\<rparr>)
      | Inr (Invalid msg) \<Rightarrow> (Poller_Running, st\<lparr>po_delay := pc_interval pc\<rparr>)
      | Inr (Changed bdy hash ep key srv) \<Rightarrow>
          (case write_config_atomic io bdy (po_disk st) of
             (True, disk) \<Rightarrow> (Poller_Applied, st\<lparr>po_disk := disk, po_reload := True\<rparr>)
           | (False, disk) \<Rightarrow> (Poller_Running, st\<lparr>po_disk := disk, po_delay := pc_interval pc\<rparr>))
      | Inl CurlMissing \<Rightarrow> (Poller_CurlMissing, st)
      | Inl (Fetch msg) \<Rightarrow> (Poller_Running, st\<lparr>po_delay := next_backoff (po_delay st) BACKOFF_CAP\<rparr>))"

fun poller_loop ::
    "deps \<Rightarrow> target_os \<Rightarrow> string \<Rightarrow> poller_config \<Rightarrow> poll_turn list \<Rightarrow> poller_state \<Rightarrow> poller_exit \<times> poller_state" where
  "poller_loop d os version pc [] st = (Poller_Running, st)"
| "poller_loop d os version pc (Turn_Cancel # ts) st = (Poller_Cancelled, st)"
| "poller_loop d os version pc (Turn_Poll curl io # ts) st =
     (case poll_once d os curl version pc (pc_applied_hash pc) (po_etag st) of
        Panics \<Rightarrow> (Poller_Panicked, st)
      | Returns res \<Rightarrow>
          (case on_outcome pc io res st of
             (Poller_Running, st') \<Rightarrow> poller_loop d os version pc ts st'
           | r \<Rightarrow> r))"

definition run_poller ::
    "deps \<Rightarrow> target_os \<Rightarrow> string \<Rightarrow> poller_config \<Rightarrow> poll_turn list \<Rightarrow> string option \<times> string option \<Rightarrow>
       poller_exit \<times> poller_state" where
  "run_poller d os version pc ts disk =
     (let st = \<lparr>po_delay = pc_interval pc, po_etag = None, po_disk = disk, po_reload = False\<rparr> in
      if \<not> starts_with (pc_server pc) ''https://'' then (Poller_Disabled, st)
      else if pc_interval pc = 0 then (Poller_Disabled, st)
      else poller_loop d os version pc ts st)"

text \<open>The digest the next run starts from (\<open>applied_config_hash\<close> in \<open>src/main.rs\<close>).\<close>

definition applied_config_hash :: "string option \<Rightarrow> string" where
  "applied_config_hash file = config_hash (case file of Some bytes \<Rightarrow> bytes | None \<Rightarrow> [])"

end
