(* ===== verification/F64.thy ===== *)
theory F64
  imports External "HOL-Library.Log_Nat"
begin

text \<open>
  The part of Rust's \<open>f64\<close> the collectors use: IEEE 754 binary64 with rounding to nearest, ties
  to even. A finite value is the rational it denotes (the two zeros are one value, and a
  division by zero takes the divisor as positive zero); an operation is the exact operation
  followed by \<open>f64_of_rat\<close>. Rounding is monotone and exact on the integers below \<open>2 ^ 53\<close>.
\<close>

section \<open>Rounding\<close>

definition round_half_even :: "rat \<Rightarrow> int" where
  "round_half_even x =
     (let f = \<lfloor>x\<rfloor>; r = x - of_int f in
      if r < 1 / 2 then f else if r > 1 / 2 then f + 1 else if even f then f else f + 1)"

text \<open>The exponent of the binade of a positive number.\<close>

definition ilog2 :: "rat \<Rightarrow> int" where
  "ilog2 q = (if 1 \<le> q then bitlen \<lfloor>q\<rfloor> - 1 else - bitlen (\<lceil>1 / q\<rceil> - 1))"

definition ulp_exp :: "rat \<Rightarrow> int" where
  "ulp_exp q = max (ilog2 q) (- 1022) - 52"

definition round_pos :: "rat \<Rightarrow> rat" where
  "round_pos q = of_int (round_half_even (q / 2 powi ulp_exp q)) * 2 powi ulp_exp q"

definition f64_of_rat :: "rat \<Rightarrow> f64" where
  "f64_of_rat q =
     (if q = 0 then Fin 0
      else if 0 < q then (if round_pos q < 2 ^ 1024 then Fin (round_pos q) else PosInf)
      else (if round_pos (- q) < 2 ^ 1024 then Fin (- round_pos (- q)) else NegInf))"

section \<open>Operations\<close>

fun is_finite :: "f64 \<Rightarrow> bool" where
  "is_finite (Fin _) = True"
| "is_finite _ = False"

fun f_neg :: "f64 \<Rightarrow> f64" where
  "f_neg (Fin a) = Fin (- a)"
| "f_neg PosInf = NegInf"
| "f_neg NegInf = PosInf"
| "f_neg NaN = NaN"

fun f_add :: "f64 \<Rightarrow> f64 \<Rightarrow> f64" where
  "f_add (Fin a) (Fin b) = f64_of_rat (a + b)"
| "f_add NaN _ = NaN"
| "f_add _ NaN = NaN"
| "f_add PosInf NegInf = NaN"
| "f_add NegInf PosInf = NaN"
| "f_add PosInf _ = PosInf"
| "f_add NegInf _ = NegInf"
| "f_add _ PosInf = PosInf"
| "f_add _ NegInf = NegInf"

definition f_sub :: "f64 \<Rightarrow> f64 \<Rightarrow> f64" where
  "f_sub x y = f_add x (f_neg y)"

definition signed_inf :: "rat \<Rightarrow> f64" where
  "signed_inf s = (if 0 < s then PosInf else if s < 0 then NegInf else NaN)"

fun f_sign :: "f64 \<Rightarrow> rat" where
  "f_sign (Fin a) = sgn a"
| "f_sign PosInf = 1"
| "f_sign NegInf = - 1"
| "f_sign NaN = 0"

fun f_mul :: "f64 \<Rightarrow> f64 \<Rightarrow> f64" where
  "f_mul (Fin a) (Fin b) = f64_of_rat (a * b)"
| "f_mul x y = (if x = NaN \<or> y = NaN then NaN else signed_inf (f_sign x * f_sign y))"

fun f_div :: "f64 \<Rightarrow> f64 \<Rightarrow> f64" where
  "f_div (Fin a) (Fin b) = (if b = 0 then signed_inf a else f64_of_rat (a / b))"
| "f_div (Fin a) y = (if y = NaN then NaN else Fin 0)"
| "f_div x (Fin b) = (if x = NaN then NaN else signed_inf (f_sign x * (if b = 0 then 1 else sgn b)))"
| "f_div _ _ = NaN"

fun f_le :: "f64 \<Rightarrow> f64 \<Rightarrow> bool" where
  "f_le (Fin a) (Fin b) = (a \<le> b)"
| "f_le NaN _ = False"
| "f_le _ NaN = False"
| "f_le NegInf _ = True"
| "f_le _ PosInf = True"
| "f_le _ _ = False"

definition f_less :: "f64 \<Rightarrow> f64 \<Rightarrow> bool" where
  "f_less x y \<longleftrightarrow> f_le x y \<and> x \<noteq> y"

definition f_max :: "f64 \<Rightarrow> f64 \<Rightarrow> f64" where
  "f_max x y = (if x = NaN then y else if y = NaN then x else if f_le x y then y else x)"

definition f_clamp :: "f64 \<Rightarrow> f64 \<Rightarrow> f64 \<Rightarrow> f64" where
  "f_clamp x lo hi = (if f_less x lo then lo else if f_less hi x then hi else x)"

text \<open>\<open>u64 as f64\<close> and \<open>usize as f64\<close>.\<close>

definition f_nat :: "nat \<Rightarrow> f64" where
  "f_nat n = f64_of_rat (of_nat n)"

section \<open>Parsing\<close>

definition decimal :: "string \<Rightarrow> nat" where
  "decimal ds = foldl (\<lambda>n c. n * 10 + (code c - 48)) 0 ds"

definition parse_exponent :: "string \<Rightarrow> int option" where
  "parse_exponent s =
     (case s of
        [] \<Rightarrow> Some 0
      | c # r \<Rightarrow>
          if c \<noteq> CHR ''e'' \<and> c \<noteq> CHR ''E'' then None
          else (let neg = (r \<noteq> [] \<and> hd r = CHR ''-'');
                    ds = (if r \<noteq> [] \<and> (hd r = CHR ''-'' \<or> hd r = CHR ''+'') then tl r else r)
                in if ds = [] \<or> \<not> list_all is_ascii_digit ds then None
                   else Some (if neg then - int (decimal ds) else int (decimal ds))))"

definition parse_number :: "string \<Rightarrow> rat option" where
  "parse_number s =
     (let ip = takeWhile is_ascii_digit s; r = dropWhile is_ascii_digit s;
          dot = (r \<noteq> [] \<and> hd r = CHR ''.'');
          fp = (if dot then takeWhile is_ascii_digit (tl r) else []);
          e = (if dot then dropWhile is_ascii_digit (tl r) else r)
      in if ip = [] \<and> fp = [] then None
         else map_option (\<lambda>x. of_nat (decimal (ip @ fp)) / 10 ^ length fp * 10 powi x) (parse_exponent e))"

definition parse_f64 :: "string \<Rightarrow> f64 option" where
  "parse_f64 s =
     (let neg = (s \<noteq> [] \<and> hd s = CHR ''-'');
          r = (if s \<noteq> [] \<and> (hd s = CHR ''-'' \<or> hd s = CHR ''+'') then tl s else s);
          v = (if to_ascii_lowercase r \<in> {''inf'', ''infinity''} then Some PosInf
               else if to_ascii_lowercase r = ''nan'' then Some NaN
               else map_option f64_of_rat (parse_number r))
      in map_option (\<lambda>x. if neg then f_neg x else x) v)"

section \<open>Monotonicity\<close>

lemma round_half_even_bounds: "\<lfloor>x\<rfloor> \<le> round_half_even x" "round_half_even x \<le> \<lfloor>x\<rfloor> + 1"
  by (simp_all add: round_half_even_def Let_def)

lemma round_half_even_mono: "x \<le> y \<Longrightarrow> round_half_even x \<le> round_half_even y"
proof (cases "\<lfloor>x\<rfloor> = \<lfloor>y\<rfloor>")
  case True
  assume "x \<le> y"
  with True show ?thesis by (auto simp: round_half_even_def Let_def)
next
  case False
  assume "x \<le> y"
  with False have "\<lfloor>x\<rfloor> + 1 \<le> \<lfloor>y\<rfloor>" using floor_mono [of x y] by linarith
  then show ?thesis using round_half_even_bounds [of x] round_half_even_bounds [of y] by linarith
qed

lemma round_half_even_int [simp]: "round_half_even (of_int n) = n"
  by (simp add: round_half_even_def)

lemma powi_mono: "i \<le> j \<Longrightarrow> (2 :: rat) powi i \<le> 2 powi j"
  by (rule power_int_increasing) auto

lemma powi_less: "(2 :: rat) powi i < 2 powi j \<Longrightarrow> i < j"
  using powi_mono [of j i] by linarith

lemma bitlen_pos: "1 \<le> n \<Longrightarrow> 0 < bitlen n"
  using bitlen_bounds [of n] bitlen_nonneg [of n] by (cases "bitlen n = 0") auto

lemma ilog2_ge1:
  assumes "1 \<le> q"
  shows "2 powi ilog2 q \<le> q \<and> q < 2 powi (ilog2 q + 1)"
proof -
  define n where "n = \<lfloor>q\<rfloor>"
  have n: "1 \<le> n" using assms by (simp add: n_def le_floor_iff)
  then have b: "0 < bitlen n" by (rule bitlen_pos)
  from n bitlen_bounds [of n] have "2 ^ nat (bitlen n - 1) \<le> n" "n + 1 \<le> 2 ^ nat (bitlen n)" by auto
  then have "of_int (2 ^ nat (bitlen n - 1)) \<le> (of_int n :: rat)" "of_int (n + 1) \<le> (of_int (2 ^ nat (bitlen n)) :: rat)"
    by (simp_all only: of_int_le_iff)
  moreover have "of_int n \<le> q" "q < of_int (n + 1)" unfolding n_def by linarith+
  moreover have "ilog2 q = bitlen n - 1" using assms by (simp add: ilog2_def n_def)
  moreover have "(2 :: rat) ^ nat (bitlen n - 1) = of_int (2 ^ nat (bitlen n - 1))" by simp
  ultimately have "2 ^ nat (bitlen n - 1) \<le> q" "q < of_int (2 ^ nat (bitlen n))" "ilog2 q = bitlen n - 1" by linarith+
  then show ?thesis using b by (simp add: power_int_def)
qed

lemma ilog2_lt1:
  assumes "0 < q" and "q < 1"
  shows "2 powi ilog2 q \<le> q \<and> q < 2 powi (ilog2 q + 1)"
proof -
  define p where "p = 1 / q"
  define m where "m = \<lceil>p\<rceil> - 1"
  have "1 < p" using assms by (simp add: p_def)
  then have m: "1 \<le> m" by (simp add: m_def less_ceiling_iff)
  define k where "k = bitlen m"
  have k: "0 < k" using bitlen_pos [OF m] by (simp add: k_def)
  from m bitlen_bounds [of m] have mb: "2 ^ nat (k - 1) \<le> m" "m + 1 \<le> 2 ^ nat k" by (auto simp: k_def)
  have "p \<le> of_int (m + 1)" by (simp add: m_def)
  also have "\<dots> \<le> of_int (2 ^ nat k)" using mb(2) by (simp only: of_int_le_iff)
  finally have up: "p \<le> 2 ^ nat k" by simp
  have "of_int (2 ^ nat (k - 1)) \<le> (of_int m :: rat)" using mb(1) by (simp only: of_int_le_iff)
  moreover have "of_int m < p" unfolding m_def by linarith
  moreover have "(2 :: rat) ^ nat (k - 1) = of_int (2 ^ nat (k - 1))" by simp
  ultimately have lo: "2 ^ nat (k - 1) < p" by linarith
  have q: "q = 1 / p" using assms by (simp add: p_def)
  have "ilog2 q = - k" using assms by (simp add: ilog2_def p_def m_def k_def)
  moreover have "1 / 2 ^ nat k \<le> q" using up \<open>1 < p\<close> unfolding q by (intro divide_left_mono) auto
  moreover have "q < 1 / 2 ^ nat (k - 1)" using lo \<open>1 < p\<close> unfolding q by (intro divide_strict_left_mono) auto
  ultimately show ?thesis using k by (auto simp: power_int_def power_one_over)
qed

lemma ilog2_bounds: "0 < q \<Longrightarrow> 2 powi ilog2 q \<le> q \<and> q < 2 powi (ilog2 q + 1)"
  using ilog2_ge1 ilog2_lt1 by (cases "1 \<le> q") auto

lemma ilog2_mono: "0 < p \<Longrightarrow> p \<le> q \<Longrightarrow> ilog2 p \<le> ilog2 q"
proof -
  assume "0 < p" "p \<le> q"
  then have "(2 :: rat) powi ilog2 p < 2 powi (ilog2 q + 1)"
    using ilog2_bounds [of p] ilog2_bounds [of q] by linarith
  then show ?thesis using powi_less by fastforce
qed

text \<open>A bound of the scaled number by an integer carries over to the rounded number.\<close>

lemma round_pos_le:
  assumes "q \<le> of_int n * 2 powi ulp_exp q"
  shows "round_pos q \<le> of_int n * 2 powi ulp_exp q"
proof -
  have u: "(0 :: rat) < 2 powi ulp_exp q" by simp
  then have "q / 2 powi ulp_exp q \<le> of_int n" using assms by (simp add: pos_divide_le_eq)
  then have "round_half_even (q / 2 powi ulp_exp q) \<le> n" using round_half_even_mono by fastforce
  then show ?thesis unfolding round_pos_def using u by (intro mult_right_mono) auto
qed

lemma round_pos_ge:
  assumes "of_int n * 2 powi ulp_exp q \<le> q"
  shows "of_int n * 2 powi ulp_exp q \<le> round_pos q"
proof -
  have u: "(0 :: rat) < 2 powi ulp_exp q" by simp
  then have "of_int n \<le> q / 2 powi ulp_exp q" using assms by (simp add: pos_le_divide_eq)
  then have "n \<le> round_half_even (q / 2 powi ulp_exp q)" using round_half_even_mono by fastforce
  then show ?thesis unfolding round_pos_def using u by (intro mult_right_mono) auto
qed

lemma round_pos_exact: "q = of_int n * 2 powi ulp_exp q \<Longrightarrow> round_pos q = q"
  using round_pos_le [of q n] round_pos_ge [of n q] by linarith

lemma round_pos_nonneg: "0 < q \<Longrightarrow> 0 \<le> round_pos q"
  using round_pos_ge [of 0 q] by simp

lemma powi_split: "(2 :: rat) powi (i + int k) = of_int (2 ^ k) * 2 powi i"
  by (simp add: power_int_add)

lemma round_pos_mono:
  assumes "0 < p" and "p \<le> q"
  shows "round_pos p \<le> round_pos q"
proof (cases "ulp_exp p = ulp_exp q")
  case True
  have "p / 2 powi ulp_exp p \<le> q / 2 powi ulp_exp q" using assms True by (simp add: divide_right_mono)
  from round_half_even_mono [OF this] True show ?thesis
    unfolding round_pos_def by (auto intro!: mult_right_mono)
next
  case False
  have "ilog2 p \<le> ilog2 q" using ilog2_mono assms by blast
  with False have lt: "ulp_exp p + 1 \<le> ulp_exp q" and uq: "ulp_exp q = ilog2 q - 52" by (auto simp: ulp_exp_def)
  have "p < 2 powi (ilog2 p + 1)" using ilog2_bounds assms by blast
  also have "\<dots> \<le> 2 powi (ulp_exp p + int 53)" by (intro powi_mono) (simp add: ulp_exp_def)
  finally have "p \<le> of_int (2 ^ 53) * 2 powi ulp_exp p" by (simp only: powi_split)
  then have "round_pos p \<le> 2 powi (ulp_exp p + int 53)" by (simp only: powi_split round_pos_le)
  also have "\<dots> \<le> 2 powi (ulp_exp q + int 52)" using lt by (intro powi_mono) simp
  also have "\<dots> \<le> round_pos q"
  proof -
    have "q \<ge> 2 powi (ulp_exp q + int 52)" using ilog2_bounds [of q] assms uq by simp
    then show ?thesis by (simp only: powi_split round_pos_ge)
  qed
  finally show ?thesis .
qed

lemma round_pos_int:
  assumes "0 < n" and "n < 2 ^ 53"
  shows "round_pos (of_int n) = of_int n"
proof -
  have p: "(0 :: rat) < of_int n" using assms by simp
  have "(of_int n :: rat) < of_int (2 ^ 53)" using assms(2) by (simp only: of_int_less_iff)
  then have "(2 :: rat) powi ilog2 (of_int n) < 2 powi 53" using ilog2_bounds [OF p] by (simp add: power_int_def)
  then have "ilog2 (of_int n) < 53" using powi_less by blast
  then have u: "ulp_exp (of_int n) \<le> 0" by (simp add: ulp_exp_def)
  define k where "k = nat (- ulp_exp (of_int n))"
  have "ulp_exp (of_int n) = - int k" using u by (simp add: k_def)
  then have "(of_int n :: rat) = of_int (n * 2 ^ k) * 2 powi ulp_exp (of_int n)"
    by (simp add: power_int_minus field_simps)
  then show ?thesis by (rule round_pos_exact)
qed

text \<open>The order of the finite values is kept by rounding.\<close>

lemma f64_of_rat_0 [simp]: "f64_of_rat 0 = Fin 0"
  by (simp add: f64_of_rat_def)

lemma f64_of_int:
  assumes "0 \<le> n" and "n < 2 ^ 53"
  shows "f64_of_rat (of_int n) = Fin (of_int n)"
proof (cases "n = 0")
  case False
  with assms have n: "0 < n" by simp
  have "(of_int n :: rat) < of_int (2 ^ 53)" using assms(2) by (simp only: of_int_less_iff)
  also have "\<dots> < 2 ^ 1024" by simp
  finally have "(of_int n :: rat) < 2 ^ 1024" .
  with n round_pos_int [OF n assms(2)] show ?thesis by (simp add: f64_of_rat_def)
qed simp

lemma f64_of_rat_le:
  assumes "0 \<le> q" and "q \<le> of_int n" and "0 \<le> n" and "n < 2 ^ 53"
  shows "\<exists>r. f64_of_rat q = Fin r \<and> 0 \<le> r \<and> r \<le> of_int n"
proof (cases "q = 0")
  case False
  with assms have q: "0 < q" and n: "0 < n" by auto
  have r: "round_pos q \<le> of_int n" using round_pos_mono [OF q assms(2)] round_pos_int [OF n assms(4)] by simp
  have "(of_int n :: rat) < of_int (2 ^ 53)" using assms(4) by (simp only: of_int_less_iff)
  also have "\<dots> < 2 ^ 1024" by simp
  finally have "round_pos q < 2 ^ 1024" using r by linarith
  with q r round_pos_nonneg [OF q] show ?thesis by (simp add: f64_of_rat_def)
qed (use assms in auto)

end
