(* ===== verification/Metrics.thy ===== *)
theory Metrics
  imports F64 Sink
begin

text \<open>
  \<open>src/metrics/derived.rs\<close> and the Linux collectors for CPU, memory, load and TCP states
  (\<open>src/metrics/linux/cpu.rs\<close>, \<open>memory.rs\<close>, \<open>load.rs\<close>, \<open>tcp.rs\<close>). The proc file system is a function
  from paths to contents; counters are 64-bit words.
\<close>

section \<open>Reading\<close>

type_synonym procfs = "path \<Rightarrow> string option"

text \<open>\<open>read_procfs\<close>: the contents, when the file can be read as UTF-8.\<close>

definition read_procfs :: "procfs \<Rightarrow> path \<Rightarrow> string option" where
  "read_procfs fs p = (case fs p of Some s \<Rightarrow> if utf8_valid s then Some s else None | None \<Rightarrow> None)"

definition sat_sub :: "u64 \<Rightarrow> u64 \<Rightarrow> u64" where
  "sat_sub a b = (if a < b then 0 else a - b)"

definition f_u64 :: "u64 \<Rightarrow> f64" where
  "f_u64 w = f_nat (unat w)"

text \<open>\<open>.and_then(|s| s.parse().ok())\<close> on the next word.\<close>

definition next_f64 :: "string list \<Rightarrow> f64 option" where
  "next_f64 ws = (case ws of w # _ \<Rightarrow> parse_f64 w | [] \<Rightarrow> None)"

definition next_u64 :: "string list \<Rightarrow> u64 option" where
  "next_u64 ws = (case ws of w # _ \<Rightarrow> map_option of_nat (parse_u64 w) | [] \<Rightarrow> None)"

section \<open>Derived metrics\<close>

definition ratio_percent :: "f64 \<Rightarrow> f64 \<Rightarrow> f64 option" where
  "ratio_percent part whole =
     (if \<not> is_finite whole \<or> f_le whole (Fin 0) \<or> \<not> is_finite part then None
      else Some (f_clamp (f_mul (f_div part whole) (Fin 100)) (Fin 0) (Fin 100)))"

definition memory_used_percent :: "f64 \<Rightarrow> f64 \<Rightarrow> f64 option" where
  "memory_used_percent tot available = ratio_percent (f_sub tot available) tot"

definition swap_used_percent :: "f64 \<Rightarrow> f64 \<Rightarrow> f64 option" where
  "swap_used_percent tot used = ratio_percent used tot"

definition cpu_busy_percent :: "f64 \<Rightarrow> f64 option" where
  "cpu_busy_percent idle_percent =
     (if \<not> is_finite idle_percent then None
      else Some (f_clamp (f_sub (Fin 100) idle_percent) (Fin 0) (Fin 100)))"

definition load_per_cpu :: "f64 \<Rightarrow> nat \<Rightarrow> f64 option" where
  "load_per_cpu load cpu_count =
     (if cpu_count = 0 \<or> \<not> is_finite load then None else Some (f_div load (f_nat cpu_count)))"

definition checked_add :: "nat \<Rightarrow> nat \<Rightarrow> nat option" where
  "checked_add a b = (if a + b < 2 ^ 64 then Some (a + b) else None)"

definition checked_sub :: "nat \<Rightarrow> nat \<Rightarrow> nat option" where
  "checked_sub a b = (if b \<le> a then Some (a - b) else None)"

definition count_cpu_range :: "string \<Rightarrow> nat option" where
  "count_cpu_range part =
     (case split_once (CHR ''-'') part of
        None \<Rightarrow> map_option (\<lambda>_. 1) (parse_u64 part)
      | Some (lo, hi) \<Rightarrow>
          Option.bind (parse_u64 lo) (\<lambda>l. Option.bind (parse_u64 hi) (\<lambda>h.
            Option.bind (checked_sub h l) (\<lambda>n. checked_add n 1))))"

fun cpu_list_fold :: "string list \<Rightarrow> nat \<Rightarrow> nat option" where
  "cpu_list_fold [] acc = Some acc"
| "cpu_list_fold (p # ps) acc =
     (case count_cpu_range (trim p) of
        None \<Rightarrow> None
      | Some n \<Rightarrow> (case checked_add acc n of None \<Rightarrow> None | Some a \<Rightarrow> cpu_list_fold ps a))"

definition count_cpu_list :: "string \<Rightarrow> nat option" where
  "count_cpu_list list =
     (let l = trim list in if l = [] then None else cpu_list_fold (split_char (CHR '','') l) 0)"

section \<open>CPU\<close>

record cpu_times =
  ct_user :: u64
  ct_nice :: u64
  ct_system :: u64
  ct_idle :: u64
  ct_iowait :: u64
  ct_irq :: u64
  ct_softirq :: u64
  ct_steal :: u64

definition cpu_kernel :: "cpu_times \<Rightarrow> u64" where
  "cpu_kernel c = ct_system c + ct_irq c + ct_softirq c"

definition cpu_total :: "cpu_times \<Rightarrow> u64" where
  "cpu_total c = ct_user c + ct_nice c + ct_system c + ct_idle c + ct_iowait c + ct_irq c + ct_softirq c + ct_steal c"

definition cpu_field :: "string list \<Rightarrow> nat \<Rightarrow> u64" where
  "cpu_field parts i = (case next_u64 (drop i parts) of Some v \<Rightarrow> v | None \<Rightarrow> 0)"

definition parse_cpu_line :: "string list \<Rightarrow> cpu_times" where
  "parse_cpu_line parts =
     \<lparr>ct_user = cpu_field parts 0, ct_nice = cpu_field parts 1, ct_system = cpu_field parts 2,
      ct_idle = cpu_field parts 3, ct_iowait = cpu_field parts 4, ct_irq = cpu_field parts 5,
      ct_softirq = cpu_field parts 6, ct_steal = cpu_field parts 7\<rparr>"

definition cpu_label :: "string \<Rightarrow> string option" where
  "cpu_label cpu_name =
     (case strip_prefix ''cpu'' cpu_name of
        None \<Rightarrow> None
      | Some suf \<Rightarrow> if suf = [] then Some ''total'' else if list_all is_ascii_digit suf then Some suf else None)"

definition cpu_pct :: "u64 \<Rightarrow> u64 \<Rightarrow> u64 \<Rightarrow> f64" where
  "cpu_pct dt cur old = f_mul (f_div (f_u64 (sat_sub cur old)) (f_u64 dt)) (Fin 100)"

text \<open>The gauges of one row, in order.\<close>

definition cpu_gauges :: "string \<Rightarrow> cpu_times \<Rightarrow> cpu_times \<Rightarrow> (string \<times> f64) list" where
  "cpu_gauges label prev current =
     (let dt = sat_sub (cpu_total current) (cpu_total prev) in
      if dt = 0 then []
      else (let idle = cpu_pct dt (ct_idle current) (ct_idle prev) in
        [(''system.cpu.user'', cpu_pct dt (ct_user current + ct_nice current) (ct_user prev + ct_nice prev)),
         (''system.cpu.system'', cpu_pct dt (cpu_kernel current) (cpu_kernel prev)),
         (''system.cpu.idle'', idle),
         (''system.cpu.iowait'', cpu_pct dt (ct_iowait current) (ct_iowait prev)),
         (''system.cpu.steal'', cpu_pct dt (ct_steal current) (ct_steal prev))]
        @ (if label = ''total''
           then (case cpu_busy_percent idle of Some busy \<Rightarrow> [(''system.cpu.busy_percent'', busy)] | None \<Rightarrow> [])
           else [])))"

definition emit_gauges_dyn :: "labels \<Rightarrow> (string \<times> f64) list \<Rightarrow> sink \<Rightarrow> sink" where
  "emit_gauges_dyn ls gs s = fold (\<lambda>(name, v) s. gauge_dyn s name v ls) gs s"

definition emit_deltas :: "sink \<Rightarrow> string \<Rightarrow> cpu_times \<Rightarrow> cpu_times \<Rightarrow> sink" where
  "emit_deltas s label prev current = emit_gauges_dyn [(''core'', label)] (cpu_gauges label prev current) s"

type_synonym cpu_prev_map = "(string, cpu_times) hash_map"

fun cpu_line :: "string \<Rightarrow> sink \<times> cpu_prev_map \<times> nat \<times> bool \<Rightarrow> sink \<times> cpu_prev_map \<times> nat \<times> bool" where
  "cpu_line line (s, prev, cores, had_baseline) =
     (case split_whitespace line of
        [] \<Rightarrow> (s, prev, cores, had_baseline)
      | cpu_name # parts \<Rightarrow>
          (case cpu_label cpu_name of
             None \<Rightarrow> (s, prev, cores, had_baseline)
           | Some label \<Rightarrow>
               (let cores' = (if label \<noteq> ''total'' then cores + 1 else cores);
                    current = parse_cpu_line parts;
                    prev' = AList.update cpu_name current prev
                in case map_of prev cpu_name of
                     Some prev_val \<Rightarrow> (emit_deltas s label prev_val current, prev', cores', True)
                   | None \<Rightarrow> (s, prev', cores', had_baseline))))"

definition cpu_collect :: "procfs \<Rightarrow> sink \<Rightarrow> cpu_prev_map \<Rightarrow> sink \<times> cpu_prev_map" where
  "cpu_collect fs s prev =
     (case read_procfs fs ''/proc/stat'' of
        None \<Rightarrow> (s, prev)
      | Some buf \<Rightarrow>
          (case fold cpu_line (str_lines buf) (s, prev, 0, False) of
             (s', prev', cores, had_baseline) \<Rightarrow>
               (if had_baseline \<and> 0 < cores then gauge s' ''system.cpu.count'' (f_nat cores) [] else s', prev')))"

section \<open>Memory\<close>

definition parse_kb :: "string \<Rightarrow> f64 option" where
  "parse_kb s = map_option (\<lambda>x. f_mul x (Fin 1024)) (next_f64 (split_whitespace s))"

record mem_info =
  mi_total :: "f64 option"
  mi_available :: "f64 option"
  mi_cached :: "f64 option"
  mi_swap_total :: "f64 option"
  mi_swap_free :: "f64 option"

definition mem_line :: "string \<Rightarrow> mem_info \<Rightarrow> mem_info" where
  "mem_line line m =
     (case split_once (CHR '':'') line of
        None \<Rightarrow> m
      | Some (key, rest) \<Rightarrow>
          (let kb = parse_kb rest in
           if key = ''MemTotal'' then m\<lparr>mi_total := kb\<rparr>
           else if key = ''MemAvailable'' then m\<lparr>mi_available := kb\<rparr>
           else if key = ''Cached'' then m\<lparr>mi_cached := kb\<rparr>
           else if key = ''SwapTotal'' then m\<lparr>mi_swap_total := kb\<rparr>
           else if key = ''SwapFree'' then m\<lparr>mi_swap_free := kb\<rparr>
           else m))"

definition opt_gauge :: "string \<Rightarrow> f64 option \<Rightarrow> sink \<Rightarrow> sink" where
  "opt_gauge name v s = (case v of Some x \<Rightarrow> gauge s name x [] | None \<Rightarrow> s)"

definition mem_emit :: "mem_info \<Rightarrow> sink \<Rightarrow> sink" where
  "mem_emit m s =
     (let s1 = opt_gauge ''system.memory.total'' (mi_total m) s;
          s2 = opt_gauge ''system.memory.available'' (mi_available m) s1;
          s3 = (case (mi_total m, mi_available m) of
                  (Some tot, Some avail) \<Rightarrow>
                    opt_gauge ''system.memory.used_percent'' (memory_used_percent tot avail)
                      (gauge s2 ''system.memory.used'' (f_sub tot avail) [])
                | _ \<Rightarrow> s2);
          s4 = opt_gauge ''system.memory.cached'' (mi_cached m) s3
      in case (mi_swap_total m, mi_swap_free m) of
           (Some st, Some sf) \<Rightarrow>
             opt_gauge ''system.memory.swap_used_percent'' (swap_used_percent st (f_sub st sf))
               (gauge s4 ''system.memory.swap_used'' (f_sub st sf) [])
         | _ \<Rightarrow> s4)"

definition mem_collect :: "procfs \<Rightarrow> sink \<Rightarrow> sink" where
  "mem_collect fs s =
     (case read_procfs fs ''/proc/meminfo'' of
        None \<Rightarrow> s
      | Some buf \<Rightarrow>
          mem_emit (fold mem_line (str_lines buf)
            \<lparr>mi_total = None, mi_available = None, mi_cached = None, mi_swap_total = None, mi_swap_free = None\<rparr>) s)"

section \<open>Load\<close>

definition online_cpus :: "procfs \<Rightarrow> nat option" where
  "online_cpus fs = Option.bind (read_procfs fs ''/sys/devices/system/cpu/online'') count_cpu_list"

definition load_collect :: "procfs \<Rightarrow> sink \<Rightarrow> sink" where
  "load_collect fs s =
     (case read_procfs fs ''/proc/loadavg'' of
        None \<Rightarrow> s
      | Some buf \<Rightarrow>
          (let parts = split_whitespace buf;
               load1 = next_f64 parts;
               s1 = opt_gauge ''system.load.1'' load1 s;
               s2 = opt_gauge ''system.load.5'' (next_f64 (drop 1 parts)) s1;
               s3 = opt_gauge ''system.load.15'' (next_f64 (drop 2 parts)) s2
           in case load1 of
                None \<Rightarrow> s3
              | Some l \<Rightarrow>
                  opt_gauge ''system.load.1_per_cpu'' (Option.bind (online_cpus fs) (\<lambda>n. load_per_cpu l n)) s3))"

section \<open>TCP states\<close>

definition STATE_NAMES :: "(nat \<times> string) list" where
  "STATE_NAMES =
     [(1, ''established''), (2, ''syn_sent''), (3, ''syn_recv''), (4, ''fin_wait1''), (5, ''fin_wait2''),
      (6, ''time_wait''), (7, ''close''), (8, ''close_wait''), (9, ''last_ack''), (10, ''listen''), (11, ''closing'')]"

definition tcp_state_of :: "string \<Rightarrow> nat option" where
  "tcp_state_of line =
     (case split_whitespace line of
        _ # _ # _ # st # _ \<Rightarrow> parse_uint 16 (2 ^ 8) st
      | _ \<Rightarrow> None)"

definition count_line :: "string \<Rightarrow> 32 word list \<Rightarrow> 32 word list" where
  "count_line line counts =
     (case tcp_state_of line of
        None \<Rightarrow> counts
      | Some state \<Rightarrow> if state < length counts then counts[state := counts ! state + 1] else counts)"

definition count_states :: "string \<Rightarrow> 32 word list \<Rightarrow> 32 word list" where
  "count_states buf counts = fold count_line (drop 1 (str_lines buf)) counts"

definition tcp_emit :: "32 word list \<Rightarrow> sink \<Rightarrow> sink" where
  "tcp_emit counts s =
     fold (\<lambda>(hex, name) s. if 0 < counts ! hex
             then gauge s ''system.tcp.connections'' (f_nat (unat (counts ! hex))) [(''state'', name)] else s)
       STATE_NAMES s"

definition tcp_collect :: "procfs \<Rightarrow> sink \<Rightarrow> sink" where
  "tcp_collect fs s =
     (let c0 = replicate 12 0;
          c1 = (case read_procfs fs ''/proc/net/tcp'' of Some buf \<Rightarrow> count_states buf c0 | None \<Rightarrow> c0);
          c2 = (case read_procfs fs ''/proc/net/tcp6'' of Some buf \<Rightarrow> count_states buf c1 | None \<Rightarrow> c1)
      in tcp_emit c2 s)"

end
