(* ===== verification/Metrics_Disk.thy ===== *)
theory Metrics_Disk
  imports Metrics Config
begin

text \<open>
  \<open>src/metrics/disk_space.rs\<close> and \<open>src/metrics/linux/disk.rs\<close>: filesystem space with the bounded
  reader (one thread per mount at most), I/O counters and the mounts that are reported.
\<close>

section \<open>Space\<close>

record space_stats =
  sp_total :: f64
  sp_free :: f64
  sp_avail :: f64
  sp_inodes_total :: f64
  sp_inodes_free :: f64

text \<open>\<open>SpaceStats::read\<close> on the fields \<open>statvfs\<close> returns: fragment size, blocks, files.\<close>

record statvfs_fields =
  sv_frsize :: nat
  sv_blocks :: nat
  sv_bfree :: nat
  sv_bavail :: nat
  sv_files :: nat
  sv_ffree :: nat

definition space_read :: "statvfs_fields option \<Rightarrow> space_stats option" where
  "space_read st =
     (case st of
        None \<Rightarrow> None
      | Some v \<Rightarrow>
          (let bs = f_nat (sv_frsize v);
               s = \<lparr>sp_total = f_mul (f_nat (sv_blocks v)) bs, sp_free = f_mul (f_nat (sv_bfree v)) bs,
                    sp_avail = f_mul (f_nat (sv_bavail v)) bs, sp_inodes_total = f_nat (sv_files v),
                    sp_inodes_free = f_nat (sv_ffree v)\<rparr>
           in if f_less (Fin 0) (sp_total s) then Some s else None))"

definition space_used :: "space_stats \<Rightarrow> f64" where
  "space_used s = f_max (f_sub (sp_total s) (sp_free s)) (Fin 0)"

definition space_used_percent :: "space_stats \<Rightarrow> f64 option" where
  "space_used_percent s =
     (let used = space_used s; denom = f_add used (sp_avail s) in
      if f_less (Fin 0) denom
      then Some (f_clamp (f_mul (f_div used denom) (Fin 100)) (Fin 0) (Fin 100)) else None)"

definition inodes_used :: "space_stats \<Rightarrow> f64" where
  "inodes_used s = f_max (f_sub (sp_inodes_total s) (sp_inodes_free s)) (Fin 0)"

definition inodes_used_percent :: "space_stats \<Rightarrow> f64 option" where
  "inodes_used_percent s =
     (if f_less (Fin 0) (sp_inodes_total s)
      then Some (f_clamp (f_mul (f_div (inodes_used s) (sp_inodes_total s)) (Fin 100)) (Fin 0) (Fin 100)) else None)"

definition opt_metric :: "string \<Rightarrow> f64 option \<Rightarrow> (string \<times> f64) list" where
  "opt_metric name v = (case v of Some x \<Rightarrow> [(name, x)] | None \<Rightarrow> [])"

definition space_emit :: "space_stats \<Rightarrow> labels \<Rightarrow> sink \<Rightarrow> sink" where
  "space_emit st ls s =
     emit_gauges_dyn ls
       ([(''system.disk.total_bytes'', sp_total st), (''system.disk.used_bytes'', space_used st),
         (''system.disk.free_bytes'', sp_free st), (''system.disk.available_bytes'', sp_avail st)]
        @ opt_metric ''system.disk.used_percent'' (space_used_percent st)
        @ (if f_less (Fin 0) (sp_inodes_total st)
           then [(''system.disk.inodes_total'', sp_inodes_total st), (''system.disk.inodes_used'', inodes_used st),
                 (''system.disk.inodes_free'', sp_inodes_free st)]
                @ opt_metric ''system.disk.inodes_used_percent'' (inodes_used_percent st)
           else [])) s"

section \<open>The bounded reader\<close>

record mount_state =
  ms_in_flight :: bool
  ms_warned :: bool

text \<open>
  What a read meets: the thread answers in time, it is still running at the timeout, or it
  could not be started or panicked, in which case its guard clears the flag. A thread that
  answers has cleared the flag or is about to: \<open>ms_in_flight\<close> may be seen set for a moment, so
  the answer carries whether the thread has ended.
\<close>

datatype read_answer = Answer "space_stats option" bool | Read_Timeout | Read_Disconnected

type_synonym mounts = "(string, mount_state) hash_map"

definition mount_entry :: "mounts \<Rightarrow> string \<Rightarrow> mount_state" where
  "mount_entry ms p = (case map_of ms p of Some st \<Rightarrow> st | None \<Rightarrow> \<lparr>ms_in_flight = False, ms_warned = False\<rparr>)"

definition space_reader_read :: "read_answer \<Rightarrow> string \<Rightarrow> mounts \<Rightarrow> space_stats option \<times> mounts" where
  "space_reader_read ans p ms =
     (let st = mount_entry ms p in
      if ms_in_flight st then (None, ms)
      else (case ans of
              Read_Timeout \<Rightarrow> (None, AList.update p \<lparr>ms_in_flight = True, ms_warned = True\<rparr> ms)
            | Read_Disconnected \<Rightarrow> (None, AList.update p (st\<lparr>ms_in_flight := False\<rparr>) ms)
            | Answer stats ended \<Rightarrow> (stats, AList.update p \<lparr>ms_in_flight = \<not> ended, ms_warned = False\<rparr> ms)))"

definition retain_mounts :: "string list \<Rightarrow> mounts \<Rightarrow> mounts" where
  "retain_mounts current ms = filter (\<lambda>(p, st). p \<in> set current \<or> ms_in_flight st) ms"

text \<open>The guard of a thread that ends.\<close>

definition thread_ends :: "string \<Rightarrow> mounts \<Rightarrow> mounts" where
  "thread_ends p ms = (case map_of ms p of Some st \<Rightarrow> AList.update p (st\<lparr>ms_in_flight := False\<rparr>) ms | None \<Rightarrow> ms)"

definition fs_type_allowed :: "string \<Rightarrow> string list \<Rightarrow> string list \<Rightarrow> bool" where
  "fs_type_allowed fs_type configured defaults \<longleftrightarrow>
     (if configured = [] then fs_type \<in> set defaults else fs_type \<in> set configured)"

section \<open>I/O counters\<close>

definition SECTOR_SIZE :: f64 where "SECTOR_SIZE = Fin 512"

definition DEFAULT_FS_TYPES :: "string list" where
  "DEFAULT_FS_TYPES =
     [''ext4'', ''ext3'', ''ext2'', ''xfs'', ''btrfs'', ''zfs'', ''vfat'', ''exfat'', ''ntfs'', ''ntfs3'', ''f2fs'']"

record disk_stats =
  ds_reads_completed :: u64
  ds_sectors_read :: u64
  ds_writes_completed :: u64
  ds_sectors_written :: u64

type_synonym disk_prev = "(string, disk_stats) hash_map"

definition emit_counters_dyn :: "labels \<Rightarrow> (string \<times> f64) list \<Rightarrow> sink \<Rightarrow> sink" where
  "emit_counters_dyn ls cs s = fold (\<lambda>(name, v) s. counter_dyn s name v ls) cs s"

definition parse_or_zero :: "string \<Rightarrow> u64" where
  "parse_or_zero w = (case parse_u64 w of Some v \<Rightarrow> of_nat v | None \<Rightarrow> 0)"

text \<open>One line: the name and, if there are eleven tokens after it, the four counters.\<close>

definition parse_diskstats_line :: "string \<Rightarrow> (string \<times> disk_stats option) option" where
  "parse_diskstats_line line =
     (case drop 2 (split_whitespace line) of
        [] \<Rightarrow> None
      | name # rest \<Rightarrow>
          Some (name,
            (let toks = take 11 rest in
             if length toks < 11 then None
             else Some \<lparr>ds_reads_completed = parse_or_zero (toks ! 0), ds_sectors_read = parse_or_zero (toks ! 2),
                        ds_writes_completed = parse_or_zero (toks ! 4), ds_sectors_written = parse_or_zero (toks ! 6)\<rparr>)))"

definition disk_deltas :: "disk_stats \<Rightarrow> disk_stats \<Rightarrow> (string \<times> f64) list" where
  "disk_deltas p current =
     (let dr = f_mul (f_u64 (sat_sub (ds_sectors_read current) (ds_sectors_read p))) SECTOR_SIZE;
          dw = f_mul (f_u64 (sat_sub (ds_sectors_written current) (ds_sectors_written p))) SECTOR_SIZE;
          dro = f_u64 (sat_sub (ds_reads_completed current) (ds_reads_completed p));
          dwo = f_u64 (sat_sub (ds_writes_completed current) (ds_writes_completed p))
      in if f_less (Fin 0) dr \<or> f_less (Fin 0) dw \<or> f_less (Fin 0) dro \<or> f_less (Fin 0) dwo
         then [(''system.disk.read_bytes'', dr), (''system.disk.write_bytes'', dw),
               (''system.disk.read_ops'', dro), (''system.disk.write_ops'', dwo)]
         else [])"

definition diskstats_line :: "deps \<Rightarrow> device_filter \<Rightarrow> string \<Rightarrow> sink \<times> disk_prev \<Rightarrow> sink \<times> disk_prev" where
  "diskstats_line d flt line st =
     (case st of (s, prev) \<Rightarrow>
      case parse_diskstats_line line of
        None \<Rightarrow> (s, prev)
      | Some (name, stats) \<Rightarrow>
          if \<not> device_allows d flt name then (s, prev)
          else (case stats of
                  None \<Rightarrow> (s, prev)
                | Some current \<Rightarrow>
                    ((case map_of prev name of
                        Some p \<Rightarrow> emit_counters_dyn [(''device'', name)] (disk_deltas p current) s
                      | None \<Rightarrow> s),
                     AList.update name current prev)))"

definition collect_diskstats :: "deps \<Rightarrow> device_filter \<Rightarrow> string \<Rightarrow> sink \<times> disk_prev \<Rightarrow> sink \<times> disk_prev" where
  "collect_diskstats d flt buf st = fold (diskstats_line d flt) (str_lines buf) st"

text \<open>\<open>checkpoint\<close>: the cumulative values, device by device.\<close>

definition emit_cumulative :: "labels \<Rightarrow> (string \<times> f64) list \<Rightarrow> sink \<Rightarrow> sink" where
  "emit_cumulative ls cs s = fold (\<lambda>(name, v) s. counter_dyn_with_temporality s name v ls Cumulative) cs s"

definition disk_checkpoint :: "disk_prev \<Rightarrow> sink \<Rightarrow> sink" where
  "disk_checkpoint prev s =
     fold (\<lambda>(device, st) s. emit_cumulative [(''device'', device)]
       [(''system.disk.read_bytes'', f_mul (f_u64 (ds_sectors_read st)) SECTOR_SIZE),
        (''system.disk.write_bytes'', f_mul (f_u64 (ds_sectors_written st)) SECTOR_SIZE),
        (''system.disk.read_ops'', f_u64 (ds_reads_completed st)),
        (''system.disk.write_ops'', f_u64 (ds_writes_completed st))] s) prev s"

section \<open>Mounts\<close>

record mount_info =
  mo_device :: string
  mo_mount_point :: string

definition is_octal :: "char \<Rightarrow> bool" where
  "is_octal c \<longleftrightarrow> 48 \<le> code c \<and> code c \<le> 55"

fun unescape_bytes :: "string \<Rightarrow> string" where
  "unescape_bytes (b # c1 # c2 # c3 # r) =
     (if b = BSL \<and> 48 \<le> code c1 \<and> code c1 \<le> 51 \<and> is_octal c2 \<and> is_octal c3
      then char_of ((code c1 - 48) * 64 + (code c2 - 48) * 8 + (code c3 - 48)) # unescape_bytes r
      else b # unescape_bytes (c1 # c2 # c3 # r))"
| "unescape_bytes (b # r) = b # unescape_bytes r"
| "unescape_bytes [] = []"

definition unescape_mount_field :: "string \<Rightarrow> string" where
  "unescape_mount_field field = (if BSL \<notin> set field then field else from_utf8_lossy (unescape_bytes field))"

definition parse_mount_line :: "string list \<Rightarrow> string \<Rightarrow> mount_info option" where
  "parse_mount_line fs_types line =
     (case split_whitespace line of
        device # mount_point # fs # _ \<Rightarrow>
          if fs_type_allowed fs fs_types DEFAULT_FS_TYPES
          then Some \<lparr>mo_device = unescape_mount_field device, mo_mount_point = unescape_mount_field mount_point\<rparr>
          else None
      | _ \<Rightarrow> None)"

text \<open>\<open>retain(|m| seen.insert(..))\<close>: the first entry of each device.\<close>

fun retain_first :: "string set \<Rightarrow> mount_info list \<Rightarrow> mount_info list" where
  "retain_first seen [] = []"
| "retain_first seen (m # ms) =
     (if mo_device m \<in> seen then retain_first seen ms
      else m # retain_first (insert (mo_device m) seen) ms)"

definition parse_mounts :: "string \<Rightarrow> string list \<Rightarrow> mount_info list" where
  "parse_mounts buf fs_types =
     retain_first {} (sort_key (\<lambda>m. length (mo_mount_point m)) (List.map_filter (parse_mount_line fs_types) (str_lines buf)))"

section \<open>The collector\<close>

record disk_collector =
  dc_prev :: disk_prev
  dc_mounts :: "mount_info list"
  dc_filter :: device_filter
  dc_fs_types :: "string list"
  dc_tick :: "32 word"
  dc_space :: mounts

definition disk_collector_new :: "device_filter \<Rightarrow> string list \<Rightarrow> disk_collector" where
  "disk_collector_new flt fs_types =
     \<lparr>dc_prev = [], dc_mounts = [], dc_filter = flt, dc_fs_types = fs_types, dc_tick = 0, dc_space = []\<rparr>"

text \<open>\<open>answers\<close> is what the thread for a mount does in this tick.\<close>

definition disk_space_one :: "(string \<Rightarrow> read_answer) \<Rightarrow> mount_info \<Rightarrow> sink \<times> mounts \<Rightarrow> sink \<times> mounts" where
  "disk_space_one answers m st =
     (case st of (s, sp) \<Rightarrow>
      case space_reader_read (answers (mo_mount_point m)) (mo_mount_point m) sp of
        (None, sp') \<Rightarrow> (s, sp')
      | (Some stats, sp') \<Rightarrow>
          (space_emit stats [(''mount'', mo_mount_point m), (''device'', mo_device m)] s, sp'))"

definition collect_disk_space :: "(string \<Rightarrow> read_answer) \<Rightarrow> mount_info list \<Rightarrow> sink \<times> mounts \<Rightarrow> sink \<times> mounts" where
  "collect_disk_space answers ms st = fold (disk_space_one answers) ms st"

definition disk_collect ::
    "deps \<Rightarrow> procfs \<Rightarrow> (string \<Rightarrow> read_answer) \<Rightarrow> sink \<times> disk_collector \<Rightarrow> sink \<times> disk_collector" where
  "disk_collect d fs answers st =
     (case st of (s, c) \<Rightarrow>
      let (s1, prev) = (case read_procfs fs ''/proc/diskstats'' of
                          Some buf \<Rightarrow> collect_diskstats d (dc_filter c) buf (s, dc_prev c)
                        | None \<Rightarrow> (s, dc_prev c));
          (ms, sp) = (if dc_tick c mod 30 = 0
                      then (case read_procfs fs ''/proc/mounts'' of
                              Some buf \<Rightarrow> (let ms = parse_mounts buf (dc_fs_types c)
                                           in (ms, retain_mounts (map mo_mount_point ms) (dc_space c)))
                            | None \<Rightarrow> (dc_mounts c, dc_space c))
                      else (dc_mounts c, dc_space c));
          (s2, sp2) = collect_disk_space answers ms (s1, sp)
      in (s2, c\<lparr>dc_prev := prev, dc_mounts := ms, dc_tick := dc_tick c + 1, dc_space := sp2\<rparr>))"

end
