(* ===== verification/Metrics_Net.thy ===== *)
theory Metrics_Net
  imports Metrics_Disk
begin

text \<open>
  \<open>src/metrics/linux/network.rs\<close>, \<open>cgroups.rs\<close>, \<open>container.rs\<close> and \<open>process.rs\<close>. A directory listing is a
  function from a path to its readable entries; an indexing panic is an absent value of the
  outer option, and \<open>u64\<close> products wrap.
\<close>

section \<open>Network\<close>

record net_stats =
  ns_rx_bytes :: u64
  ns_rx_packets :: u64
  ns_rx_errors :: u64
  ns_rx_drops :: u64
  ns_tx_bytes :: u64
  ns_tx_packets :: u64
  ns_tx_errors :: u64
  ns_tx_drops :: u64

type_synonym net_prev = "(string, net_stats) hash_map"

text \<open>The first twelve fields that are numbers.\<close>

definition parse_net_stats :: "string \<Rightarrow> net_stats option" where
  "parse_net_stats stats =
     (let vals = take 12 (List.map_filter parse_u64 (split_whitespace stats)) in
      if length vals < 12 then None
      else Some \<lparr>ns_rx_bytes = of_nat (vals ! 0), ns_rx_packets = of_nat (vals ! 1), ns_rx_errors = of_nat (vals ! 2),
                 ns_rx_drops = of_nat (vals ! 3), ns_tx_bytes = of_nat (vals ! 8), ns_tx_packets = of_nat (vals ! 9),
                 ns_tx_errors = of_nat (vals ! 10), ns_tx_drops = of_nat (vals ! 11)\<rparr>)"

definition net_deltas :: "net_stats \<Rightarrow> net_stats \<Rightarrow> (string \<times> f64) list" where
  "net_deltas prev current =
     [(''system.net.bytes_recv'', f_u64 (sat_sub (ns_rx_bytes current) (ns_rx_bytes prev))),
      (''system.net.bytes_sent'', f_u64 (sat_sub (ns_tx_bytes current) (ns_tx_bytes prev))),
      (''system.net.packets_recv'', f_u64 (sat_sub (ns_rx_packets current) (ns_rx_packets prev))),
      (''system.net.packets_sent'', f_u64 (sat_sub (ns_tx_packets current) (ns_tx_packets prev))),
      (''system.net.errors_recv'', f_u64 (sat_sub (ns_rx_errors current) (ns_rx_errors prev))),
      (''system.net.errors_sent'', f_u64 (sat_sub (ns_tx_errors current) (ns_tx_errors prev))),
      (''system.net.drops_recv'', f_u64 (sat_sub (ns_rx_drops current) (ns_rx_drops prev))),
      (''system.net.drops_sent'', f_u64 (sat_sub (ns_tx_drops current) (ns_tx_drops prev)))]"

definition net_line :: "deps \<Rightarrow> device_filter \<Rightarrow> string \<Rightarrow> sink \<times> net_prev \<Rightarrow> sink \<times> net_prev" where
  "net_line d flt line st =
     (case st of (s, prev) \<Rightarrow>
      case split_once (CHR '':'') line of
        None \<Rightarrow> (s, prev)
      | Some (name, stats) \<Rightarrow>
          (let iface = trim name in
           if \<not> device_allows d flt iface then (s, prev)
           else (case parse_net_stats stats of
                   None \<Rightarrow> (s, prev)
                 | Some current \<Rightarrow>
                     ((case map_of prev iface of
                         Some p \<Rightarrow> emit_counters_dyn [(''interface'', iface)] (net_deltas p current) s
                       | None \<Rightarrow> s),
                      AList.update iface current prev))))"

definition net_collect :: "deps \<Rightarrow> device_filter \<Rightarrow> procfs \<Rightarrow> sink \<times> net_prev \<Rightarrow> sink \<times> net_prev" where
  "net_collect d flt fs st =
     (case read_procfs fs ''/proc/net/dev'' of
        None \<Rightarrow> st
      | Some buf \<Rightarrow> fold (net_line d flt) (str_lines buf) st)"

definition net_checkpoint :: "net_prev \<Rightarrow> sink \<Rightarrow> sink" where
  "net_checkpoint prev s =
     fold (\<lambda>(iface, st) s. emit_cumulative [(''interface'', iface)]
       [(''system.net.bytes_recv'', f_u64 (ns_rx_bytes st)), (''system.net.bytes_sent'', f_u64 (ns_tx_bytes st)),
        (''system.net.packets_recv'', f_u64 (ns_rx_packets st)), (''system.net.packets_sent'', f_u64 (ns_tx_packets st))] s)
     prev s"

section \<open>Key-value statistics\<close>

text \<open>The lines with a key and a value that parses, in order.\<close>

definition stat_pairs :: "(string \<Rightarrow> 'a option) \<Rightarrow> string \<Rightarrow> (string \<times> 'a) list" where
  "stat_pairs parse buf =
     List.map_filter (\<lambda>line. case split_whitespace line of
         key # v # _ \<Rightarrow> map_option (Pair key) (parse v)
       | _ \<Rightarrow> None) (str_lines buf)"

text \<open>The value of a key, if any line sets it: the last one wins.\<close>

definition stat_value :: "(string \<times> 'a) list \<Rightarrow> string \<Rightarrow> 'a option" where
  "stat_value kvs key = map_of (rev kvs) key"

section \<open>Cgroups\<close>

record cpu_stats =
  cs_usage_usec :: u64
  cs_user_usec :: u64
  cs_system_usec :: u64
  cs_throttled_usec :: u64
  cs_nr_throttled :: u64

definition stat_or_zero :: "(string \<times> nat) list \<Rightarrow> string \<Rightarrow> u64" where
  "stat_or_zero kvs key = (case stat_value kvs key of Some v \<Rightarrow> of_nat v | None \<Rightarrow> 0)"

definition parse_cpu_stat :: "string \<Rightarrow> cpu_stats" where
  "parse_cpu_stat buf =
     (let kvs = stat_pairs parse_u64 buf in
      \<lparr>cs_usage_usec = stat_or_zero kvs ''usage_usec'', cs_user_usec = stat_or_zero kvs ''user_usec'',
       cs_system_usec = stat_or_zero kvs ''system_usec'', cs_throttled_usec = stat_or_zero kvs ''throttled_usec'',
       cs_nr_throttled = stat_or_zero kvs ''nr_throttled''\<rparr>)"

definition counters :: "(string \<times> f64) list \<Rightarrow> sink \<Rightarrow> sink" where
  "counters cs s = fold (\<lambda>(name, v) s. counter s name v []) cs s"

definition cgroup_deltas :: "cpu_stats \<Rightarrow> cpu_stats \<Rightarrow> (string \<times> f64) list" where
  "cgroup_deltas prev current =
     [(''system.cgroup.cpu.usage_usec'', f_u64 (sat_sub (cs_usage_usec current) (cs_usage_usec prev))),
      (''system.cgroup.cpu.user_usec'', f_u64 (sat_sub (cs_user_usec current) (cs_user_usec prev))),
      (''system.cgroup.cpu.system_usec'', f_u64 (sat_sub (cs_system_usec current) (cs_system_usec prev))),
      (''system.cgroup.cpu.throttled_usec'', f_u64 (sat_sub (cs_throttled_usec current) (cs_throttled_usec prev))),
      (''system.cgroup.cpu.nr_throttled'', f_u64 (sat_sub (cs_nr_throttled current) (cs_nr_throttled prev)))]"

text \<open>\<open>memory.max\<close> holds a number or the word \<open>max\<close>.\<close>

definition memory_limit :: "string \<Rightarrow> f64 option" where
  "memory_limit buf = (let t = trim buf in if t = ''max'' then None else parse_f64 t)"

text \<open>The lines of \<open>memory.stat\<close> whose key is reported, each as a gauge, in order.\<close>

definition memory_gauges :: "(string \<times> string) list \<Rightarrow> string \<Rightarrow> (string \<times> f64) list" where
  "memory_gauges names buf =
     List.map_filter (\<lambda>(key, v). map_option (\<lambda>n. (n, v)) (map_of names key)) (stat_pairs parse_f64 buf)"

definition cgroup_memory_names :: "(string \<times> string) list" where
  "cgroup_memory_names =
     [(''anon'', ''system.cgroup.memory.anon''), (''file'', ''system.cgroup.memory.file''), (''kernel'', ''system.cgroup.memory.kernel'')]"

record cgroup_collector =
  cg_path :: "string option"
  cg_prev :: "cpu_stats option"

definition opt_gauge_of :: "string \<Rightarrow> string option \<Rightarrow> (string \<Rightarrow> f64 option) \<Rightarrow> sink \<Rightarrow> sink" where
  "opt_gauge_of name buf parse s = (case buf of Some b \<Rightarrow> opt_gauge name (parse b) s | None \<Rightarrow> s)"

definition cgroup_collect :: "procfs \<Rightarrow> sink \<times> cgroup_collector \<Rightarrow> sink \<times> cgroup_collector" where
  "cgroup_collect fs st =
     (case st of (s, c) \<Rightarrow>
      case cg_path c of
        None \<Rightarrow> (s, c)
      | Some base \<Rightarrow>
          (let (s1, c1) = (case read_procfs fs (base @ ''/cpu.stat'') of
                 None \<Rightarrow> (s, c)
               | Some buf \<Rightarrow>
                   (let current = parse_cpu_stat buf in
                    (case cg_prev c of Some prev \<Rightarrow> counters (cgroup_deltas prev current) s | None \<Rightarrow> s,
                     c\<lparr>cg_prev := Some current\<rparr>)));
               s2 = opt_gauge_of ''system.cgroup.memory.usage'' (read_procfs fs (base @ ''/memory.current'')) (\<lambda>b. parse_f64 (trim b)) s1;
               s3 = opt_gauge_of ''system.cgroup.memory.limit'' (read_procfs fs (base @ ''/memory.max'')) memory_limit s2;
               s4 = (case read_procfs fs (base @ ''/memory.stat'') of
                       Some buf \<Rightarrow> fold (\<lambda>(n, v) s. gauge s n v []) (memory_gauges cgroup_memory_names buf) s3
                     | None \<Rightarrow> s3)
           in (s4, c1)))"

text \<open>\<open>detect_cgroup_path\<close>; \<open>available\<close> says whether the unified hierarchy is mounted.\<close>

fun first_cgroup :: "string list \<Rightarrow> string option" where
  "first_cgroup [] = None"
| "first_cgroup (l # ls) =
     (case strip_prefix ''0::'' l of
        Some p \<Rightarrow> Some (if trim p = ''/'' then ''/sys/fs/cgroup'' else ''/sys/fs/cgroup'' @ trim p)
      | None \<Rightarrow> first_cgroup ls)"

definition detect_cgroup_path :: "bool \<Rightarrow> procfs \<Rightarrow> string option" where
  "detect_cgroup_path available fs =
     (if \<not> available then None
      else Option.bind (read_procfs fs ''/proc/self/cgroup'') (\<lambda>c. first_cgroup (str_lines c)))"

section \<open>Containers\<close>

record container_info =
  co_short_id :: string
  co_runtime :: string
  co_cgroup_path :: path

definition parse_scope_entry :: "string \<Rightarrow> string \<Rightarrow> string \<Rightarrow> path \<Rightarrow> container_info option" where
  "parse_scope_entry name prefix_str runtime p =
     Option.bind (strip_prefix prefix_str name) (\<lambda>r. Option.bind (strip_suffix ''.scope'' r) (\<lambda>i.
       if length i = 64 \<and> list_all is_ascii_hexdigit i
       then Some \<lparr>co_short_id = take 12 i, co_runtime = runtime, co_cgroup_path = p\<rparr> else None))"

text \<open>An entry of a directory: its name, its path and whether it is a directory.\<close>

type_synonym listing = "path \<Rightarrow> (string \<times> path \<times> bool) list option"

definition scan_scope_dir :: "listing \<Rightarrow> path \<Rightarrow> string \<Rightarrow> string \<Rightarrow> container_info list" where
  "scan_scope_dir ls dir prefix_str runtime =
     (case ls dir of
        None \<Rightarrow> []
      | Some es \<Rightarrow> List.map_filter (\<lambda>(name, p, _). parse_scope_entry (from_utf8_lossy name) prefix_str runtime p) es)"

definition scan_container_scopes_in_dir :: "listing \<Rightarrow> path \<Rightarrow> container_info list" where
  "scan_container_scopes_in_dir ls dir =
     (case ls dir of
        None \<Rightarrow> []
      | Some es \<Rightarrow> List.map_filter (\<lambda>(name, p, _).
          case parse_scope_entry (from_utf8_lossy name) ''cri-containerd-'' ''containerd'' p of
            Some i \<Rightarrow> Some i
          | None \<Rightarrow> parse_scope_entry (from_utf8_lossy name) ''crio-'' ''crio'' p) es)"

definition is_pod_slice :: "string \<Rightarrow> bool" where
  "is_pod_slice name \<longleftrightarrow> find_sub ''-pod'' name \<noteq> None \<and> suffix ''.slice'' name"

definition scan_qos_slice :: "listing \<Rightarrow> path \<Rightarrow> container_info list" where
  "scan_qos_slice ls dir =
     (case ls dir of
        None \<Rightarrow> []
      | Some es \<Rightarrow> concat (map (\<lambda>(name, p, is_dir).
          if is_dir \<and> is_pod_slice (from_utf8_lossy name) then scan_container_scopes_in_dir ls p else []) es))"

definition scan_kubepods :: "listing \<Rightarrow> bool \<Rightarrow> container_info list" where
  "scan_kubepods ls base_is_dir =
     (if \<not> base_is_dir then []
      else (case ls ''/sys/fs/cgroup/kubepods.slice'' of
              None \<Rightarrow> []
            | Some es \<Rightarrow> concat (map (\<lambda>(name, p, is_dir).
                if \<not> is_dir then []
                else if is_pod_slice (from_utf8_lossy name) then scan_container_scopes_in_dir ls p
                else if suffix ''.slice'' (from_utf8_lossy name) then scan_qos_slice ls p
                else []) es)))"

definition MAX_DEPTH :: nat where "MAX_DEPTH = 5"

text \<open>\<open>walk_for_libpod\<close>, by the number of levels that remain below a directory at depth \<open>MAX_DEPTH - n\<close>.\<close>

fun walk_for_libpod :: "listing \<Rightarrow> nat \<Rightarrow> path \<Rightarrow> container_info list" where
  "walk_for_libpod ls n dir =
     (case ls dir of
        None \<Rightarrow> []
      | Some es \<Rightarrow> concat (map (\<lambda>(name, p, is_dir).
          case parse_scope_entry (from_utf8_lossy name) ''libpod-'' ''podman'' p of
            Some i \<Rightarrow> [i]
          | None \<Rightarrow> (case n of 0 \<Rightarrow> [] | Suc k \<Rightarrow> if is_dir then walk_for_libpod ls k p else [])) es))"

definition scan_podman :: "listing \<Rightarrow> bool \<Rightarrow> container_info list" where
  "scan_podman ls base_is_dir =
     (if base_is_dir then walk_for_libpod ls MAX_DEPTH ''/sys/fs/cgroup/user.slice'' else [])"

definition discover_containers :: "listing \<Rightarrow> bool \<Rightarrow> bool \<Rightarrow> container_info list" where
  "discover_containers ls kube user =
     scan_scope_dir ls ''/sys/fs/cgroup/system.slice'' ''docker-'' ''docker'' @ scan_kubepods ls kube @ scan_podman ls user"

record cpu_prev =
  cp_usage_usec :: u64
  cp_user_usec :: u64
  cp_system_usec :: u64

definition parse_container_cpu :: "string \<Rightarrow> cpu_prev" where
  "parse_container_cpu buf =
     (let kvs = stat_pairs parse_u64 buf in
      \<lparr>cp_usage_usec = stat_or_zero kvs ''usage_usec'', cp_user_usec = stat_or_zero kvs ''user_usec'',
       cp_system_usec = stat_or_zero kvs ''system_usec''\<rparr>)"

definition container_deltas :: "cpu_prev \<Rightarrow> cpu_prev \<Rightarrow> (string \<times> f64) list" where
  "container_deltas prev current =
     [(''system.container.cpu.usage_usec'', f_u64 (sat_sub (cp_usage_usec current) (cp_usage_usec prev))),
      (''system.container.cpu.user_usec'', f_u64 (sat_sub (cp_user_usec current) (cp_user_usec prev))),
      (''system.container.cpu.system_usec'', f_u64 (sat_sub (cp_system_usec current) (cp_system_usec prev)))]"

type_synonym container_prev = "(string, cpu_prev) hash_map"

definition collect_cpu :: "procfs \<Rightarrow> container_info \<Rightarrow> labels \<Rightarrow> sink \<times> container_prev \<Rightarrow> sink \<times> container_prev" where
  "collect_cpu fs c ls st =
     (case st of (s, prev) \<Rightarrow>
      case read_procfs fs (from_utf8_lossy (co_cgroup_path c @ ''/cpu.stat'')) of
        None \<Rightarrow> (s, prev)
      | Some buf \<Rightarrow>
          (let current = parse_container_cpu buf in
           (case map_of prev (co_short_id c) of
              Some p \<Rightarrow> emit_counters_dyn ls (container_deltas p current) s
            | None \<Rightarrow> s,
            AList.update (co_short_id c) current prev)))"

definition container_memory_names :: "(string \<times> string) list" where
  "container_memory_names = [(''anon'', ''system.container.memory.anon''), (''file'', ''system.container.memory.file'')]"

definition collect_memory :: "procfs \<Rightarrow> container_info \<Rightarrow> labels \<Rightarrow> sink \<Rightarrow> sink" where
  "collect_memory fs c ls s =
     (let get = (\<lambda>f. read_procfs fs (from_utf8_lossy (co_cgroup_path c @ f)));
          g1 = (case get ''/memory.current'' of Some b \<Rightarrow> opt_metric ''system.container.memory.usage'' (parse_f64 (trim b)) | None \<Rightarrow> []);
          g2 = (case get ''/memory.max'' of Some b \<Rightarrow> opt_metric ''system.container.memory.limit'' (memory_limit b) | None \<Rightarrow> []);
          g3 = (case get ''/memory.stat'' of Some b \<Rightarrow> memory_gauges container_memory_names b | None \<Rightarrow> [])
      in emit_gauges_dyn ls (g1 @ g2 @ g3) s)"

definition DISCOVERY_INTERVAL_TICKS :: "32 word" where "DISCOVERY_INTERVAL_TICKS = 4"

record container_collector =
  cc_prev :: container_prev
  cc_containers :: "container_info list"
  cc_tick :: "32 word"

definition container_one :: "procfs \<Rightarrow> container_info \<Rightarrow> sink \<times> container_prev \<Rightarrow> sink \<times> container_prev" where
  "container_one fs c st =
     (let ls = [(''container_id'', co_short_id c), (''runtime'', co_runtime c)] in
      case collect_cpu fs c ls st of (s, prev) \<Rightarrow> (collect_memory fs c ls s, prev))"

definition container_collect ::
    "procfs \<Rightarrow> container_info list \<Rightarrow> sink \<times> container_collector \<Rightarrow> sink \<times> container_collector" where
  "container_collect fs discovered st =
     (case st of (s, c) \<Rightarrow>
      let cs = (if cc_tick c mod DISCOVERY_INTERVAL_TICKS = 0 then discovered else cc_containers c);
          (s1, prev) = fold (container_one fs) cs (s, cc_prev c)
      in (s1, c\<lparr>cc_containers := cs, cc_tick := cc_tick c + 1,
               cc_prev := filter (\<lambda>(i, _). i \<in> set (map co_short_id cs)) prev\<rparr>))"

section \<open>Processes\<close>

record parsed_proc =
  pp_pid :: nat
  pp_name :: string
  pp_utime :: u64
  pp_stime :: u64
  pp_rss_bytes :: u64

text \<open>\<open>parse_proc_stat\<close>; the outer option is absent when the slice after the name panics.\<close>

definition parse_proc_stat :: "string \<Rightarrow> nat \<Rightarrow> u64 \<Rightarrow> parsed_proc option option" where
  "parse_proc_stat buf pid page_size =
     (case (position ((=) (CHR ''('')) buf, rfind_char (CHR '')'') buf) of
        (Some open_at, Some close) \<Rightarrow>
          if close \<le> open_at then Some None
          else if length buf \<le> close + 2 then Some None
          else if \<not> is_char_boundary buf (close + 2) then None
          else (let fs = split_whitespace (drop (close + 2) buf) in
                if length fs < 22 then Some None
                else (case (parse_u64 (fs ! 11), parse_u64 (fs ! 12), parse_u64 (fs ! 21)) of
                        (Some u, Some st, Some rss) \<Rightarrow>
                          Some (Some \<lparr>pp_pid = pid, pp_name = take (close - Suc open_at) (drop (Suc open_at) buf),
                                      pp_utime = of_nat u, pp_stime = of_nat st, pp_rss_bytes = of_nat rss * page_size\<rparr>)
                      | _ \<Rightarrow> Some None))
      | _ \<Rightarrow> Some None)"

record proc_snapshot =
  sn_pid :: nat
  sn_name :: string
  sn_rss :: u64
  sn_cpu_delta :: u64

record process_collector =
  pr_top_n :: nat
  pr_prev :: "(nat, u64 \<times> u64) hash_map"
  pr_page_size :: u64
  pr_clk_tck :: f64
  pr_last :: "nat option"

text \<open>\<open>ProcessCollector::new\<close> with the two values of \<open>sysconf\<close>.\<close>

definition process_collector_new :: "nat \<Rightarrow> u64 \<Rightarrow> int \<Rightarrow> process_collector" where
  "process_collector_new top_n page_size clk_tck =
     \<lparr>pr_top_n = max top_n 1, pr_prev = [], pr_page_size = page_size,
      pr_clk_tck = (if 0 < clk_tck then f64_of_rat (of_int clk_tck) else Fin 100), pr_last = None\<rparr>"

text \<open>The scan of \<open>/proc\<close>: snapshots in directory order, the previous times and the pids seen.\<close>

definition scan_pid ::
    "procfs \<Rightarrow> u64 \<Rightarrow> string \<Rightarrow> (proc_snapshot list \<times> (nat, u64 \<times> u64) hash_map \<times> nat list) option \<Rightarrow>
       (proc_snapshot list \<times> (nat, u64 \<times> u64) hash_map \<times> nat list) option" where
  "scan_pid fs page_size name st =
     (case st of
        None \<Rightarrow> None
      | Some (snaps, prev, seen) \<Rightarrow>
          (case parse_u32 (from_utf8_lossy name) of
             None \<Rightarrow> st
           | Some pid \<Rightarrow>
               (case read_procfs fs (''/proc/'' @ show_nat pid @ ''/stat'') of
                  None \<Rightarrow> st
                | Some buf \<Rightarrow>
                    (case parse_proc_stat buf pid page_size of
                       None \<Rightarrow> None
                     | Some None \<Rightarrow> st
                     | Some (Some p) \<Rightarrow>
                         (let delta = (case map_of prev pid of
                                 Some (u, t) \<Rightarrow> sat_sub (pp_utime p + pp_stime p) (u + t) | None \<Rightarrow> 0)
                          in Some (snaps @ [\<lparr>sn_pid = pp_pid p, sn_name = pp_name p, sn_rss = pp_rss_bytes p, sn_cpu_delta = delta\<rparr>],
                                   AList.update pid (pp_utime p, pp_stime p) prev, pid # seen))))))"

definition scan_proc ::
    "procfs \<Rightarrow> u64 \<Rightarrow> string list \<Rightarrow> (nat, u64 \<times> u64) hash_map \<Rightarrow>
       (proc_snapshot list \<times> (nat, u64 \<times> u64) hash_map) option" where
  "scan_proc fs page_size names prev =
     map_option (\<lambda>(snaps, prev', seen). (snaps, filter (\<lambda>(pid, _). pid \<in> set seen) prev'))
       (fold (scan_pid fs page_size) names (Some ([], prev, [])))"

text \<open>
  The gauges of the \<open>n\<close> largest by a key, up to the first zero. The sort is unstable; \<open>sorted\<close> is
  any list the standard library may produce.
\<close>

definition top_gauges :: "(proc_snapshot \<Rightarrow> u64) \<Rightarrow> string \<Rightarrow> (u64 \<Rightarrow> f64) \<Rightarrow> nat \<Rightarrow> proc_snapshot list \<Rightarrow> sink \<Rightarrow> sink" where
  "top_gauges key name val n sorted_snaps s =
     fold (\<lambda>p s. gauge_dyn s name (val (key p)) [(''pid'', show_nat (sn_pid p)), (''name'', sn_name p)])
       (takeWhile (\<lambda>p. key p \<noteq> 0) (take n sorted_snaps)) s"

definition cpu_percent_of :: "f64 \<Rightarrow> f64 \<Rightarrow> u64 \<Rightarrow> f64" where
  "cpu_percent_of clk_tck elapsed delta = f_mul (f_div (f_div (f_u64 delta) clk_tck) elapsed) (Fin 100)"

text \<open>
  \<open>collect\<close>: \<open>names\<close> is the directory, \<open>now\<close> the reading of the clock that is stored and \<open>now2\<close> the one the
  elapsed time is taken from (nanoseconds), \<open>by_cpu\<close> and \<open>by_rss\<close> the two sorts. The result is
  absent when the scan panics.
\<close>

definition elapsed_secs :: "nat option \<Rightarrow> nat \<Rightarrow> f64" where
  "elapsed_secs last_collect now =
     (case last_collect of None \<Rightarrow> Fin 0
      | Some t \<Rightarrow> (let n = now - t in f_add (f_nat (n div 10 ^ 9)) (f_div (f_nat (n mod 10 ^ 9)) (Fin (10 ^ 9)))))"

definition process_collect ::
    "procfs \<Rightarrow> string list option \<Rightarrow> nat \<Rightarrow> nat \<Rightarrow> (proc_snapshot list \<Rightarrow> proc_snapshot list) \<Rightarrow>
       (proc_snapshot list \<Rightarrow> proc_snapshot list) \<Rightarrow> sink \<times> process_collector \<Rightarrow> (sink \<times> process_collector) option" where
  "process_collect fs names now now2 by_cpu by_rss st =
     (case st of (s, c) \<Rightarrow>
      case names of
        None \<Rightarrow> Some (s, c)
      | Some ns \<Rightarrow>
          (let elapsed = elapsed_secs (pr_last c) now2 in
           case scan_proc fs (pr_page_size c) ns (pr_prev c) of
             None \<Rightarrow> None
           | Some (snaps, prev) \<Rightarrow>
               (let s1 = (if f_less (Fin 0) elapsed
                          then top_gauges sn_cpu_delta ''system.process.cpu_percent'' (cpu_percent_of (pr_clk_tck c) elapsed)
                                 (pr_top_n c) (by_cpu snaps) s
                          else s);
                    s2 = top_gauges sn_rss ''system.process.memory_rss'' f_u64 (pr_top_n c) (by_rss (by_cpu snaps)) s1
                in Some (s2, c\<lparr>pr_prev := prev, pr_last := Some now\<rparr>))))"

end
