(* ===== verification/Metrics_Macos.thy ===== *)
theory Metrics_Macos
  imports Metrics_Net
begin

text \<open>
  The macOS collectors (\<open>src/metrics/macos/\<close>). What the Mach, \<open>sysctl\<close>, \<open>getifaddrs\<close> and \<open>getfsstat\<close>
  calls return is an argument, at the width of the C types; everything the collectors compute from
  it is a definition.
\<close>

section \<open>CPU\<close>

record cpu_ticks =
  tk_user :: u64
  tk_system :: u64
  tk_idle :: u64
  tk_nice :: u64

definition ticks_total :: "cpu_ticks \<Rightarrow> u64" where
  "ticks_total t = tk_user t + tk_system t + tk_idle t + tk_nice t"

text \<open>
  \<open>read_cpu_ticks\<close>: the number of processors and the array of \<open>i32\<close> values, four for each; absent when
  the call fails.
\<close>

definition CPU_STATE_MAX :: nat where "CPU_STATE_MAX = 4"

definition ticks_at :: "32 word list \<Rightarrow> nat \<Rightarrow> cpu_ticks" where
  "ticks_at info i =
     (let base = i * CPU_STATE_MAX in
      \<lparr>tk_user = ucast (info ! base), tk_system = ucast (info ! (base + 1)), tk_idle = ucast (info ! (base + 2)),
       tk_nice = ucast (info ! (base + 3))\<rparr>)"

definition read_cpu_ticks :: "(nat \<times> 32 word list) option \<Rightarrow> cpu_ticks list option" where
  "read_cpu_ticks r =
     (case r of
        None \<Rightarrow> None
      | Some (num_cpus, info) \<Rightarrow>
          (let cpus = map (ticks_at info) [0..<num_cpus] in if cpus = [] then None else Some cpus))"

definition ticks_gauges :: "string \<Rightarrow> cpu_ticks \<Rightarrow> cpu_ticks \<Rightarrow> (string \<times> f64) list" where
  "ticks_gauges label prev current =
     (let dt = sat_sub (ticks_total current) (ticks_total prev) in
      if dt = 0 then []
      else (let idle = cpu_pct dt (tk_idle current) (tk_idle prev) in
        [(''system.cpu.user'', cpu_pct dt (tk_user current + tk_nice current) (tk_user prev + tk_nice prev)),
         (''system.cpu.system'', cpu_pct dt (tk_system current) (tk_system prev)),
         (''system.cpu.idle'', idle)]
        @ (if label = ''total''
           then (case cpu_busy_percent idle of Some busy \<Rightarrow> [(''system.cpu.busy_percent'', busy)] | None \<Rightarrow> [])
           else [])))"

type_synonym ticks_map = "(string, cpu_ticks) hash_map"

definition emit_cpu :: "string \<Rightarrow> cpu_ticks \<Rightarrow> sink \<times> ticks_map \<Rightarrow> sink \<times> ticks_map" where
  "emit_cpu label current st =
     (case st of (s, prev) \<Rightarrow>
        ((case map_of prev label of
            Some p \<Rightarrow> emit_gauges_dyn [(''core'', label)] (ticks_gauges label p current) s
          | None \<Rightarrow> s),
         AList.update label current prev))"

definition add_ticks :: "cpu_ticks \<Rightarrow> cpu_ticks \<Rightarrow> cpu_ticks" where
  "add_ticks t tot =
     \<lparr>tk_user = tk_user tot + tk_user t, tk_system = tk_system tot + tk_system t, tk_idle = tk_idle tot + tk_idle t,
      tk_nice = tk_nice tot + tk_nice t\<rparr>"

definition sum_ticks :: "cpu_ticks list \<Rightarrow> cpu_ticks" where
  "sum_ticks per_cpu = fold add_ticks per_cpu \<lparr>tk_user = 0, tk_system = 0, tk_idle = 0, tk_nice = 0\<rparr>"

definition mac_cpu_collect :: "(nat \<times> 32 word list) option \<Rightarrow> sink \<times> ticks_map \<Rightarrow> sink \<times> ticks_map" where
  "mac_cpu_collect r st =
     (case read_cpu_ticks r of
        None \<Rightarrow> st
      | Some per_cpu \<Rightarrow>
          (let had_baseline = (map_of (snd st) ''total'' \<noteq> None);
               (s1, prev1) = emit_cpu ''total'' (sum_ticks per_cpu) st;
               s2 = (if had_baseline then gauge s1 ''system.cpu.count'' (f_nat (length per_cpu)) [] else s1)
           in fold (\<lambda>(i, t). emit_cpu (show_nat i) t) (enumerate 0 per_cpu) (s2, prev1)))"

section \<open>Load\<close>

text \<open>The result of \<open>getloadavg\<close> with the three averages, and that of \<open>sysconf\<close>.\<close>

definition mac_online_cpus :: "int \<Rightarrow> nat option" where
  "mac_online_cpus n = (if 0 < n then Some (nat n) else None)"

definition mac_load_collect :: "int \<Rightarrow> f64 \<times> f64 \<times> f64 \<Rightarrow> int \<Rightarrow> sink \<Rightarrow> sink" where
  "mac_load_collect ret loads nproc s =
     (case loads of (l1, l5, l15) \<Rightarrow>
      if ret < 3 then s
      else (let s1 = gauge s ''system.load.1'' l1 [];
                s2 = gauge s1 ''system.load.5'' l5 [];
                s3 = gauge s2 ''system.load.15'' l15 []
            in opt_gauge ''system.load.1_per_cpu'' (Option.bind (mac_online_cpus nproc) (load_per_cpu l1)) s3))"

section \<open>Memory\<close>

record vm_stats =
  vm_free_count :: "32 word"
  vm_inactive_count :: "32 word"
  vm_purgeable_count :: "32 word"

text \<open>
  \<open>hw.memsize\<close>, the page size, the page counts of \<open>host_statistics64\<close>, and the used and total bytes of
  \<open>vm.swapusage\<close>.
\<close>

record mem_readings =
  mr_memsize :: "u64 option"
  mr_page_size :: u64
  mr_vm :: "vm_stats option"
  mr_swap :: "(u64 \<times> u64) option"

definition pages_bytes :: "32 word \<Rightarrow> u64 \<Rightarrow> u64" where
  "pages_bytes n page_size = ucast n * page_size"

definition mac_mem_collect :: "mem_readings \<Rightarrow> sink \<Rightarrow> sink" where
  "mac_mem_collect r s =
     (case mr_vm r of
        None \<Rightarrow> s
      | Some vm \<Rightarrow>
          (let free = pages_bytes (vm_free_count vm) (mr_page_size r);
               inactive = pages_bytes (vm_inactive_count vm) (mr_page_size r);
               purgeable = pages_bytes (vm_purgeable_count vm) (mr_page_size r);
               available = free + inactive + purgeable;
               cached = inactive + purgeable;
               s1 = (case mr_memsize r of
                       None \<Rightarrow> s
                     | Some t \<Rightarrow>
                         opt_gauge ''system.memory.used_percent'' (memory_used_percent (f_u64 t) (f_u64 available))
                           (gauge (gauge s ''system.memory.total'' (f_u64 t) [])
                              ''system.memory.used'' (f_u64 (sat_sub t available)) []));
               s2 = gauge s1 ''system.memory.available'' (f_u64 available) [];
               s3 = gauge s2 ''system.memory.cached'' (f_u64 cached) []
           in case mr_swap r of
                None \<Rightarrow> s3
              | Some (used, tot) \<Rightarrow>
                  opt_gauge ''system.memory.swap_used_percent'' (swap_used_percent (f_u64 tot) (f_u64 used))
                    (gauge s3 ''system.memory.swap_used'' (f_u64 used) [])))"

section \<open>Disk\<close>

definition MAC_FS_TYPES :: "string list" where
  "MAC_FS_TYPES = [''apfs'', ''hfs'', ''msdos'', ''exfat'', ''ufs'', ''zfs'']"

record mac_disk_collector =
  md_mounts :: "mount_info list"
  md_filter :: device_filter
  md_fs_types :: "string list"
  md_tick :: "32 word"
  md_space :: mounts

definition mac_disk_collector_new :: "device_filter \<Rightarrow> string list \<Rightarrow> mac_disk_collector" where
  "mac_disk_collector_new flt fs_types =
     \<lparr>md_mounts = [], md_filter = flt, md_fs_types = fs_types, md_tick = 0, md_space = []\<rparr>"

text \<open>
  A mount as \<open>getfsstat\<close> describes it: the type, the device and the mount point, as C strings. The list is
  empty when one of the two calls fails.
\<close>

record statfs_entry =
  sf_fstypename :: string
  sf_mntfromname :: string
  sf_mntonname :: string

definition mount_of_statfs :: "deps \<Rightarrow> device_filter \<Rightarrow> string list \<Rightarrow> statfs_entry \<Rightarrow> mount_info option" where
  "mount_of_statfs d flt fs_types fs =
     (if \<not> fs_type_allowed (from_utf8_lossy (sf_fstypename fs)) fs_types MAC_FS_TYPES then None
      else (let device = from_utf8_lossy (sf_mntfromname fs); mount_point = from_utf8_lossy (sf_mntonname fs) in
            if mount_point \<noteq> ''/'' \<and> \<not> prefix ''/Volumes/'' mount_point then None
            else if \<not> device_allows d flt (last (split_char (CHR ''/'') device)) then None
            else Some \<lparr>mo_device = device, mo_mount_point = mount_point\<rparr>))"

definition discover_mounts :: "deps \<Rightarrow> device_filter \<Rightarrow> string list \<Rightarrow> statfs_entry list \<Rightarrow> mount_info list" where
  "discover_mounts d flt fs_types stats =
     sort_key (\<lambda>m. length (mo_mount_point m)) (List.map_filter (mount_of_statfs d flt fs_types) stats)"

text \<open>
  One mount: \<open>seen\<close> holds the total and free bytes that were sent. The bits of two such values, which
  are finite and not negative, are equal exactly if the values are.
\<close>

definition mac_space_one ::
    "(string \<Rightarrow> read_answer) \<Rightarrow> mount_info \<Rightarrow> sink \<times> mounts \<times> (f64 \<times> f64) set \<Rightarrow> sink \<times> mounts \<times> (f64 \<times> f64) set" where
  "mac_space_one answers m st =
     (case st of (s, sp, seen) \<Rightarrow>
      case space_reader_read (answers (mo_mount_point m)) (mo_mount_point m) sp of
        (None, sp') \<Rightarrow> (s, sp', seen)
      | (Some stats, sp') \<Rightarrow>
          if (sp_total stats, sp_free stats) \<in> seen then (s, sp', seen)
          else (space_emit stats [(''mount'', mo_mount_point m), (''device'', mo_device m)] s, sp',
                insert (sp_total stats, sp_free stats) seen))"

definition mac_collect_disk_space :: "(string \<Rightarrow> read_answer) \<Rightarrow> mount_info list \<Rightarrow> sink \<times> mounts \<Rightarrow> sink \<times> mounts" where
  "mac_collect_disk_space answers ms st =
     (case st of (s, sp) \<Rightarrow> case fold (mac_space_one answers) ms (s, sp, {}) of (s', sp', seen) \<Rightarrow> (s', sp'))"

definition mac_disk_collect ::
    "deps \<Rightarrow> statfs_entry list \<Rightarrow> (string \<Rightarrow> read_answer) \<Rightarrow> sink \<times> mac_disk_collector \<Rightarrow> sink \<times> mac_disk_collector" where
  "mac_disk_collect d stats answers st =
     (case st of (s, c) \<Rightarrow>
      let (ms, sp) = (if md_tick c mod 30 = 0
                      then (let ms = discover_mounts d (md_filter c) (md_fs_types c) stats
                            in (ms, retain_mounts (map mo_mount_point ms) (md_space c)))
                      else (md_mounts c, md_space c));
          (s', sp') = mac_collect_disk_space answers ms (s, sp)
      in (s', c\<lparr>md_mounts := ms, md_tick := md_tick c + 1, md_space := sp'\<rparr>))"

section \<open>Network\<close>

record if_data =
  ifi_ipackets :: "32 word"
  ifi_ierrors :: "32 word"
  ifi_opackets :: "32 word"
  ifi_oerrors :: "32 word"
  ifi_ibytes :: "32 word"
  ifi_obytes :: "32 word"
  ifi_iqdrops :: "32 word"

text \<open>An entry of \<open>getifaddrs\<close>: the family of its address and its data, unless these are null.\<close>

record ifaddr =
  ifa_name :: string
  ifa_family :: "nat option"
  ifa_data :: "if_data option"

definition AF_LINK :: nat where "AF_LINK = 18"

definition stats_of_if_data :: "if_data \<Rightarrow> net_stats" where
  "stats_of_if_data x =
     \<lparr>ns_rx_bytes = ucast (ifi_ibytes x), ns_rx_packets = ucast (ifi_ipackets x), ns_rx_errors = ucast (ifi_ierrors x),
      ns_rx_drops = ucast (ifi_iqdrops x), ns_tx_bytes = ucast (ifi_obytes x), ns_tx_packets = ucast (ifi_opackets x),
      ns_tx_errors = ucast (ifi_oerrors x), ns_tx_drops = 0\<rparr>"

definition if_stats_of :: "ifaddr \<Rightarrow> (string \<times> net_stats) option" where
  "if_stats_of ifa =
     (case ifa_family ifa of
        None \<Rightarrow> None
      | Some family \<Rightarrow>
          if family \<noteq> AF_LINK then None
          else (case ifa_data ifa of
                  None \<Rightarrow> None
                | Some x \<Rightarrow>
                    if ifi_ibytes x = 0 \<and> ifi_obytes x = 0 then None
                    else Some (from_utf8_lossy (ifa_name ifa), stats_of_if_data x)))"

definition read_if_stats :: "ifaddr list option \<Rightarrow> (string \<times> net_stats) list option" where
  "read_if_stats r = map_option (List.map_filter if_stats_of) r"

definition delta32 :: "u64 \<Rightarrow> u64 \<Rightarrow> u64" where
  "delta32 cur prev = (if prev \<le> cur then cur - prev else cur + 2 ^ 32 - prev)"

definition if_delta :: "net_stats \<Rightarrow> net_stats \<Rightarrow> net_stats" where
  "if_delta prev current =
     \<lparr>ns_rx_bytes = delta32 (ns_rx_bytes current) (ns_rx_bytes prev),
      ns_rx_packets = delta32 (ns_rx_packets current) (ns_rx_packets prev),
      ns_rx_errors = delta32 (ns_rx_errors current) (ns_rx_errors prev),
      ns_rx_drops = delta32 (ns_rx_drops current) (ns_rx_drops prev),
      ns_tx_bytes = delta32 (ns_tx_bytes current) (ns_tx_bytes prev),
      ns_tx_packets = delta32 (ns_tx_packets current) (ns_tx_packets prev),
      ns_tx_errors = delta32 (ns_tx_errors current) (ns_tx_errors prev),
      ns_tx_drops = delta32 (ns_tx_drops current) (ns_tx_drops prev)\<rparr>"

definition if_counters :: "net_stats \<Rightarrow> (string \<times> f64) list" where
  "if_counters delta =
     [(''system.net.bytes_recv'', f_u64 (ns_rx_bytes delta)), (''system.net.bytes_sent'', f_u64 (ns_tx_bytes delta)),
      (''system.net.packets_recv'', f_u64 (ns_rx_packets delta)), (''system.net.packets_sent'', f_u64 (ns_tx_packets delta)),
      (''system.net.errors_recv'', f_u64 (ns_rx_errors delta)), (''system.net.errors_sent'', f_u64 (ns_tx_errors delta)),
      (''system.net.drops_recv'', f_u64 (ns_rx_drops delta)), (''system.net.drops_sent'', f_u64 (ns_tx_drops delta))]"

text \<open>The totals grow by the bytes and packets only: these are what a checkpoint sends.\<close>

definition net_stats_default :: net_stats where
  "net_stats_default =
     \<lparr>ns_rx_bytes = 0, ns_rx_packets = 0, ns_rx_errors = 0, ns_rx_drops = 0, ns_tx_bytes = 0, ns_tx_packets = 0,
      ns_tx_errors = 0, ns_tx_drops = 0\<rparr>"

definition add_delta :: "net_stats \<Rightarrow> net_stats \<Rightarrow> net_stats" where
  "add_delta delta tot =
     tot\<lparr>ns_rx_bytes := ns_rx_bytes tot + ns_rx_bytes delta, ns_rx_packets := ns_rx_packets tot + ns_rx_packets delta,
         ns_tx_bytes := ns_tx_bytes tot + ns_tx_bytes delta, ns_tx_packets := ns_tx_packets tot + ns_tx_packets delta\<rparr>"

type_synonym mac_net = "sink \<times> net_prev \<times> net_prev"

definition mac_net_one :: "deps \<Rightarrow> device_filter \<Rightarrow> string \<times> net_stats \<Rightarrow> mac_net \<Rightarrow> mac_net" where
  "mac_net_one d flt x st =
     (case x of (iface, current) \<Rightarrow> case st of (s, prev, totals) \<Rightarrow>
      if \<not> device_allows d flt iface then st
      else (case map_of prev iface of
              Some p \<Rightarrow>
                (let delta = if_delta p current;
                     tot = (case map_of totals iface of Some t \<Rightarrow> t | None \<Rightarrow> net_stats_default)
                 in (emit_counters_dyn [(''interface'', iface)] (if_counters delta) s,
                     AList.update iface current prev, AList.update iface (add_delta delta tot) totals))
            | None \<Rightarrow> (s, AList.update iface current prev, AList.update iface current totals)))"

definition mac_net_collect :: "deps \<Rightarrow> device_filter \<Rightarrow> ifaddr list option \<Rightarrow> mac_net \<Rightarrow> mac_net" where
  "mac_net_collect d flt r st =
     (case read_if_stats r of None \<Rightarrow> st | Some ifaces \<Rightarrow> fold (mac_net_one d flt) ifaces st)"

text \<open>\<open>checkpoint\<close> sends the totals, as the Linux collector sends its readings.\<close>

definition mac_net_checkpoint :: "net_prev \<Rightarrow> sink \<Rightarrow> sink" where
  "mac_net_checkpoint totals s =
     fold (\<lambda>(iface, st) s. emit_cumulative [(''interface'', iface)]
       [(''system.net.bytes_recv'', f_u64 (ns_rx_bytes st)), (''system.net.bytes_sent'', f_u64 (ns_tx_bytes st)),
        (''system.net.packets_recv'', f_u64 (ns_rx_packets st)), (''system.net.packets_sent'', f_u64 (ns_tx_packets st))] s)
     totals s"

end
