(* ===== verification/Collectors.thy ===== *)
theory Collectors
  imports Metrics_Macos
begin

text \<open>
  The trait \<open>Collector\<close> (\<open>src/metrics/mod.rs\<close>): the collectors of a platform, chosen by the
  configuration, and the dispatch of \<open>collect\<close> and \<open>checkpoint\<close> on a trait object.
\<close>

section \<open>Selection\<close>

text \<open>The trait objects: the collectors of Linux and those of macOS.\<close>

datatype collector =
  Load_Collector | Memory_Collector | Cpu_Collector cpu_prev_map | Disk_Collector disk_collector
| Network_Collector device_filter net_prev | Tcp_Collector | Cgroup_Collector cgroup_collector
| Container_Collector container_collector | Process_Collector process_collector
| Mac_Load_Collector | Mac_Memory_Collector | Mac_Cpu_Collector ticks_map | Mac_Disk_Collector mac_disk_collector
| Mac_Network_Collector device_filter net_prev net_prev

text \<open>\<open>init_collectors\<close> on Linux; \<open>cgroup\<close> is the detected path, \<open>page_size\<close> and \<open>clk_tck\<close> come from \<open>sysconf\<close>.\<close>

definition init_collectors :: "deps \<Rightarrow> string option \<Rightarrow> u64 \<Rightarrow> int \<Rightarrow> system_config \<Rightarrow> collector list" where
  "init_collectors d cgroup page_size clk_tck cfg =
     (if sc_load cfg then [Load_Collector] else [])
     @ (if sc_memory cfg then [Memory_Collector] else [])
     @ (if sc_cpu cfg then [Cpu_Collector []] else [])
     @ (if sc_disk cfg
        then [Disk_Collector (disk_collector_new
                (device_filter_new d (sc_disk_filter cfg) [''ram*'', ''loop*'', ''dm-*'']) (sc_disk_fs_types cfg))] else [])
     @ (if sc_network cfg
        then [Network_Collector (device_filter_new d (sc_network_filter cfg) [''lo'', ''docker0'', ''veth*'', ''br-*'']) []] else [])
     @ (if sc_tcp cfg then [Tcp_Collector] else [])
     @ (if sc_cgroups cfg then [Cgroup_Collector \<lparr>cg_path = cgroup, cg_prev = None\<rparr>] else [])
     @ (if sc_containers cfg then [Container_Collector \<lparr>cc_prev = [], cc_containers = [], cc_tick = 0\<rparr>] else [])
     @ (if sc_processes cfg then [Process_Collector (process_collector_new (sc_process_top cfg) page_size clk_tck)] else [])"

text \<open>\<open>init_collectors\<close> on macOS, and the choice by the platform the program is compiled for.\<close>

definition mac_init_collectors :: "deps \<Rightarrow> system_config \<Rightarrow> collector list" where
  "mac_init_collectors d cfg =
     (if sc_load cfg then [Mac_Load_Collector] else [])
     @ (if sc_memory cfg then [Mac_Memory_Collector] else [])
     @ (if sc_cpu cfg then [Mac_Cpu_Collector []] else [])
     @ (if sc_disk cfg
        then [Mac_Disk_Collector (mac_disk_collector_new (device_filter_new d (sc_disk_filter cfg) []) (sc_disk_fs_types cfg))]
        else [])
     @ (if sc_network cfg
        then [Mac_Network_Collector
                (device_filter_new d (sc_network_filter cfg)
                   [''lo0'', ''gif*'', ''stf*'', ''anpi*'', ''awdl*'', ''llw*'', ''ap*'', ''utun*'', ''bridge*'']) [] []]
        else [])"

definition platform_collectors :: "deps \<Rightarrow> target_os \<Rightarrow> string option \<Rightarrow> u64 \<Rightarrow> int \<Rightarrow> system_config \<Rightarrow> collector list" where
  "platform_collectors d os cgroup page_size clk_tck cfg =
     (case os of
        Os_Linux \<Rightarrow> init_collectors d cgroup page_size clk_tck cfg
      | Os_MacOS \<Rightarrow> mac_init_collectors d cfg
      | _ \<Rightarrow> [])"

section \<open>One tick of a collector\<close>

text \<open>What the macOS calls return in a tick.\<close>

record mac_readings =
  mac_cpu_info :: "(nat \<times> 32 word list) option"
  mac_loadavg :: "int \<times> f64 \<times> f64 \<times> f64"
  mac_nproc :: int
  mac_memory :: mem_readings
  mac_statfs :: "statfs_entry list"
  mac_ifaddrs :: "ifaddr list option"

text \<open>What a tick of the collectors meets on the host.\<close>

record tick_env =
  te_fs :: procfs
  te_answers :: "string \<Rightarrow> read_answer"
  te_listing :: listing
  te_kubepods :: bool
  te_user_slice :: bool
  te_pids :: "string list option"
  te_now :: nat
  te_now2 :: nat
  te_by_cpu :: "proc_snapshot list \<Rightarrow> proc_snapshot list"
  te_by_rss :: "proc_snapshot list \<Rightarrow> proc_snapshot list"
  te_mac :: mac_readings

text \<open>\<open>collect\<close> of the trait object; absent when it panics.\<close>

definition collector_collect :: "deps \<Rightarrow> tick_env \<Rightarrow> sink \<Rightarrow> collector \<Rightarrow> (sink \<times> collector) option" where
  "collector_collect d env s c =
     (case c of
        Load_Collector \<Rightarrow> Some (load_collect (te_fs env) s, Load_Collector)
      | Memory_Collector \<Rightarrow> Some (mem_collect (te_fs env) s, Memory_Collector)
      | Cpu_Collector prev \<Rightarrow> Some (map_prod (\<lambda>s. s) Cpu_Collector (cpu_collect (te_fs env) s prev))
      | Disk_Collector dc \<Rightarrow> Some (map_prod (\<lambda>s. s) Disk_Collector (disk_collect d (te_fs env) (te_answers env) (s, dc)))
      | Network_Collector flt prev \<Rightarrow>
          Some (map_prod (\<lambda>s. s) (Network_Collector flt) (net_collect d flt (te_fs env) (s, prev)))
      | Tcp_Collector \<Rightarrow> Some (tcp_collect (te_fs env) s, Tcp_Collector)
      | Cgroup_Collector cg \<Rightarrow> Some (map_prod (\<lambda>s. s) Cgroup_Collector (cgroup_collect (te_fs env) (s, cg)))
      | Container_Collector cc \<Rightarrow>
          Some (map_prod (\<lambda>s. s) Container_Collector
            (container_collect (te_fs env)
               (discover_containers (te_listing env) (te_kubepods env) (te_user_slice env)) (s, cc)))
      | Process_Collector pr \<Rightarrow>
          map_option (map_prod (\<lambda>s. s) Process_Collector)
            (process_collect (te_fs env) (te_pids env) (te_now env) (te_now2 env) (te_by_cpu env) (te_by_rss env) (s, pr))
      | Mac_Load_Collector \<Rightarrow>
          Some (mac_load_collect (fst (mac_loadavg (te_mac env))) (snd (mac_loadavg (te_mac env))) (mac_nproc (te_mac env)) s,
                Mac_Load_Collector)
      | Mac_Memory_Collector \<Rightarrow> Some (mac_mem_collect (mac_memory (te_mac env)) s, Mac_Memory_Collector)
      | Mac_Cpu_Collector prev \<Rightarrow>
          Some (map_prod (\<lambda>s. s) Mac_Cpu_Collector (mac_cpu_collect (mac_cpu_info (te_mac env)) (s, prev)))
      | Mac_Disk_Collector dc \<Rightarrow>
          Some (map_prod (\<lambda>s. s) Mac_Disk_Collector (mac_disk_collect d (mac_statfs (te_mac env)) (te_answers env) (s, dc)))
      | Mac_Network_Collector flt prev totals \<Rightarrow>
          Some (map_prod (\<lambda>s. s) (\<lambda>(prev, totals). Mac_Network_Collector flt prev totals)
            (mac_net_collect d flt (mac_ifaddrs (te_mac env)) (s, prev, totals))))"

text \<open>\<open>checkpoint\<close>: the collectors that keep counters override the empty default of the trait.\<close>

definition collector_checkpoint :: "sink \<Rightarrow> collector \<Rightarrow> sink" where
  "collector_checkpoint s c =
     (case c of
        Disk_Collector dc \<Rightarrow> disk_checkpoint (dc_prev dc) s
      | Network_Collector flt prev \<Rightarrow> net_checkpoint prev s
      | Mac_Network_Collector flt prev totals \<Rightarrow> mac_net_checkpoint totals s
      | _ \<Rightarrow> s)"

end
