(* ===== verification/Agent.thy ===== *)
theory Agent
  imports Remote_Config Collectors Multiline Journal
begin

text \<open>
  \<open>src/main.rs\<close>: the choice of the log source, the options handed to the sources, the metric
  task with its ticks and checkpoints, and the outer loop that runs the agent with one
  configuration after the other. The tasks themselves are the models of their theories; the
  command line, tracing and the printing of the dry run are not modelled.
\<close>

section \<open>Log source\<close>

datatype resolved_log = Resolved_Journald | Resolved_Unified | Resolved_EventLog | Resolved_Files

text \<open>Whether \<open>journalctl\<close> and \<open>/usr/bin/log\<close> are available.\<close>

record host_tools =
  journal_available :: bool
  unified_available :: bool

definition resolve_auto :: "target_os \<Rightarrow> host_tools \<Rightarrow> resolved_log" where
  "resolve_auto os tools =
     (case os of
        Os_MacOS \<Rightarrow> if unified_available tools then Resolved_Unified else Resolved_Files
      | Os_Linux \<Rightarrow> if journal_available tools then Resolved_Journald else Resolved_Files
      | Os_Windows \<Rightarrow> Resolved_EventLog
      | Os_Other \<Rightarrow> Resolved_Files)"

definition resolve_log_source :: "target_os \<Rightarrow> host_tools \<Rightarrow> log_source \<Rightarrow> string + resolved_log" where
  "resolve_log_source os tools src =
     (case src of
        Source_Journald \<Rightarrow>
          if journal_available tools then Inr Resolved_Journald
          else Inl (''log_source = '' @ [DQ] @ ''journald'' @ [DQ] @ '' but journalctl is not available'')
      | Source_UnifiedLog \<Rightarrow>
          if unified_available tools then Inr Resolved_Unified
          else Inl (''log_source = '' @ [DQ] @ ''unifiedlog'' @ [DQ]
                 @ '' but /usr/bin/log is not available (the unified log source requires macOS)'')
      | Source_EventLog \<Rightarrow>
          if os = Os_Windows then Inr Resolved_EventLog
          else Inl (''log_source = '' @ [DQ] @ ''eventlog'' @ [DQ]
                 @ '' but the Windows Event Log source requires Windows'')
      | Source_Files \<Rightarrow> Inr Resolved_Files
      | Source_Auto \<Rightarrow> Inr (resolve_auto os tools))"

section \<open>Options of the sources\<close>

definition multiline_opts_of :: "deps \<Rightarrow> string option \<Rightarrow> nat \<Rightarrow> nat \<Rightarrow> multiline_opts option" where
  "multiline_opts_of d pat timeout_ms cap =
     (case pat of
        None \<Rightarrow> None
      | Some p \<Rightarrow> (case multiline_new (regex_new d) p timeout_ms cap of Inr opts \<Rightarrow> Some opts | Inl _ \<Rightarrow> None))"

definition file_parse_opts_of :: "agent_config \<Rightarrow> file_parse_opts" where
  "file_parse_opts_of cfg =
     \<lparr>o_syslog = ac_parse_syslog cfg, o_structured = ac_parse_structured cfg, o_levels = ac_detect_levels cfg\<rparr>"

definition journal_filter :: "agent_config \<Rightarrow> service_filter" where
  "journal_filter cfg = \<lparr>sf_include = ac_journal_include_services cfg, sf_exclude = ac_journal_exclude_services cfg\<rparr>"

datatype tail_task =
  Tail_Journal service_filter
| Tail_Unified "string option"
| Tail_EventLog "string list" "string option" "string option" "string list"
| Tail_Files "string list" file_parse_opts "multiline_opts option"

definition tail_task_of :: "deps \<Rightarrow> agent_config \<Rightarrow> resolved_log \<Rightarrow> tail_task option" where
  "tail_task_of d cfg r =
     (case r of
        Resolved_Journald \<Rightarrow> Some (Tail_Journal (journal_filter cfg))
      | Resolved_Unified \<Rightarrow> Some (Tail_Unified (ac_unified_log_predicate cfg))
      | Resolved_EventLog \<Rightarrow>
          Some (Tail_EventLog (ac_eventlog_channels cfg) (ac_eventlog_query cfg) (ac_eventlog_event_ids cfg)
                  (ac_eventlog_exclude_providers cfg))
      | Resolved_Files \<Rightarrow>
          if ac_logs cfg \<noteq> []
          then Some (Tail_Files (ac_logs cfg) (file_parse_opts_of cfg)
                 (multiline_opts_of d (ac_multiline_start_pattern cfg) (ac_multiline_timeout_ms cfg) (ac_multiline_max_bytes cfg)))
          else None)"

section \<open>The metric task\<close>

text \<open>The loop over the collectors; on a panic they are lost, what they sent is not.\<close>

fun collect_all :: "deps \<Rightarrow> tick_env \<Rightarrow> bool \<Rightarrow> collector list \<Rightarrow> sink \<Rightarrow> sink \<times> collector list option" where
  "collect_all d env checkpoint [] s = (s, Some [])"
| "collect_all d env checkpoint (c # cs) s =
     (case collector_collect d env s c of
        None \<Rightarrow> (s, None)
      | Some (s1, c') \<Rightarrow>
          (let s2 = (if checkpoint then collector_checkpoint s1 c' else s1)
           in case collect_all d env checkpoint cs s2 of
                (s3, None) \<Rightarrow> (s3, None)
              | (s3, Some cs') \<Rightarrow> (s3, Some (c' # cs'))))"

text \<open>The ticks of an hour for an interval in milliseconds; a divisor of zero panics.\<close>

definition checkpoint_ticks :: "nat \<Rightarrow> 32 word rust" where
  "checkpoint_ticks interval =
     (let n = (of_nat (max (interval div 1000) 1) :: 32 word) in if n = 0 then Panics else Returns (3600 div n))"

definition is_multiple_of :: "32 word \<Rightarrow> 32 word \<Rightarrow> bool" where
  "is_multiple_of a b \<longleftrightarrow> (if b = 0 then a = 0 else a mod b = 0)"

record metric_task =
  mt_collectors :: "collector list"
  mt_tick_count :: "32 word"

text \<open>One tick; \<open>fresh\<close> is what \<open>init_collectors\<close> gives after a panic.\<close>

definition metric_tick :: "deps \<Rightarrow> collector list \<Rightarrow> 32 word \<Rightarrow> tick_env \<Rightarrow> sink \<times> metric_task \<Rightarrow> sink \<times> metric_task" where
  "metric_tick d fresh every env st =
     (case st of (s, t) \<Rightarrow>
      let checkpoint = (0 < mt_tick_count t \<and> is_multiple_of (mt_tick_count t) every) in
      case collect_all d env checkpoint (mt_collectors t) s of
        (s', Some cs) \<Rightarrow> (s', \<lparr>mt_collectors = cs, mt_tick_count = mt_tick_count t + 1\<rparr>)
      | (s', None) \<Rightarrow> (s', \<lparr>mt_collectors = fresh, mt_tick_count = mt_tick_count t + 1\<rparr>))"

text \<open>The task over the ticks until it is cancelled.\<close>

definition metric_loop ::
    "deps \<Rightarrow> collector list \<Rightarrow> nat \<Rightarrow> tick_env list \<Rightarrow> sink \<Rightarrow> (sink \<times> metric_task) rust" where
  "metric_loop d fresh interval envs s =
     (if fresh = [] then Returns (s, \<lparr>mt_collectors = [], mt_tick_count = 0\<rparr>)
      else (case checkpoint_ticks interval of
              Panics \<Rightarrow> Panics
            | Returns every \<Rightarrow> Returns (fold (metric_tick d fresh every) envs (s, \<lparr>mt_collectors = fresh, mt_tick_count = 0\<rparr>))))"

section \<open>One run\<close>

datatype signal = Sig_Shutdown | Sig_Reload

datatype run_result = Run_Shutdown | Run_Reload

text \<open>
  What a run meets: the tools of the host, whether the configuration of the Tell client is
  accepted and the client starts, and the signal that ends the run.
\<close>

record run_env =
  re_tools :: host_tools
  re_build :: bool
  re_client :: bool
  re_signal :: signal

text \<open>The tasks a run starts.\<close>

record run_tasks =
  rt_poller :: "poller_config option"
  rt_tail :: "tail_task option"
  rt_interval :: nat
  rt_tags :: "(string, string) hash_map"
  rt_system :: system_config

definition poller_of :: "path \<Rightarrow> agent_config \<Rightarrow> string \<Rightarrow> poller_config option" where
  "poller_of config_path cfg applied_hash =
     (case ac_server cfg of
        None \<Rightarrow> None
      | Some server \<Rightarrow>
          if ac_config_poll_interval cfg = 0 then None
          else Some \<lparr>pc_server = server, pc_api_key = ac_api_key cfg, pc_endpoint = ac_endpoint cfg,
                     pc_config_path = config_path, pc_interval = ac_config_poll_interval cfg, pc_applied_hash = applied_hash\<rparr>)"

text \<open>\<open>wait_for_signal\<close> gives the signal; the run ends the process with status 1 where it cannot start.\<close>

definition run_agent :: "deps \<Rightarrow> target_os \<Rightarrow> path \<Rightarrow> run_env \<Rightarrow> agent_config \<Rightarrow> string option \<Rightarrow> nat + run_tasks \<times> run_result" where
  "run_agent d os config_path env cfg file =
     (let applied_hash = applied_config_hash file in
      if \<not> re_build env then Inl 1
      else if \<not> re_client env then Inl 1
      else (case resolve_log_source os (re_tools env) (ac_log_source cfg) of
              Inl msg \<Rightarrow> Inl 1
            | Inr r \<Rightarrow>
                Inr (\<lparr>rt_poller = poller_of config_path cfg applied_hash, rt_tail = tail_task_of d cfg r, rt_interval = ac_interval cfg,
                      rt_tags = ac_tags cfg, rt_system = ac_system cfg\<rparr>,
                     (case re_signal env of Sig_Shutdown \<Rightarrow> Run_Shutdown | Sig_Reload \<Rightarrow> Run_Reload))))"

section \<open>The outer loop\<close>

datatype agent_exit = Agent_Exits nat | Agent_Stopped | Agent_Running

text \<open>
  A turn is what a run meets, the configuration file while it starts and the file a reload
  reads after it. The result is how the loop ends and the configurations it ran with.
\<close>

record agent_turn =
  at_env :: run_env
  at_file :: "string option"
  at_reload :: "string option"

fun agent_turns :: "deps \<Rightarrow> target_os \<Rightarrow> path \<Rightarrow> agent_config \<Rightarrow> agent_turn list \<Rightarrow> agent_exit \<times> agent_config list" where
  "agent_turns d os config_path cfg [] = (Agent_Running, [])"
| "agent_turns d os config_path cfg (t # ts) =
     (case run_agent d os config_path (at_env t) cfg (at_file t) of
        Inl status \<Rightarrow> (Agent_Exits status, [cfg])
      | Inr (tasks, Run_Shutdown) \<Rightarrow> (Agent_Stopped, [cfg])
      | Inr (tasks, Run_Reload) \<Rightarrow>
          (let cfg' = (case load_config d os (at_reload t) of Inr c \<Rightarrow> c | Inl e \<Rightarrow> cfg)
           in map_prod (\<lambda>x. x) ((#) cfg) (agent_turns d os config_path cfg' ts)))"

definition agent_loop :: "deps \<Rightarrow> target_os \<Rightarrow> path \<Rightarrow> string option \<Rightarrow> agent_turn list \<Rightarrow> agent_exit \<times> agent_config list" where
  "agent_loop d os config_path file ts =
     (case load_config d os file of
        Inl e \<Rightarrow> (Agent_Exits 1, [])
      | Inr cfg \<Rightarrow> agent_turns d os config_path cfg ts)"

end
