(* ===== verification/Remote_Config_Props.thy ===== *)
theory Remote_Config_Props
  imports Remote_Config
begin

text \<open>
  The digest distinguishes one-byte edits, the response parser inverts a printed response,
  and the poller only ever installs a valid, changed configuration and never reloads for
  the configuration it runs.
\<close>

section \<open>Digest\<close>

lemma fnv_prime_inverse: "FNV_PRIME * 0xce965057aff6957b = 1"
  by (simp add: FNV_PRIME_def)

lemma fnv_mult_inject: "x * FNV_PRIME = y * FNV_PRIME \<Longrightarrow> x = y"
proof -
  assume "x * FNV_PRIME = y * FNV_PRIME"
  then have "x * (FNV_PRIME * 0xce965057aff6957b) = y * (FNV_PRIME * 0xce965057aff6957b)"
    by (simp only: mult.assoc [symmetric])
  then show ?thesis by (simp only: fnv_prime_inverse mult_1_right)
qed

lemma xor_cancel: "x XOR a = y XOR a \<Longrightarrow> x = (y :: u64)"
proof -
  assume "x XOR a = y XOR a"
  then have "(x XOR a) XOR a = (y XOR a) XOR a" by simp
  then show ?thesis by (simp add: xor.assoc)
qed

lemma byte_word_inject: "of_nat (code b) = (of_nat (code b') :: u64) \<Longrightarrow> b = b'"
proof -
  assume "of_nat (code b) = (of_nat (code b') :: u64)"
  then have "unat (of_nat (code b) :: u64) = unat (of_nat (code b') :: u64)" by simp
  moreover have "code b < 2 ^ LENGTH(64)" "code b' < 2 ^ LENGTH(64)"
    using code_less [of b] code_less [of b'] by (simp_all del: code_less)
  ultimately have "code b = code b'" by (simp only: unat_of_nat mod_less)
  then show ?thesis by (simp add: code_def)
qed

lemma fnv_step_inject: "fnv_step h b = fnv_step h' b \<Longrightarrow> h = h'"
  unfolding fnv_step_def by (drule fnv_mult_inject, erule xor_cancel)

lemma fnv_step_byte: "fnv_step h b = fnv_step h b' \<Longrightarrow> b = b'"
  unfolding fnv_step_def
  by (drule fnv_mult_inject, simp only: xor.commute [of h], drule xor_cancel, erule byte_word_inject)

lemma fnv_fold_inject: "foldl fnv_step h ys = foldl fnv_step h' ys \<Longrightarrow> h = h'"
  by (induction ys arbitrary: h h') (auto dest: fnv_step_inject)

lemma hex_chr_inject: "m < 16 \<Longrightarrow> n < 16 \<Longrightarrow> hex_chr m = hex_chr n \<Longrightarrow> m = n"
proof -
  assume *: "m < 16" "n < 16" "hex_chr m = hex_chr n"
  then have "of_char (hex_chr m) = (of_char (hex_chr n) :: nat)" by simp
  with * show ?thesis by (auto simp: hex_chr_def split: if_splits)
qed

lemma nibble_less: "unat (drop_bit k (w :: u64) AND 15) < 16"
proof -
  have "drop_bit k w AND 15 \<le> 15" by (rule word_and_le1)
  then have "unat (drop_bit k w AND 15) \<le> unat (15 :: u64)" by (simp only: word_le_nat_alt)
  then show ?thesis by simp
qed

lemma bit_nibble: "bit (drop_bit (4 * i) (w :: u64) AND 15) j \<longleftrightarrow> j < 4 \<and> bit w (4 * i + j)"
proof -
  have "(15 :: u64) = mask 4" by (simp add: mask_eq_exp_minus_1)
  then show ?thesis
    by (simp only: bit_and_iff bit_drop_bit_eq bit_mask_iff o_apply)
      (auto simp: bit_imp_le_length possible_bit_def)
qed

lemma hex16_inject: "hex16 v = hex16 w \<Longrightarrow> v = w"
proof (rule bit_word_eqI)
  fix n
  assume eq: "hex16 v = hex16 w" and n: "n < LENGTH(64)"
  define i j where "i = n div 4" and "j = n mod 4"
  have i: "i < 16" and ij: "n = 4 * i + j" and j: "j < 4" using n by (auto simp: i_def j_def)
  have "hex_chr (unat (drop_bit (4 * i) v AND 15)) = hex_chr (unat (drop_bit (4 * i) w AND 15))"
    using eq i by (simp only: hex16_def map_eq_conv set_rev set_upt) simp
  with hex_chr_inject nibble_less have "unat (drop_bit (4 * i) v AND 15) = unat (drop_bit (4 * i) w AND 15)" by blast
  then have "bit (drop_bit (4 * i) v AND 15) j = bit (drop_bit (4 * i) w AND 15) j" by (simp only: word_unat_eq_iff [symmetric])
  then show "bit v n = bit w n" using j by (simp add: bit_nibble ij)
qed

lemma length_hex16 [simp]: "length (hex16 w) = 16"
  by (simp add: hex16_def)

section \<open>Response\<close>

lemma find_sub_append:
  "find_sub n s = Some i \<Longrightarrow> i \<le> length s \<and> prefix n (drop i s) \<and> (\<forall>j < i. \<not> prefix n (drop j s))"
proof (induction s arbitrary: i)
  case (Cons c cs)
  show ?case
  proof (cases "prefix n (c # cs)")
    case False
    with Cons.prems obtain k where k: "i = Suc k" "find_sub n cs = Some k" by auto
    have "\<not> prefix n (drop j (c # cs))" if "j < i" for j
      using Cons.IH [OF k(2)] k(1) that False by (cases j) auto
    with Cons.IH [OF k(2)] k(1) show ?thesis by auto
  qed (use Cons.prems in auto)
qed (auto split: if_splits)

lemma find_sub_None_iff: "find_sub n s = None \<longleftrightarrow> (\<forall>i \<le> length s. \<not> prefix n (drop i s))"
proof (induction s)
  case (Cons c cs)
  show ?case
  proof
    assume "find_sub n (c # cs) = None"
    then have h: "\<not> prefix n (c # cs)" "\<forall>i \<le> length cs. \<not> prefix n (drop i cs)"
      using Cons.IH by (auto split: if_splits)
    show "\<forall>i \<le> length (c # cs). \<not> prefix n (drop i (c # cs))"
    proof (intro allI impI)
      fix i assume "i \<le> length (c # cs)"
      with h show "\<not> prefix n (drop i (c # cs))" by (cases i) auto
    qed
  next
    assume a: "\<forall>i \<le> length (c # cs). \<not> prefix n (drop i (c # cs))"
    then have "\<not> prefix n (c # cs)" by (metis drop0 le0)
    moreover have "\<forall>i \<le> length cs. \<not> prefix n (drop i cs)"
      using a by (metis Suc_le_mono drop_Suc_Cons length_Cons)
    ultimately show "find_sub n (c # cs) = None" using Cons.IH by simp
  qed
qed auto

lemma prefix_take: "prefix n s \<longleftrightarrow> take (length n) s = n"
  by (metis append_eq_conv_conj append_take_drop_id prefix_def)

text \<open>The indexed search agrees with the structural search.\<close>

lemma find_subslice_find_sub:
  assumes "needle \<noteq> []"
  shows "find_subslice hay needle = find_sub needle hay"
proof (cases "find_sub needle hay")
  case None
  then have "\<forall>i \<le> length hay. take (length needle) (drop i hay) \<noteq> needle"
    by (simp add: find_sub_None_iff prefix_take)
  then show ?thesis using None
    by (auto simp: find_subslice_def find_None_iff dest: spec [of _ "length hay - length needle"])
next
  case (Some i)
  note s = find_sub_append [OF Some]
  have len: "i + length needle \<le> length hay"
    using s prefix_length_le [of needle "drop i hay"] assms by (cases "i = length hay") auto
  have "List.find (\<lambda>i. take (length needle) (drop i hay) = needle) [0..<length hay - length needle + 1] = Some i"
    unfolding find_Some_iff
    by (rule exI [of _ i]) (use s len in \<open>auto simp: prefix_take nth_append\<close>)
  then show ?thesis using assms len Some by (auto simp: find_subslice_def)
qed

text \<open>A response as a server sends it: status line and header fields, a blank line, the body.\<close>

definition print_response :: "nat \<Rightarrow> string \<Rightarrow> string list \<Rightarrow> string \<Rightarrow> string" where
  "print_response st reason headers bdy =
     ''HTTP/1.1 '' @ show_nat st @ SP # reason @ concat (map (\<lambda>h. [CR, NL] @ h) headers) @ [CR, NL, CR, NL] @ bdy"

definition header_line :: "string \<Rightarrow> bool" where
  "header_line h \<longleftrightarrow> h \<noteq> [] \<and> CR \<notin> set h \<and> NL \<notin> set h \<and> (\<forall>c \<in> set h. code c < 128)"

definition etag_of :: "string list \<Rightarrow> string option" where
  "etag_of headers =
     map_option (\<lambda>h. trim (drop 5 h))
       (List.find (\<lambda>h. 5 \<le> length h \<and> eq_ignore_ascii_case (take 5 h) ''etag:'') headers)"

lemma find_sub_skip: "CR \<notin> set l \<Longrightarrow> find_sub (CR # n) (l @ r) = map_option ((+) (length l)) (find_sub (CR # n) r)"
  by (induction l; cases "find_sub (CR # n) r") auto

lemma find_blank_line:
  assumes "\<forall>h \<in> set headers. header_line h"
  shows "find_sub [CR, NL, CR, NL] (concat (map (\<lambda>h. [CR, NL] @ h) headers) @ [CR, NL, CR, NL] @ bdy)
    = Some (length (concat (map (\<lambda>h. [CR, NL] @ h) headers)))"
  using assms
proof (induction headers)
  case (Cons h hs)
  then have h: "h \<noteq> []" "CR \<notin> set h" by (auto simp: header_line_def)
  then obtain c r where cr: "h = c # r" "c \<noteq> CR" by (cases h) auto
  show ?case
    using Cons find_sub_skip [OF h(2), of "[NL, CR, NL]"] cr by (simp add: option.map_comp comp_def)
qed simp

lemma str_lines_last: "h \<noteq> [] \<Longrightarrow> NL \<notin> set h \<Longrightarrow> str_lines h = [h]"
  by (subst str_lines.simps) (simp add: split_once_None [THEN iffD2])

lemma str_lines_crlf: "NL \<notin> set l \<Longrightarrow> str_lines (l @ CR # NL # r) = l # str_lines r"
  using str_lines_Cons [of "l @ [CR]" r] by (simp add: strip_cr_def)

lemma str_lines_headers:
  "header_line l \<Longrightarrow> \<forall>h \<in> set headers. header_line h \<Longrightarrow>
     str_lines (l @ concat (map (\<lambda>h. [CR, NL] @ h) headers)) = l # headers"
proof (induction headers arbitrary: l)
  case Nil
  then show ?case by (simp add: str_lines_last header_line_def)
next
  case (Cons h hs)
  then show ?case
    using str_lines_crlf [of l "h @ concat (map (\<lambda>h. [CR, NL] @ h) hs)"] by (simp add: header_line_def)
qed

lemma find_etag_ascii: "\<forall>h \<in> set headers. header_line h \<Longrightarrow> find_etag headers = Returns (etag_of headers)"
proof (induction headers)
  case (Cons h hs)
  have "is_char_boundary h 5" if "5 \<le> length h"
  proof (cases "length h = 5")
    case False
    then have "h ! 5 \<in> set h" using that by simp
    then have "code (h ! 5) < 128" using Cons.prems by (auto simp: header_line_def)
    then show ?thesis using that False by (simp add: is_char_boundary_def is_cont_def)
  qed (simp add: is_char_boundary_def)
  with Cons show ?case by (auto simp: etag_of_def)
qed (simp add: etag_of_def)

lemma parse_status_line: "st < 2 ^ 16 \<Longrightarrow> parse_status_code (''HTTP/1.1 '' @ show_nat st @ SP # reason) = Some st"
proof -
  assume st: "st < 2 ^ 16"
  have w: "is_word ''HTTP/1.1''" by (simp add: is_word_def visible_def code_def)
  have "split_whitespace (''HTTP/1.1'' @ SP # show_nat st @ SP # reason) = ''HTTP/1.1'' # show_nat st # split_whitespace reason"
    by (simp only: split_whitespace_word [OF w] split_whitespace_word [OF is_word_show_nat])
  then show ?thesis using parse_show_nat [OF st] by (simp add: parse_status_code_def)
qed

lemma header_line_status:
  assumes "\<forall>c \<in> set reason. code c < 128 \<and> c \<noteq> CR \<and> c \<noteq> NL"
  shows "header_line (''HTTP/1.1 '' @ show_nat st @ SP # reason)"
proof -
  have "CR \<notin> set (show_nat st)" "NL \<notin> set (show_nat st)"
    by (simp_all add: show_nat_no_sep is_ascii_digit_def code_def)
  with assms show_nat_visible show ?thesis by (auto simp: header_line_def code_def)
qed

lemma header_line_ascii:
  "header_line l \<Longrightarrow> \<forall>h \<in> set headers. header_line h \<Longrightarrow>
     utf8_valid (l @ concat (map (\<lambda>h. [CR, NL] @ h) headers))"
  by (rule utf8_valid_ascii) (auto simp: header_line_def code_def)

lemma parse_printed_response:
  assumes "st < 2 ^ 16" and "\<forall>c \<in> set reason. code c < 128 \<and> c \<noteq> CR \<and> c \<noteq> NL" and "\<forall>h \<in> set headers. header_line h"
  shows "parse_http_response (print_response st reason headers bdy)
    = Returns (Some \<lparr>hr_status = st, hr_etag = etag_of headers, hr_body = bdy\<rparr>)"
proof -
  define l where "l = ''HTTP/1.1 '' @ show_nat st @ SP # reason"
  define cs where "cs = concat (map (\<lambda>h. [CR, NL] @ h) headers)"
  have raw: "print_response st reason headers bdy = l @ cs @ [CR, NL, CR, NL] @ bdy"
    by (simp add: print_response_def l_def cs_def)
  have l: "header_line l" unfolding l_def by (rule header_line_status [OF assms(2)])
  then have cr: "CR \<notin> set l" by (simp add: header_line_def)
  have "find_sub [CR, NL, CR, NL] (l @ cs @ [CR, NL, CR, NL] @ bdy) = Some (length (l @ cs))"
    using find_sub_skip [OF cr, of "[NL, CR, NL]"] find_blank_line [OF assms(3), of bdy] by (simp add: cs_def)
  then have e: "header_end (l @ cs @ [CR, NL, CR, NL] @ bdy) = Some (length (l @ cs), 4)"
    by (simp add: header_end_def find_subslice_find_sub)
  have t: "take (length (l @ cs)) (l @ cs @ [CR, NL, CR, NL] @ bdy) = l @ cs"
    and dr: "drop (length (l @ cs) + 4) (l @ cs @ [CR, NL, CR, NL] @ bdy) = bdy" by simp_all
  have "from_utf8_lossy (l @ cs) = l @ cs"
    using header_line_ascii [OF l assms(3)] by (simp add: cs_def from_utf8_lossy_valid)
  moreover have "str_lines (l @ cs) = l # headers" using str_lines_headers [OF l assms(3)] by (simp add: cs_def)
  ultimately show ?thesis
    unfolding raw parse_http_response_def e
    using parse_status_line [OF assms(1), of reason] find_etag_ascii [OF assms(3)]
    by (simp only: option.case prod.case t dr list.case l_def [symmetric] rust.case)
qed

section \<open>The poller\<close>

lemma write_config_cases:
  "write_config_atomic io bytes disk = (ok, disk') \<Longrightarrow>
     fst disk' = (if ok then Some bytes else fst disk)"
  by (cases disk) (auto simp: write_config_atomic_def split: if_splits)

text \<open>What a poller may have done to the file: nothing, or installed a valid, changed body.\<close>

definition poller_ok :: "deps \<Rightarrow> target_os \<Rightarrow> poller_config \<Rightarrow> string option \<Rightarrow> poller_exit \<times> poller_state \<Rightarrow> bool" where
  "poller_ok d os pc old r =
     (case r of (x, st) \<Rightarrow>
        if x = Poller_Applied
        then po_reload st \<and> (\<exists>bdy c. fst (po_disk st) = Some bdy \<and> utf8_valid bdy \<and> parse_config d os bdy = Inr c
               \<and> config_hash bdy \<noteq> pc_applied_hash pc)
        else \<not> po_reload st \<and> fst (po_disk st) = old)"

lemma classify_changed:
  "classify_response d os pc h resp = Inr (Changed bdy hash ep key srv) \<Longrightarrow>
     bdy = from_utf8_lossy (hr_body resp) \<and> hash = config_hash bdy \<and> hash \<noteq> h \<and> (\<exists>c. parse_config d os bdy = Inr c)"
  by (auto simp: classify_response_def Let_def split: if_splits sum.splits)

lemma poll_once_changed:
  assumes "poll_once d os curl version pc h etag = Returns (Inr (Changed bdy hash ep key srv))"
  shows "utf8_valid bdy \<and> config_hash bdy \<noteq> h \<and> (\<exists>c. parse_config d os bdy = Inr c)"
  using assms utf8_valid_lossy
  by (auto simp: poll_once_def dest!: classify_changed split: curl_result.splits if_splits rust.splits option.splits)

lemma poller_loop_ok:
  "\<not> po_reload st \<Longrightarrow> fst (po_disk st) = old \<Longrightarrow> poller_ok d os pc old (poller_loop d os version pc ts st)"
proof (induction ts arbitrary: st)
  case Nil
  then show ?case by (simp add: poller_ok_def)
next
  case (Cons t ts)
  show ?case
  proof (cases t)
    case Turn_Cancel
    with Cons.prems show ?thesis by (simp add: poller_ok_def)
  next
    case (Turn_Poll curl io)
    show ?thesis
    proof (cases "poll_once d os curl version pc (pc_applied_hash pc) (po_etag st)")
      case Panics
      with Turn_Poll Cons.prems show ?thesis by (simp add: poller_ok_def)
    next
      case (Returns res)
      obtain x st' where o: "on_outcome pc io res st = (x, st')" by fastforce
      have step: "poller_ok d os pc old (x, st')"
      proof (cases "\<exists>bdy hash ep key srv. res = Inr (Changed bdy hash ep key srv)")
        case True
        then obtain bdy hash ep key srv where r: "res = Inr (Changed bdy hash ep key srv)" by blast
        obtain ok disk where w: "write_config_atomic io bdy (po_disk st) = (ok, disk)" by (metis surj_pair)
        from poll_once_changed [OF Returns [unfolded r]] write_config_cases [OF w] o r w Cons.prems
        show ?thesis by (cases ok) (auto simp: on_outcome_def poller_ok_def)
      next
        case False
        with o Cons.prems show ?thesis
          by (auto simp: on_outcome_def poller_ok_def split: sum.splits poll_outcome.splits poll_error.splits)
      qed
      show ?thesis
      proof (cases "x = Poller_Running")
        case True
        with step have "\<not> po_reload st'" "fst (po_disk st') = old" by (auto simp: poller_ok_def)
        from Cons.IH [OF this] True Turn_Poll Returns o show ?thesis by simp
      next
        case False
        then have "poller_loop d os version pc (t # ts) st = (x, st')"
          using Turn_Poll Returns o by (cases x) simp_all
        with step show ?thesis by simp
      qed
    qed
  qed
qed

lemma run_poller_ok: "poller_ok d os pc (fst disk) (run_poller d os version pc ts disk)"
  by (auto simp: run_poller_def Let_def poller_loop_ok poller_ok_def [of _ _ _ _ "(Poller_Disabled, st)" for st])

definition demo_poller :: poller_config where
  "demo_poller = \<lparr>pc_server = ''https://c'', pc_api_key = demo_key, pc_endpoint = ''e'', pc_config_path = ''p'',
     pc_interval = 1000, pc_applied_hash = ''h''\<rparr>"

definition demo_cio :: config_io where
  "demo_cio = \<lparr>cw_create = True, cw_room = 100, cw_sync = True, cw_chmod = True, cw_rename = True\<rparr>"

definition demo_turn :: poll_turn where
  "demo_turn = Turn_Poll (\<lambda>_ _. Curl_Output \<lparr>co_success = True, co_stdout = print_response 200 ''OK'' [] ''min'', co_stderr = []\<rparr>) demo_cio"

lemma demo_poll:
  assumes "config_hash ''min'' \<noteq> pc_applied_hash pc"
  shows "\<exists>ep key srv. classify_response demo_config_deps os pc (pc_applied_hash pc) \<lparr>hr_status = 200, hr_etag = e, hr_body = ''min''\<rparr>
      = Inr (Changed ''min'' (config_hash ''min'') ep key srv)"
proof -
  have "from_utf8_lossy ''min'' = ''min''" by (simp add: from_utf8_lossy_valid utf8_valid_ascii code_def)
  with assms show ?thesis by (simp add: classify_response_def is_ascii_whitespace_def code_def Let_def parse_demo)
qed

lemma demo_poller_applies:
  assumes "config_hash ''min'' \<noteq> pc_applied_hash pc" and "starts_with (pc_server pc) ''https://''" and "0 < pc_interval pc"
  shows "\<exists>st. run_poller demo_config_deps os v pc [demo_turn] disk = (Poller_Applied, st) \<and> fst (po_disk st) = Some ''min''"
proof -
  have "parse_http_response (print_response 200 ''OK'' [] ''min'') = Returns (Some \<lparr>hr_status = 200, hr_etag = etag_of [], hr_body = ''min''\<rparr>)"
    by (rule parse_printed_response) (simp_all add: code_def)
  with demo_poll [OF assms(1), of os "etag_of []"] assms(2,3) show ?thesis
    by (cases disk) (auto simp: run_poller_def Let_def demo_turn_def poll_once_def on_outcome_def write_config_atomic_def demo_cio_def)
qed

section \<open>Properties\<close>

text \<open>
  C10: The poller installs only what it may. Whatever the server answers and whatever fails,
  when the poller ends the configuration file is what it was and no reload is requested,
  or it holds a complete body that parses and validates, is well-formed UTF-8 and whose
  digest differs from the applied one, and a reload is requested; without an \<open>https://\<close> server
  or with a zero interval nothing happens at all.
\<close>

theorem poller_installs_valid:
  "poller_ok d os pc (fst disk) (run_poller d os version pc ts disk)
   \<and> (\<not> starts_with (pc_server pc) ''https://'' \<or> pc_interval pc = 0 \<longrightarrow>
        fst (run_poller d os version pc ts disk) = Poller_Disabled \<and> po_disk (snd (run_poller d os version pc ts disk)) = disk)"
  using run_poller_ok [of d os pc disk version ts] by (auto simp: run_poller_def Let_def)

theorem poller_installs_valid_witness:
  "poller_ok demo_config_deps Os_Linux demo_poller (Some ''old'')
     (run_poller demo_config_deps Os_Linux ''1'' demo_poller [demo_turn] (Some ''old'', None))
   \<and> fst (run_poller demo_config_deps Os_Linux ''1'' demo_poller [demo_turn] (Some ''old'', None)) = Poller_Applied
   \<and> fst (run_poller demo_config_deps Os_Linux ''1'' (demo_poller\<lparr>pc_server := ''http://c''\<rparr>) [demo_turn] (Some ''old'', None)) = Poller_Disabled"
proof -
  have "config_hash ''min'' \<noteq> ''h''" using length_hex16 by (metis config_hash_def length_Cons list.size(3) numeral_eq_iff num.distinct(1) numeral_One One_nat_def)
  then have "fst (run_poller demo_config_deps Os_Linux ''1'' demo_poller [demo_turn] (Some ''old'', None)) = Poller_Applied"
    using demo_poller_applies [of demo_poller Os_Linux "''1''" "(Some ''old'', None)"] by (auto simp: demo_poller_def starts_with_def)
  with poller_installs_valid [of demo_config_deps Os_Linux demo_poller "(Some ''old'', None)" "''1''" "[demo_turn]"]
    poller_installs_valid [of demo_config_deps Os_Linux "demo_poller\<lparr>pc_server := ''http://c''\<rparr>" "(Some ''old'', None)" "''1''" "[demo_turn]"]
  show ?thesis by (simp add: starts_with_def demo_poller_def)
qed

text \<open>
  C34: No reload loop. After a body was installed, the next run starts from the digest of the
  file; the same response then counts as unchanged, even if the server ignores the condition
  of the request, so that it is neither written nor reloaded again.
\<close>

theorem no_reload_loop:
  assumes "classify_response d os pc h resp = Inr (Changed bdy hash ep key srv)"
    and "write_config_atomic io bdy disk = (True, disk')"
  shows "classify_response d os pc' (applied_config_hash (fst disk')) resp = Inr (Unchanged (hr_etag resp))"
proof -
  from classify_changed [OF assms(1)] write_config_cases [OF assms(2)]
  have "applied_config_hash (fst disk') = config_hash (from_utf8_lossy (hr_body resp))"
    by (simp add: applied_config_hash_def)
  with assms(1) show ?thesis
    by (auto simp: classify_response_def Let_def split: if_splits sum.splits)
qed

theorem no_reload_loop_witness:
  "classify_response demo_config_deps Os_Linux demo_poller (applied_config_hash (Some ''min''))
     \<lparr>hr_status = 200, hr_etag = None, hr_body = ''min''\<rparr> = Inr (Unchanged None)"
proof -
  let ?resp = "\<lparr>hr_status = 200, hr_etag = None, hr_body = ''min''\<rparr>"
  have m: "from_utf8_lossy ''min'' = ''min''" by (simp add: from_utf8_lossy_valid utf8_valid_ascii code_def)
  have "config_hash ''min'' \<noteq> ''h''" using length_hex16 by (metis config_hash_def length_Cons list.size(3) numeral_eq_iff num.distinct(1) numeral_One One_nat_def)
  moreover obtain c where "parse_config demo_config_deps Os_Linux ''min'' = Inr c" using minimal_min by blast
  ultimately have "\<exists>ep key srv. classify_response demo_config_deps Os_Linux demo_poller ''h'' ?resp
      = Inr (Changed ''min'' (config_hash ''min'') ep key srv)"
    by (simp add: classify_response_def m is_ascii_whitespace_def code_def Let_def)
  then obtain ep key srv where
    "classify_response demo_config_deps Os_Linux demo_poller ''h'' ?resp = Inr (Changed ''min'' (config_hash ''min'') ep key srv)"
    by blast
  from no_reload_loop [OF this, of demo_cio "(None, None)" "(Some ''min'', None)" demo_poller]
  show ?thesis by (simp add: write_config_atomic_def demo_cio_def)
qed

text \<open>
  Parsing inverts printing. For every status of 16 bits, every ASCII reason and header
  lines and every body, the parser returns, without a panic, the status, the trimmed value of
  the first \<open>ETag\<close> header and exactly the bytes of the body, even if the body contains blank lines.
\<close>

theorem http_roundtrip:
  assumes "st < 2 ^ 16" and "\<forall>c \<in> set reason. code c < 128 \<and> c \<noteq> CR \<and> c \<noteq> NL" and "\<forall>h \<in> set headers. header_line h"
  shows "parse_http_response (print_response st reason headers bdy)
    = Returns (Some \<lparr>hr_status = st, hr_etag = etag_of headers, hr_body = bdy\<rparr>)"
  by (rule parse_printed_response [OF assms])

theorem http_roundtrip_witness:
  "parse_http_response (print_response 200 ''OK'' [''Etag: x''] [NL, NL])
    = Returns (Some \<lparr>hr_status = 200, hr_etag = etag_of [''Etag: x''], hr_body = [NL, NL]\<rparr>)"
  by (rule http_roundtrip) (simp_all add: header_line_def code_def)

text \<open>
  The digest is 16 characters long and detects every edit of a single byte: two files
  that differ in exactly one byte never have the same digest.
\<close>

theorem digest_detects_byte:
  assumes "b \<noteq> b'"
  shows "config_hash (xs @ b # ys) \<noteq> config_hash (xs @ b' # ys) \<and> length (config_hash (xs @ b # ys)) = 16"
  using assms by (auto simp: config_hash_def dest!: hex16_inject fnv_fold_inject fnv_step_byte)

theorem digest_detects_byte_witness: "config_hash ''ab'' \<noteq> config_hash ''ac''"
  using digest_detects_byte [of "CHR ''b''" "CHR ''c''" "''a''" "[]"] by simp

text \<open>
  A header can stop the poller. The slice of the first five bytes of a header line panics
  when a character straddles it: a response with such a header ends the polling task,
  although a poll failure is meant to be logged and retried.
\<close>

theorem header_panics_poller:
  "fst (run_poller d os version demo_poller
     [Turn_Poll (\<lambda>_ _. Curl_Output \<lparr>co_success = True,
        co_stdout = ''HTTP/1.1 200 OK'' @ [CR, NL] @ ''abcd'' @ [CHR 0xC3, CHR 0xA9] @ [CR, NL, CR, NL] @ ''x'', co_stderr = []\<rparr>) io] disk)
   = Poller_Panicked"
proof -
  let ?l = "''HTTP/1.1 200 OK''" and ?h = "''abcd'' @ [CHR 0xC3, CHR 0xA9]"
  let ?raw = "?l @ [CR, NL] @ ?h @ [CR, NL, CR, NL] @ ''x''"
  have e: "header_end ?raw = Some (23, 4)" by (simp add: header_end_def find_subslice_find_sub)
  have v: "utf8_valid (?l @ [CR, NL] @ ?h)"
  proof -
    have "utf8_valid [CHR 0xC3, CHR 0xA9]" by (simp add: utf8_valid.simps utf8_next.simps is_cont_def code_def)
    moreover have "utf8_valid (?l @ [CR, NL] @ ''abcd'')" by (rule utf8_valid_ascii) (simp add: code_def)
    ultimately show ?thesis using utf8_valid_append [of "?l @ [CR, NL] @ ''abcd''" "[CHR 0xC3, CHR 0xA9]"] by simp
  qed
  have ls: "str_lines (?l @ [CR, NL] @ ?h) = [?l, ?h]"
    using str_lines_crlf [of ?l ?h] str_lines_last [of ?h] by simp
  have "show_nat 200 = ''200''" by (simp add: show_nat.simps digit_chr_def char_of_def bit_simps)
  then have st: "parse_status_code ?l = Some 200" using parse_status_line [of 200 "''OK''"] by simp
  have pa: "find_etag [?h] = Panics" by (simp add: is_char_boundary_def is_cont_def code_def)
  have "parse_http_response ?raw = Panics"
    unfolding parse_http_response_def e using from_utf8_lossy_valid [OF v] ls st pa by (simp del: find_etag.simps)
  then show ?thesis
    by (simp add: run_poller_def demo_poller_def starts_with_def poll_once_def Let_def)
qed

end
