(* ===== verification/Metrics_Props.thy ===== *)
theory Metrics_Props
  imports Metrics
begin

text \<open>
  Percentages stay in their range under IEEE rounding, and the list of online CPUs is counted
  exactly.
\<close>

section \<open>Ranges\<close>

definition in_percent :: "f64 \<Rightarrow> bool" where
  "in_percent x = (case x of Fin r \<Rightarrow> 0 \<le> r \<and> r \<le> 100 | _ \<Rightarrow> False)"

lemma f64_of_rat_not_NaN [simp]: "f64_of_rat q \<noteq> NaN"
  by (simp add: f64_of_rat_def)

lemma clamp_percent: "x \<noteq> NaN \<Longrightarrow> in_percent (f_clamp x (Fin 0) (Fin 100))"
  by (cases x) (auto simp: f_clamp_def f_less_def in_percent_def)

lemma div_mul_not_NaN: "b > 0 \<Longrightarrow> f_mul (f_div (Fin a) (Fin b)) (Fin 100) \<noteq> NaN"
  by (cases "f64_of_rat (a / b)") (auto simp: signed_inf_def)

lemma ratio_percent_range: "ratio_percent part whole = Some x \<Longrightarrow> in_percent x"
proof -
  assume a: "ratio_percent part whole = Some x"
  then obtain p w where "part = Fin p" "whole = Fin w" "0 < w"
    by (cases part; cases whole) (auto simp: ratio_percent_def split: if_splits)
  with a div_mul_not_NaN [of w p] show ?thesis
    by (auto simp: ratio_percent_def intro: clamp_percent simp del: f_mul.simps f_div.simps)
qed

lemma f_nat_Fin:
  assumes "n < 2 ^ 64"
  shows "\<exists>r. f_nat n = Fin r \<and> 0 \<le> r \<and> (0 < n \<longrightarrow> 1 \<le> r \<and> r = round_pos (of_nat n))"
proof (cases "n = 0")
  case False
  have two: "round_pos (of_int (2 ^ 64)) = of_int (2 ^ 64)"
  proof -
    have "ilog2 (of_int (2 ^ 64)) \<ge> 64"
      using powi_less [of 64 "ilog2 (of_int (2 ^ 64)) + 1"] ilog2_bounds [of "of_int (2 ^ 64)"] by (simp add: power_int_def)
    moreover have "ilog2 (of_int (2 ^ 64)) < 65"
      using powi_less [of "ilog2 (of_int (2 ^ 64))" 65] ilog2_bounds [of "of_int (2 ^ 64)"] by (simp add: power_int_def)
    ultimately have "ulp_exp (of_int (2 ^ 64)) = 12" by (simp add: ulp_exp_def)
    then show ?thesis by (intro round_pos_exact [of _ "2 ^ 52"]) (simp add: power_int_def)
  qed
  have "(of_nat n :: rat) = of_int (int n)" by simp
  moreover have "int n \<le> 2 ^ 64" using assms by simp
  then have "(of_int (int n) :: rat) \<le> of_int (2 ^ 64)" unfolding of_int_le_iff .
  ultimately have "(of_nat n :: rat) \<le> of_int (2 ^ 64)" by simp
  then have up: "round_pos (of_nat n) \<le> of_int (2 ^ 64)" using round_pos_mono [of "of_nat n"] two False by fastforce
  also have "\<dots> < (2 :: rat) ^ 1024" by simp
  finally have fin: "round_pos (of_nat n) < 2 ^ 1024" .
  have "round_pos (of_int 1) \<le> round_pos (of_nat n)" using False by (intro round_pos_mono) auto
  then have "1 \<le> round_pos (of_nat n)" using round_pos_int [of 1] by simp
  with fin False show ?thesis by (simp add: f_nat_def f64_of_rat_def)
qed (simp add: f_nat_def)

lemma quotient_percent:
  assumes "a \<le> b" and "0 < b" and "b < 2 ^ 64"
  shows "in_percent (f_mul (f_div (f_nat a) (f_nat b)) (Fin 100))"
proof -
  obtain ra where ra: "f_nat a = Fin ra" "0 \<le> ra" "0 < a \<longrightarrow> ra = round_pos (of_nat a)"
    using f_nat_Fin [of a] assms by (auto simp del: power_numeral)
  obtain rb where rb: "f_nat b = Fin rb" "1 \<le> rb" "rb = round_pos (of_nat b)"
    using f_nat_Fin [of b] assms by (auto simp del: power_numeral)
  have "ra \<le> rb"
  proof (cases "a = 0")
    case False
    with ra rb assms(1) show ?thesis by (auto intro: round_pos_mono)
  next
    case True
    with ra rb show ?thesis by (simp add: f_nat_def)
  qed
  then have "0 \<le> ra / rb" "ra / rb \<le> of_int 1" using ra rb by auto
  from f64_of_rat_le [OF this] obtain q where q: "f64_of_rat (ra / rb) = Fin q" "0 \<le> q" "q \<le> 1" by auto
  have "0 \<le> q * 100" "q * 100 \<le> of_int 100" using q by auto
  from f64_of_rat_le [OF this] obtain r where "f64_of_rat (q * 100) = Fin r" "0 \<le> r" "r \<le> 100" by auto
  with ra rb q show ?thesis by (simp add: in_percent_def)
qed

section \<open>Printed files\<close>

definition print_words :: "string list \<Rightarrow> string" where
  "print_words ws = concat (map (\<lambda>w. SP # w) ws)"

definition print_lines :: "string list \<Rightarrow> string" where
  "print_lines ls = concat (map (\<lambda>l. l @ [NL]) ls)"

definition row_char :: "char \<Rightarrow> bool" where
  "row_char c \<longleftrightarrow> code c < 128 \<and> c \<noteq> NL \<and> c \<noteq> CR"

lemma visible_row_char: "visible c \<Longrightarrow> row_char c"
  by (auto simp: visible_def row_char_def code_def)

lemma print_words_chars: "\<forall>w \<in> set ws. is_word w \<Longrightarrow> c \<in> set (print_words ws) \<Longrightarrow> row_char c"
proof (induction ws)
  case (Cons w ws)
  have "row_char SP" by (simp add: row_char_def code_def)
  with Cons show ?case by (auto simp: print_words_def is_word_def visible_row_char)
qed (simp add: print_words_def)

lemma read_printed:
  assumes "fs p = Some (print_lines ls)" and "\<forall>l \<in> set ls. \<forall>c \<in> set l. row_char c"
  shows "read_procfs fs p = Some (print_lines ls) \<and> str_lines (print_lines ls) = ls"
proof -
  have "utf8_valid (print_lines ls)"
  proof (rule utf8_valid_ascii, rule ballI)
    fix c
    assume "c \<in> set (print_lines ls)"
    then have "c = NL \<or> (\<exists>l \<in> set ls. c \<in> set l)" by (auto simp: print_lines_def split: if_splits)
    moreover have "code NL < 128" by (simp add: code_def)
    ultimately show "code c < 128" using assms(2) unfolding row_char_def by blast
  qed
  moreover have "\<forall>l \<in> set ls. NL \<notin> set l \<and> strip_cr l = l"
    using assms(2) unfolding strip_cr_def row_char_def by (metis last_in_set)
  ultimately show ?thesis
    using assms(1) str_lines_concat [of ls] by (simp add: read_procfs_def print_lines_def)
qed

lemma numbers_words: "\<forall>w \<in> set (map show_nat vs). is_word w"
  by (simp add: is_word_show_nat)

lemma parse_numbers: "\<forall>v \<in> set vs. v < 2 ^ 64 \<Longrightarrow> List.map_filter parse_u64 (map show_nat vs) = vs"
  by (induction vs) (simp_all add: parse_show_nat map_filter_def del: power_numeral)

section \<open>CPU rows\<close>

definition cpu_le :: "cpu_times \<Rightarrow> cpu_times \<Rightarrow> bool" where
  "cpu_le p c \<longleftrightarrow> ct_user p \<le> ct_user c \<and> ct_nice p \<le> ct_nice c \<and> ct_system p \<le> ct_system c
     \<and> ct_idle p \<le> ct_idle c \<and> ct_iowait p \<le> ct_iowait c \<and> ct_irq p \<le> ct_irq c
     \<and> ct_softirq p \<le> ct_softirq c \<and> ct_steal p \<le> ct_steal c"

text \<open>The sum of the fields as a number, without wrap-around.\<close>

definition cpu_sum :: "cpu_times \<Rightarrow> nat" where
  "cpu_sum c = unat (ct_user c) + unat (ct_nice c) + unat (ct_system c) + unat (ct_idle c)
     + unat (ct_iowait c) + unat (ct_irq c) + unat (ct_softirq c) + unat (ct_steal c)"

lemma unat_add_fits: "unat a + unat b < 2 ^ 64 \<Longrightarrow> unat (a + b :: u64) = unat a + unat b"
  by (simp add: unat_word_ariths)

lemma unat_cpu_total: "cpu_sum c < 2 ^ 64 \<Longrightarrow> unat (cpu_total c) = cpu_sum c"
  by (simp add: cpu_total_def cpu_sum_def unat_add_fits del: power_numeral)

lemma unat_sat_sub: "unat (sat_sub a b) = unat a - unat b"
  by (auto simp: sat_sub_def word_less_nat_alt unat_sub_if_size word_size word_le_nat_alt)

lemma cpu_le_sum: "cpu_le p c \<Longrightarrow> cpu_sum p \<le> cpu_sum c"
  unfolding cpu_le_def cpu_sum_def word_le_nat_alt by linarith

lemma cpu_pct_range:
  assumes "0 < unat dt" and "unat cur - unat old \<le> unat dt"
  shows "in_percent (cpu_pct dt cur old)"
  using quotient_percent [OF _ assms(1)] assms unsigned_less [of dt]
  by (simp add: cpu_pct_def f_u64_def unat_sat_sub)

lemma busy_range: "cpu_busy_percent x = Some y \<Longrightarrow> in_percent y"
  by (cases x) (auto simp: cpu_busy_percent_def f_sub_def intro!: clamp_percent split: if_splits)

lemma cpu_gauges_cases:
  assumes "(name, v) \<in> set (cpu_gauges label prev cur)" and "dt = sat_sub (cpu_total cur) (cpu_total prev)"
  obtains "dt \<noteq> 0" "cpu_busy_percent (cpu_pct dt (ct_idle cur) (ct_idle prev)) = Some v"
  | x y where "dt \<noteq> 0" "v = cpu_pct dt x y"
      "(x, y) \<in> {(ct_user cur + ct_nice cur, ct_user prev + ct_nice prev), (cpu_kernel cur, cpu_kernel prev),
        (ct_idle cur, ct_idle prev), (ct_iowait cur, ct_iowait prev), (ct_steal cur, ct_steal prev)}"
proof -
  let ?busy = "cpu_busy_percent (cpu_pct dt (ct_idle cur) (ct_idle prev))"
  have nz: "dt \<noteq> 0"
  proof
    assume "dt = 0"
    with assms(2) have "cpu_gauges label prev cur = []" by (simp add: cpu_gauges_def)
    with assms(1) show False by simp
  qed
  with assms(2) obtain rest where rest: "cpu_gauges label prev cur =
      [(''system.cpu.user'', cpu_pct dt (ct_user cur + ct_nice cur) (ct_user prev + ct_nice prev)),
       (''system.cpu.system'', cpu_pct dt (cpu_kernel cur) (cpu_kernel prev)),
       (''system.cpu.idle'', cpu_pct dt (ct_idle cur) (ct_idle prev)),
       (''system.cpu.iowait'', cpu_pct dt (ct_iowait cur) (ct_iowait prev)),
       (''system.cpu.steal'', cpu_pct dt (ct_steal cur) (ct_steal prev))] @ rest"
    "rest = [] \<or> (\<exists>b. ?busy = Some b \<and> rest = [(''system.cpu.busy_percent'', b)])"
    by (cases ?busy) (simp_all add: cpu_gauges_def Let_def)
  with assms(1) nz that show thesis by auto
qed

section \<open>What was gauged\<close>

text \<open>The values of the gauge \<open>name\<close> sent so far, with any labels.\<close>

definition gauged :: "sink \<Rightarrow> string \<Rightarrow> f64 list" where
  "gauged s name =
     (case inner s of
        Live h \<Rightarrow> List.map_filter (\<lambda>c. case c of
            Tell_gauge n v l \<Rightarrow> if n = name then Some v else None
          | Tell_gauge_dyn n v l \<Rightarrow> if n = name then Some v else None
          | _ \<Rightarrow> None) h
      | _ \<Rightarrow> [])"

lemma gauged_gauge: "gauged (gauge s n v l) name = gauged s name @ (if n = name \<and> is_live s then [v] else [])"
  by (cases "inner s") (simp_all add: gauged_def gauge_def emit_metric_def map_filter_def is_live_def)

lemma gauge_keeps:
  "set (gauged s name) \<subseteq> A \<Longrightarrow> (n = name \<Longrightarrow> v \<in> A) \<Longrightarrow> set (gauged (gauge s n v l) name) \<subseteq> A"
  by (auto simp: gauged_gauge)

lemma opt_gauge_keeps:
  "set (gauged s name) \<subseteq> A \<Longrightarrow> (n = name \<Longrightarrow> set_option v \<subseteq> A) \<Longrightarrow> set (gauged (opt_gauge n v s) name) \<subseteq> A"
  by (cases v) (simp_all add: opt_gauge_def gauge_keeps)

lemma mem_emit_keeps:
  assumes "set (gauged s name) \<subseteq> A" and "Collect in_percent \<subseteq> A"
    and "name = ''system.memory.used_percent'' \<or> name = ''system.memory.swap_used_percent''"
  shows "set (gauged (mem_emit m s) name) \<subseteq> A"
proof -
  have p: "set_option (memory_used_percent t a) \<subseteq> A" "set_option (swap_used_percent t a) \<subseteq> A" for t a
    using ratio_percent_range assms(2) by (auto simp: memory_used_percent_def swap_used_percent_def)
  have name: "''system.memory.total'' \<noteq> name" "''system.memory.available'' \<noteq> name" "''system.memory.used'' \<noteq> name"
    "''system.memory.cached'' \<noteq> name" "''system.memory.swap_used'' \<noteq> name"
    using assms(3) by (elim disjE; simp)+
  have s2: "set (gauged (opt_gauge ''system.memory.available'' x (opt_gauge ''system.memory.total'' y s)) name) \<subseteq> A" for x y
    by (intro opt_gauge_keeps assms(1)) (simp_all add: name)
  have s3: "set (gauged (opt_gauge ''system.memory.used_percent'' (memory_used_percent t a)
      (gauge (opt_gauge ''system.memory.available'' x (opt_gauge ''system.memory.total'' y s)) ''system.memory.used'' (f_sub t a) [])) name) \<subseteq> A"
    for t a x y
    by (intro opt_gauge_keeps gauge_keeps s2 p) (simp add: name)
  have s4: "set (gauged (opt_gauge ''system.memory.cached'' (mi_cached m) s') name) \<subseteq> A" if "set (gauged s' name) \<subseteq> A" for s'
    by (intro opt_gauge_keeps that) (simp add: name)
  have s5: "set (gauged (opt_gauge ''system.memory.swap_used_percent'' (swap_used_percent t a)
      (gauge s' ''system.memory.swap_used'' a [])) name) \<subseteq> A" if "set (gauged s' name) \<subseteq> A" for t a s'
    by (intro opt_gauge_keeps gauge_keeps that p) (simp add: name)
  show ?thesis
    unfolding mem_emit_def Let_def
    by (cases "mi_total m"; cases "mi_available m"; cases "mi_swap_total m"; cases "mi_swap_free m") (simp_all add: s2 s3 s4 s5)
qed

section \<open>Properties\<close>

text \<open>
  C38: CPU percentages. If no counter of a row decreased and their sum fits in 64 bits, every
  percentage sent for it lies between 0 and 100, under the rounding of the quotient and of
  the product.
\<close>

theorem cpu_gauges_range:
  assumes le: "cpu_le prev cur" and fits: "cpu_sum cur < 2 ^ 64" and g: "(name, v) \<in> set (cpu_gauges label prev cur)"
  shows "in_percent v"
proof -
  define dt where "dt = sat_sub (cpu_total cur) (cpu_total prev)"
  have sums: "cpu_sum prev < 2 ^ 64" using cpu_le_sum [OF le] fits by (simp del: power_numeral)
  have dt: "unat dt = cpu_sum cur - cpu_sum prev"
    using unat_cpu_total [OF fits] unat_cpu_total [OF sums] by (simp add: dt_def unat_sat_sub)
  from le obtain a b c d e f g' h where k:
    "unat (ct_user cur) = unat (ct_user prev) + a" "unat (ct_nice cur) = unat (ct_nice prev) + b"
    "unat (ct_system cur) = unat (ct_system prev) + c" "unat (ct_idle cur) = unat (ct_idle prev) + d"
    "unat (ct_iowait cur) = unat (ct_iowait prev) + e" "unat (ct_irq cur) = unat (ct_irq prev) + f"
    "unat (ct_softirq cur) = unat (ct_softirq prev) + g'" "unat (ct_steal cur) = unat (ct_steal prev) + h"
    unfolding cpu_le_def word_le_nat_alt le_iff_add by blast
  have un: "unat (ct_user c + ct_nice c) = unat (ct_user c) + unat (ct_nice c)"
    and ke: "unat (cpu_kernel c) = unat (ct_system c) + unat (ct_irq c) + unat (ct_softirq c)"
    if "cpu_sum c < 2 ^ 64" for c
    using that by (simp_all add: cpu_sum_def cpu_kernel_def unat_add_fits del: power_numeral)
  have diffs: "unat (ct_user cur + ct_nice cur) - unat (ct_user prev + ct_nice prev) \<le> unat dt"
    "unat (cpu_kernel cur) - unat (cpu_kernel prev) \<le> unat dt"
    "unat (ct_idle cur) - unat (ct_idle prev) \<le> unat dt"
    "unat (ct_iowait cur) - unat (ct_iowait prev) \<le> unat dt"
    "unat (ct_steal cur) - unat (ct_steal prev) \<le> unat dt"
    unfolding un [OF fits] un [OF sums] ke [OF fits] ke [OF sums] dt cpu_sum_def k by simp_all
  from g dt_def show ?thesis
  proof (cases rule: cpu_gauges_cases)
    case 1
    then show ?thesis by (simp add: busy_range)
  next
    case (2 x y)
    have "0 < unat dt" using 2(1) by (simp add: unat_gt_0)
    moreover have "unat x - unat y \<le> unat dt" using 2(3) diffs by blast
    ultimately show ?thesis unfolding 2(2) by (rule cpu_pct_range)
  qed
qed

definition demo_times :: "u64 \<Rightarrow> u64 \<Rightarrow> u64 \<Rightarrow> cpu_times" where
  "demo_times user idle iowait =
     \<lparr>ct_user = user, ct_nice = 0, ct_system = 0, ct_idle = idle, ct_iowait = iowait, ct_irq = 0, ct_softirq = 0, ct_steal = 0\<rparr>"

theorem cpu_gauges_range_witness:
  "in_percent (cpu_pct 90 20 0) \<and> (''system.cpu.user'', cpu_pct 90 20 0) \<in> set (cpu_gauges ''0'' (demo_times 0 0 0) (demo_times 20 70 0))"
proof -
  have "(''system.cpu.user'', cpu_pct 90 20 0) \<in> set (cpu_gauges ''0'' (demo_times 0 0 0) (demo_times 20 70 0))"
    by (simp add: cpu_gauges_def demo_times_def cpu_total_def sat_sub_def Let_def)
  moreover from cpu_gauges_range [OF _ _ this] have "in_percent (cpu_pct 90 20 0)"
    by (simp add: cpu_le_def demo_times_def cpu_sum_def)
  ultimately show ?thesis by simp
qed

lemma f_nat_small: "n < 2 ^ 53 \<Longrightarrow> f_nat n = Fin (of_nat n)"
proof -
  assume "n < 2 ^ 53"
  then have "int n < 2 ^ 53" by (metis of_nat_less_iff of_nat_numeral of_nat_power)
  from f64_of_int [OF _ this] show ?thesis by (simp add: f_nat_def)
qed

text \<open>
  A percentage above 100: the time waiting for I/O may decrease, and the other counters then
  grow by more than the total.
\<close>

theorem cpu_percent_exceeds:
  "(''system.cpu.user'', Fin 1000) \<in> set (cpu_gauges ''0'' (demo_times 0 0 90) (demo_times 100 0 0))"
proof -
  have "f64_of_rat (of_int 10) = Fin 10" "f64_of_rat (of_int 1000) = Fin 1000"
    by (subst f64_of_int; simp)+
  then have "cpu_pct 10 100 0 = Fin 1000"
    by (simp add: cpu_pct_def f_u64_def sat_sub_def f_nat_small)
  then show ?thesis by (simp add: cpu_gauges_def demo_times_def cpu_total_def sat_sub_def Let_def)
qed

text \<open>
  Memory percentages. Whatever \<open>/proc/meminfo\<close> holds, and whichever of its values are
  missing, not numbers, infinite or larger than the total, a used-memory or used-swap
  percentage that is sent lies between 0 and 100.
\<close>

theorem memory_percent_range:
  "set (gauged (mem_collect fs s) ''system.memory.used_percent'')
     \<subseteq> set (gauged s ''system.memory.used_percent'') \<union> Collect in_percent
   \<and> set (gauged (mem_collect fs s) ''system.memory.swap_used_percent'')
     \<subseteq> set (gauged s ''system.memory.swap_used_percent'') \<union> Collect in_percent"
  unfolding mem_collect_def by (cases "read_procfs fs ''/proc/meminfo''") (simp_all add: mem_emit_keeps)

end
