(* ===== verification/Metrics_Deltas.thy ===== *)
theory Metrics_Deltas
  imports Metrics_Net Metrics_Props
begin

text \<open>
  The collectors that turn kernel counters into deltas. The locale \<open>delta_rows\<close> is the contract
  of one row of such a file: a reading of a device replaces the previous one, and the
  difference to it is sent. It is interpreted on the rows of \<open>/proc/net/dev\<close> and of
  \<open>/proc/diskstats\<close>. The values sent for a device then add up to the growth of its counter.
\<close>

section \<open>What was counted\<close>

text \<open>The values of the delta counter \<open>name\<close> sent with the labels \<open>ls\<close>, in order.\<close>

definition counted :: "sink \<Rightarrow> string \<Rightarrow> labels \<Rightarrow> f64 list" where
  "counted s name ls =
     (case inner s of
        Live h \<Rightarrow> List.map_filter (\<lambda>c. case c of
            Tell_counter_dyn n v l \<Rightarrow> if n = name \<and> l = tags s @ ls then Some v else None
          | _ \<Rightarrow> None) h
      | _ \<Rightarrow> [])"

definition values_of :: "string \<Rightarrow> (string \<times> f64) list \<Rightarrow> f64 list" where
  "values_of name cs = map snd (filter (\<lambda>(n, v). n = name) cs)"

lemma counter_dyn_live:
  assumes "is_live s"
  shows "is_live (counter_dyn s name v ls)" and "tags (counter_dyn s name v ls) = tags s"
    and "counted (counter_dyn s n v l) name ls = counted s name ls @ (if n = name \<and> l = ls then [v] else [])"
  using assms
  by (auto simp: is_live_def counter_dyn_def emit_metric_def counted_def with_merged_append map_filter_def)

lemma emit_counters_live:
  assumes "is_live s"
  shows "is_live (emit_counters_dyn l cs s) \<and> tags (emit_counters_dyn l cs s) = tags s
    \<and> counted (emit_counters_dyn l cs s) name ls = counted s name ls @ (if l = ls then values_of name cs else [])"
  using assms
proof (induction cs arbitrary: s)
  case (Cons c cs)
  obtain n v where c: "c = (n, v)" by (cases c)
  from Cons.IH [of "counter_dyn s n v l"] counter_dyn_live [OF Cons.prems] show ?case
    by (auto simp: emit_counters_dyn_def c values_of_def)
qed (simp add: emit_counters_dyn_def values_of_def)

section \<open>Rows\<close>

definition steps_of :: "'a list \<Rightarrow> ('a \<times> 'a) list" where
  "steps_of xs = zip xs (tl xs)"

lemma steps_of_Cons2 [simp]: "steps_of (x # y # ys) = (x, y) # steps_of (y # ys)"
  by (simp add: steps_of_def)

lemma steps_of_short [simp]: "steps_of [] = []" "steps_of [x] = []"
  by (simp_all add: steps_of_def)

definition readings_of :: "('l \<Rightarrow> (string \<times> 'st) option) \<Rightarrow> string \<Rightarrow> 'l list \<Rightarrow> 'st list" where
  "readings_of reading k ls =
     List.map_filter (\<lambda>l. case reading l of Some (k', st) \<Rightarrow> if k' = k then Some st else None | None \<Rightarrow> None) ls"

lemma readings_of_simps [simp]:
  "readings_of reading k [] = []"
  "reading l = None \<Longrightarrow> readings_of reading k (l # ls) = readings_of reading k ls"
  "reading l = Some (k', st) \<Longrightarrow>
     readings_of reading k (l # ls) = (if k' = k then [st] else []) @ readings_of reading k ls"
  by (simp_all add: readings_of_def map_filter_def)

lemma readings_of_append: "readings_of reading k (xs @ ys) = readings_of reading k xs @ readings_of reading k ys"
  by (simp add: readings_of_def map_filter_def)

locale delta_rows =
  fixes line :: "'l \<Rightarrow> sink \<times> (string, 'st) hash_map \<Rightarrow> sink \<times> (string, 'st) hash_map"
    and reading :: "'l \<Rightarrow> (string \<times> 'st) option"
    and deltas :: "'st \<Rightarrow> 'st \<Rightarrow> (string \<times> f64) list"
    and label :: string
  assumes no_reading: "reading l = None \<Longrightarrow> line l st = st"
    and first_reading: "reading l = Some (k, cur) \<Longrightarrow> map_of prev k = None \<Longrightarrow>
          line l (s, prev) = (s, AList.update k cur prev)"
    and next_reading: "reading l = Some (k, cur) \<Longrightarrow> map_of prev k = Some p \<Longrightarrow>
          line l (s, prev) = (emit_counters_dyn [(label, k)] (deltas p cur) s, AList.update k cur prev)"
begin

lemma fold_rows:
  assumes "is_live s"
  shows "case fold line ls (s, prev) of (s', prev') \<Rightarrow>
    (let xs = (case map_of prev k of Some p \<Rightarrow> [p] | None \<Rightarrow> []) @ readings_of reading k ls in
       is_live s' \<and> tags s' = tags s
     \<and> map_of prev' k = (if xs = [] then None else Some (last xs))
     \<and> counted s' name [(label, k)]
         = counted s name [(label, k)] @ concat (map (\<lambda>(p, c). values_of name (deltas p c)) (steps_of xs)))"
  using assms
proof (induction ls arbitrary: s prev)
  case Nil
  then show ?case by (simp split: option.splits)
next
  case (Cons l ls)
  show ?case
  proof (cases "reading l")
    case None
    with Cons.IH [OF Cons.prems, of prev] show ?thesis by (simp add: no_reading)
  next
    case (Some r)
    obtain k' cur where r: "r = (k', cur)" by (cases r)
    note known = Some [unfolded r]
    show ?thesis
    proof (cases "map_of prev k'")
      case None
      from Cons.IH [OF Cons.prems, of "AList.update k' cur prev"] show ?thesis
        using None by (cases "k' = k") (simp_all add: first_reading [OF known None] known update_conv' None [simplified])
    next
      case (Some p)
      let ?s = "emit_counters_dyn [(label, k')] (deltas p cur) s"
      note live = emit_counters_live [OF Cons.prems, of "[(label, k')]" "deltas p cur" name "[(label, k)]"]
      from Cons.IH [of ?s "AList.update k' cur prev"] live show ?thesis
        using Some by (cases "k' = k") (simp_all add: next_reading [OF known Some] known update_conv' Let_def)
    qed
  qed
qed

end

section \<open>Network and disk rows\<close>

definition net_reading :: "deps \<Rightarrow> device_filter \<Rightarrow> string \<Rightarrow> (string \<times> net_stats) option" where
  "net_reading d flt line =
     (case split_once (CHR '':'') line of
        None \<Rightarrow> None
      | Some (name, stats) \<Rightarrow>
          if device_allows d flt (trim name) then map_option (Pair (trim name)) (parse_net_stats stats) else None)"

definition disk_reading :: "deps \<Rightarrow> device_filter \<Rightarrow> string \<Rightarrow> (string \<times> disk_stats) option" where
  "disk_reading d flt line =
     (case parse_diskstats_line line of
        Some (name, Some st) \<Rightarrow> if device_allows d flt name then Some (name, st) else None
      | _ \<Rightarrow> None)"

interpretation net_rows: delta_rows "net_line d flt" "net_reading d flt" net_deltas "''interface''" for d flt
  by unfold_locales
    (auto simp: net_line_def net_reading_def Let_def split: option.splits prod.splits if_splits)

interpretation disk_rows: delta_rows "diskstats_line d flt" "disk_reading d flt" disk_deltas "''device''" for d flt
  by unfold_locales
    (auto simp: diskstats_line_def disk_reading_def Let_def split: option.splits prod.splits if_splits)

section \<open>Sums\<close>

fun f_val :: "f64 \<Rightarrow> rat" where
  "f_val (Fin r) = r"
| "f_val _ = 0"

definition counted_sum :: "sink \<Rightarrow> string \<Rightarrow> labels \<Rightarrow> rat" where
  "counted_sum s name ls = sum_list (map f_val (counted s name ls))"

text \<open>The growth of a counter over its readings; a reading below the previous one adds nothing.\<close>

definition growth :: "('st \<Rightarrow> nat) \<Rightarrow> 'st list \<Rightarrow> nat" where
  "growth g xs = sum_list (map (\<lambda>(p, c). g c - g p) (steps_of xs))"

lemma growth_monotone:
  "sorted (map g xs) \<Longrightarrow> xs \<noteq> [] \<Longrightarrow> growth g xs = g (last xs) - g (hd xs)"
proof (induction xs rule: induct_list012)
  case (3 x y zs)
  then have "growth g (y # zs) = g (last (y # zs)) - g y" "g x \<le> g y" by auto
  moreover have "g y \<le> g (last (y # zs))"
  proof -
    have "g (last (y # zs)) \<in> set (map g (y # zs))" using last_in_set [of "y # zs"] by auto
    then show ?thesis using 3(3) by auto
  qed
  ultimately show ?case by (simp add: growth_def)
qed (simp_all add: growth_def)

lemma steps_of_set: "(p, c) \<in> set (steps_of xs) \<Longrightarrow> p \<in> set xs \<and> c \<in> set xs"
  by (auto simp: steps_of_def dest: set_zip_leftD set_zip_rightD intro: list.set_sel(2) simp: neq_Nil_conv)

lemma sum_concat_steps:
  assumes "\<forall>(p, c) \<in> set (steps_of xs). sum_list (map f_val (values (p, c))) = of_nat (g c - g p)"
  shows "sum_list (map f_val (concat (map values (steps_of xs)))) = of_nat (growth g xs)"
proof -
  have "sum_list (map f_val (concat (map values zs))) = of_nat (sum_list (map (\<lambda>(p, c). g c - g p) zs))"
    if "\<forall>(p, c) \<in> set zs. sum_list (map f_val (values (p, c))) = of_nat (g c - g p)" for zs
    using that by (induction zs) auto
  with assms show ?thesis by (simp add: growth_def)
qed

lemma int_less_pow: "n < 2 ^ k \<Longrightarrow> int n < 2 ^ k"
  by (metis of_nat_less_iff of_nat_numeral of_nat_power)

lemma f_u64_small: "unat x < 2 ^ 53 \<Longrightarrow> f_u64 x = Fin (of_nat (unat x))"
proof -
  assume "unat x < 2 ^ 53"
  then have "int (unat x) < 2 ^ 53" by (rule int_less_pow)
  from f64_of_int [OF _ this] show ?thesis by (simp add: f_u64_def f_nat_def)
qed

lemma f_val_delta: "unat c < 2 ^ 53 \<Longrightarrow> f_val (f_u64 (sat_sub c p)) = of_nat (unat c - unat p)"
  by (simp add: f_u64_small unat_sat_sub)

section \<open>Counters of an interface\<close>

definition net_fields :: "(string \<times> (net_stats \<Rightarrow> u64)) list" where
  "net_fields =
     [(''system.net.bytes_recv'', ns_rx_bytes), (''system.net.bytes_sent'', ns_tx_bytes),
      (''system.net.packets_recv'', ns_rx_packets), (''system.net.packets_sent'', ns_tx_packets),
      (''system.net.errors_recv'', ns_rx_errors), (''system.net.errors_sent'', ns_tx_errors),
      (''system.net.drops_recv'', ns_rx_drops), (''system.net.drops_sent'', ns_tx_drops)]"

lemma net_values: "(name, g) \<in> set net_fields \<Longrightarrow> values_of name (net_deltas p c) = [f_u64 (sat_sub (g c) (g p))]"
  by (auto simp: net_fields_def net_deltas_def values_of_def)

definition net_lines :: "procfs list \<Rightarrow> string list" where
  "net_lines fss = concat (map (\<lambda>fs. case read_procfs fs ''/proc/net/dev'' of Some buf \<Rightarrow> str_lines buf | None \<Rightarrow> []) fss)"

lemma fold_net_collect: "fold (net_collect d flt) fss st = fold (net_line d flt) (net_lines fss) st"
  by (induction fss arbitrary: st) (auto simp: net_lines_def net_collect_def split: option.splits)

section \<open>Counters of a device\<close>

text \<open>The counters with the factor they are sent with: the kernel counts sectors of 512 bytes.\<close>

definition disk_fields :: "(string \<times> (disk_stats \<Rightarrow> u64) \<times> nat) list" where
  "disk_fields =
     [(''system.disk.read_bytes'', ds_sectors_read, 512), (''system.disk.write_bytes'', ds_sectors_written, 512),
      (''system.disk.read_ops'', ds_reads_completed, 1), (''system.disk.write_ops'', ds_writes_completed, 1)]"

lemma f_mul_sectors: "n * 512 < 2 ^ 53 \<Longrightarrow> f_mul (Fin (of_nat n)) SECTOR_SIZE = Fin (of_nat (n * 512))"
proof -
  assume "n * 512 < 2 ^ 53"
  then have "int (n * 512) < 2 ^ 53" by (rule int_less_pow)
  then have "f64_of_rat (of_int (int (n * 512))) = Fin (of_int (int (n * 512)))" by (intro f64_of_int) auto
  then show ?thesis by (simp add: SECTOR_SIZE_def)
qed

lemma f_val_sectors:
  assumes "unat c * 512 < 2 ^ 53"
  shows "f_mul (f_u64 (sat_sub c p)) SECTOR_SIZE = Fin (of_nat ((unat c - unat p) * 512))"
proof -
  have less: "(unat c - unat p) * 512 < 2 ^ 53"
    using assms by (rule le_less_trans [OF mult_le_mono1 [OF diff_le_self]])
  have "unat (sat_sub c p) < 2 ^ 53" unfolding unat_sat_sub by (rule le_less_trans [OF _ less]) simp
  from f_mul_sectors [OF less] f_u64_small [OF this] show ?thesis by (simp only: unat_sat_sub)
qed

definition disk_row :: "disk_stats \<Rightarrow> disk_stats \<Rightarrow> (string \<times> f64) list" where
  "disk_row p c =
     map (\<lambda>(name, g, k). (name,
        if k = 512 then f_mul (f_u64 (sat_sub (g c) (g p))) SECTOR_SIZE else f_u64 (sat_sub (g c) (g p)))) disk_fields"

lemma disk_deltas_row:
  "disk_deltas p c = (if \<exists>(n, v) \<in> set (disk_row p c). f_less (Fin 0) v then disk_row p c else [])"
  by (simp add: disk_deltas_def disk_row_def disk_fields_def Let_def del: f_mul.simps)

lemma disk_row_values:
  "(name, g, k) \<in> set disk_fields \<Longrightarrow> values_of name (disk_row p c) =
     [if k = 512 then f_mul (f_u64 (sat_sub (g c) (g p))) SECTOR_SIZE else f_u64 (sat_sub (g c) (g p))]"
  unfolding disk_row_def disk_fields_def by (elim set_ConsD [elim_format] disjE) (simp_all add: values_of_def del: f_mul.simps)

lemma disk_values:
  assumes "(name, g, k) \<in> set disk_fields" and "unat (g c) * k < 2 ^ 53"
  shows "sum_list (map f_val (values_of name (disk_deltas p c))) = of_nat ((unat (g c) - unat (g p)) * k)"
proof -
  let ?v = "if k = 512 then f_mul (f_u64 (sat_sub (g c) (g p))) SECTOR_SIZE else f_u64 (sat_sub (g c) (g p))"
  have k: "k = 512 \<or> k = 1" using assms(1) by (auto simp: disk_fields_def)
  have v: "?v = Fin (of_nat ((unat (g c) - unat (g p)) * k))"
  proof (cases "k = 512")
    case True
    with assms(2) f_val_sectors [of "g c" "g p"] show ?thesis by (simp del: f_mul.simps power_numeral)
  next
    case False
    with k assms(2) have "unat (sat_sub (g c) (g p)) < 2 ^ 53" by (simp add: unat_sat_sub del: power_numeral)
    with False k f_u64_small [OF this] show ?thesis by (simp add: unat_sat_sub)
  qed
  note row = disk_row_values [OF assms(1), of p c]
  have "(name, ?v) \<in> set (disk_row p c)" using assms(1) by (force simp: disk_row_def)
  then have r: "(name, Fin (of_nat ((unat (g c) - unat (g p)) * k))) \<in> set (disk_row p c)" unfolding v .
  show ?thesis
  proof (cases "\<exists>(n, v) \<in> set (disk_row p c). f_less (Fin 0) v")
    case True
    with row v show ?thesis by (simp add: disk_deltas_row)
  next
    case False
    with r have "\<not> f_less (Fin 0) (Fin (of_nat ((unat (g c) - unat (g p)) * k)))" by blast
    then have "(of_nat ((unat (g c) - unat (g p)) * k) :: rat) = 0" by (simp add: f_less_def)
    with False show ?thesis by (simp only: disk_deltas_row if_False) (simp add: values_of_def)
  qed
qed

definition disk_lines :: "procfs list \<Rightarrow> string list" where
  "disk_lines fss = concat (map (\<lambda>fs. case read_procfs fs ''/proc/diskstats'' of Some buf \<Rightarrow> str_lines buf | None \<Rightarrow> []) fss)"

section \<open>Printed rows\<close>

definition net_row :: "string \<Rightarrow> nat list \<Rightarrow> string" where
  "net_row iface vs = iface @ '':'' @ print_words (map show_nat vs)"

lemma net_reading_row:
  assumes "is_word iface" and "CHR '':'' \<notin> set iface" and "12 \<le> length vs" and "\<forall>v \<in> set vs. v < 2 ^ 64"
    and "device_allows d flt iface"
  shows "net_reading d flt (net_row iface vs) =
    Some (iface, \<lparr>ns_rx_bytes = of_nat (vs ! 0), ns_rx_packets = of_nat (vs ! 1), ns_rx_errors = of_nat (vs ! 2),
                 ns_rx_drops = of_nat (vs ! 3), ns_tx_bytes = of_nat (vs ! 8), ns_tx_packets = of_nat (vs ! 9),
                 ns_tx_errors = of_nat (vs ! 10), ns_tx_drops = of_nat (vs ! 11)\<rparr>)"
proof -
  have "split_once (CHR '':'') (net_row iface vs) = Some (iface, print_words (map show_nat vs))"
    using split_once_append [OF assms(2)] by (simp add: net_row_def)
  moreover have "trim iface = iface" using assms(1) by (intro trim_visible) (simp add: is_word_def visible_def)
  moreover have "split_whitespace (print_words (map show_nat vs)) = map show_nat vs"
    unfolding print_words_def by (rule split_whitespace_words [OF numbers_words])
  ultimately show ?thesis
    using assms(3,5) parse_numbers [OF assms(4)] by (simp add: net_reading_def parse_net_stats_def Let_def)
qed

section \<open>Properties\<close>

lemma fold_diskstats:
  "fold (\<lambda>fs st. case read_procfs fs ''/proc/diskstats'' of Some buf \<Rightarrow> collect_diskstats d flt buf st | None \<Rightarrow> st) fss st
     = fold (diskstats_line d flt) (disk_lines fss) st"
  by (induction fss arbitrary: st) (auto simp: disk_lines_def collect_diskstats_def split: option.splits)

text \<open>
  C23: The network collector refines a cumulative counter per interface. Over any sequence of
  collections, whatever the files hold, the last reading of an interface is remembered, and
  the deltas sent for each of its eight counters add up to the growth of the kernel's counter
  over the readings, where a counter that was reset adds nothing; for a counter that never
  decreases this is the last reading minus the first. The sums are exact for counters below
  \<open>2 ^ 53\<close>.
\<close>

theorem net_counters_refine:
  assumes "is_live s" and "fold (net_collect d flt) fss (s, []) = (s', prev')" and "(name, g) \<in> set net_fields"
    and "xs = readings_of (net_reading d flt) iface (net_lines fss)" and "\<forall>x \<in> set xs. unat (g x) < 2 ^ 53"
  shows "map_of prev' iface = (if xs = [] then None else Some (last xs))
    \<and> counted_sum s' name [(''interface'', iface)]
        = counted_sum s name [(''interface'', iface)] + of_nat (growth (\<lambda>x. unat (g x)) xs)
    \<and> (xs \<noteq> [] \<and> sorted (map (\<lambda>x. unat (g x)) xs)
         \<longrightarrow> growth (\<lambda>x. unat (g x)) xs = unat (g (last xs)) - unat (g (hd xs)))"
proof -
  have "\<forall>(p, c) \<in> set (steps_of xs). sum_list (map f_val (case (p, c) of (p, c) \<Rightarrow> values_of name (net_deltas p c)))
      = of_nat (unat (g c) - unat (g p))"
    using assms(5) steps_of_set [of _ _ xs] by (auto simp: net_values [OF assms(3)] f_val_delta simp del: power_numeral)
  from sum_concat_steps [OF this] net_rows.fold_rows [OF assms(1), where ls = "net_lines fss" and prev = "[]" and k = iface and name = name and d = d and flt = flt]
    growth_monotone [of "\<lambda>x. unat (g x)" xs] show ?thesis
    by (simp add: assms(4) [symmetric] assms(2) [unfolded fold_net_collect] Let_def counted_sum_def)
qed

definition demo_net :: "nat \<Rightarrow> procfs" where
  "demo_net n = (\<lambda>p. if p = ''/proc/net/dev'' then Some (print_lines [net_row ''eth0'' ([n] @ replicate 15 7)]) else None)"

lemma demo_net_lines: "net_lines [demo_net n] = [net_row ''eth0'' ([n] @ replicate 15 7)]"
proof -
  have "\<forall>c \<in> set (net_row ''eth0'' ([n] @ replicate 15 7)). row_char c"
    using print_words_chars [OF numbers_words, of _ "[n] @ replicate 15 7"]
    by (auto simp: net_row_def row_char_def code_def simp del: map_append)
  with read_printed [of "demo_net n" "''/proc/net/dev''" "[net_row ''eth0'' ([n] @ replicate 15 7)]"]
  show ?thesis by (simp add: net_lines_def demo_net_def del: append_Cons)
qed

theorem net_counters_refine_witness:
  "counted_sum (fst (fold (net_collect ref_deps \<lparr>df_include = [], df_exclude = []\<rparr>)
       [demo_net 100, demo_net 150, demo_net 400] (\<lparr>inner = Live [], tags = []\<rparr>, [])))
     ''system.net.bytes_recv'' [(''interface'', ''eth0'')] = 300"
proof -
  let ?flt = "\<lparr>df_include = [], df_exclude = []\<rparr> :: device_filter"
  let ?fss = "[demo_net 100, demo_net 150, demo_net 400]"
  let ?s = "\<lparr>inner = Live [], tags = []\<rparr> :: sink"
  have one: "\<exists>x. net_reading ref_deps ?flt (net_row ''eth0'' ([n] @ replicate 15 7)) = Some (''eth0'', x) \<and> ns_rx_bytes x = of_nat n"
    if "n < 2 ^ 64" for n
    using that net_reading_row [of "''eth0''" "[n] @ replicate 15 7" ref_deps ?flt]
    by (simp add: is_word_def visible_def code_def device_allows_def)
  have "net_lines ?fss = net_lines [demo_net 100] @ net_lines [demo_net 150] @ net_lines [demo_net 400]"
    by (simp add: net_lines_def)
  with one [of 100] one [of 150] one [of 400]
  have xs: "map (\<lambda>x. unat (ns_rx_bytes x)) (readings_of (net_reading ref_deps ?flt) ''eth0'' (net_lines ?fss)) = [100, 150, 400]"
    by (auto simp: demo_net_lines)
  obtain s' prev' where run: "fold (net_collect ref_deps ?flt) ?fss (?s, []) = (s', prev')" by (rule prod.exhaust)
  from xs obtain x y z where
    r: "readings_of (net_reading ref_deps ?flt) ''eth0'' (net_lines ?fss) = [x, y, z]"
    "unat (ns_rx_bytes x) = 100" "unat (ns_rx_bytes y) = 150" "unat (ns_rx_bytes z) = 400"
    by (auto simp: map_eq_Cons_conv)
  show ?thesis
    using net_counters_refine [OF _ run _ refl, of "''system.net.bytes_recv''" ns_rx_bytes "''eth0''", unfolded r(1)] r run
    by (simp add: is_live_def net_fields_def counted_sum_def counted_def map_filter_def)
qed

text \<open>
  The disk collector refines a cumulative counter per device. The operations and the bytes
  it sends for a device, which leaves out rows in which nothing changed, add up to the growth
  of the kernel's counters over the readings, sectors counted as 512 bytes.
\<close>

theorem disk_counters_refine:
  assumes "is_live s"
    and "fold (\<lambda>fs st. case read_procfs fs ''/proc/diskstats'' of
           Some buf \<Rightarrow> collect_diskstats d flt buf st | None \<Rightarrow> st) fss (s, []) = (s', prev')"
    and "(name, g, k) \<in> set disk_fields"
    and "xs = readings_of (disk_reading d flt) dev (disk_lines fss)" and "\<forall>x \<in> set xs. unat (g x) * k < 2 ^ 53"
  shows "map_of prev' dev = (if xs = [] then None else Some (last xs))
    \<and> counted_sum s' name [(''device'', dev)]
        = counted_sum s name [(''device'', dev)] + of_nat (growth (\<lambda>x. unat (g x) * k) xs)
    \<and> (xs \<noteq> [] \<and> sorted (map (\<lambda>x. unat (g x) * k) xs)
         \<longrightarrow> growth (\<lambda>x. unat (g x) * k) xs = unat (g (last xs)) * k - unat (g (hd xs)) * k)"
proof -
  have "\<forall>(p, c) \<in> set (steps_of xs). sum_list (map f_val (case (p, c) of (p, c) \<Rightarrow> values_of name (disk_deltas p c)))
      = of_nat (unat (g c) * k - unat (g p) * k)"
    using assms(5) steps_of_set [of _ _ xs] by (auto simp: disk_values [OF assms(3)] diff_mult_distrib simp del: power_numeral)
  from sum_concat_steps [OF this]
    disk_rows.fold_rows [OF assms(1), where ls = "disk_lines fss" and prev = "[]" and k = dev and name = name and d = d and flt = flt]
    growth_monotone [of "\<lambda>x. unat (g x) * k" xs] show ?thesis
    by (simp add: assms(4) [symmetric] assms(2) [unfolded fold_diskstats] Let_def counted_sum_def)
qed

definition disk_row_text :: "string \<Rightarrow> nat list \<Rightarrow> string" where
  "disk_row_text dev vs = print_words ([''8'', ''0'', dev] @ map show_nat vs)"

lemma disk_reading_row:
  assumes "is_word dev" and "length vs = 11" and "\<forall>v \<in> set vs. v < 2 ^ 64" and "device_allows d flt dev"
  shows "disk_reading d flt (disk_row_text dev vs) =
    Some (dev, \<lparr>ds_reads_completed = of_nat (vs ! 0), ds_sectors_read = of_nat (vs ! 2),
               ds_writes_completed = of_nat (vs ! 4), ds_sectors_written = of_nat (vs ! 6)\<rparr>)"
proof -
  have "\<forall>w \<in> set ([''8'', ''0'', dev] @ map show_nat vs). is_word w"
    using assms(1) is_word_show_nat by (auto simp: is_word_def visible_def code_def)
  then have "split_whitespace (disk_row_text dev vs) = [''8'', ''0'', dev] @ map show_nat vs"
    unfolding disk_row_text_def print_words_def by (rule split_whitespace_words)
  moreover have "parse_or_zero (show_nat (vs ! i)) = of_nat (vs ! i)" if "i < 11" for i
    using that assms(2,3) by (simp add: parse_or_zero_def parse_show_nat del: power_numeral)
  ultimately show ?thesis
    using assms(2,4) by (simp add: disk_reading_def parse_diskstats_line_def Let_def)
qed

definition demo_disk_row :: "nat \<Rightarrow> string" where
  "demo_disk_row n = disk_row_text ''sda'' ([3, 3, n] @ replicate 8 5)"

definition demo_disk :: "nat \<Rightarrow> procfs" where
  "demo_disk n = (\<lambda>p. if p = ''/proc/diskstats'' then Some (print_lines [demo_disk_row n]) else None)"

lemma demo_disk_lines: "disk_lines [demo_disk n] = [demo_disk_row n]"
proof -
  have "\<forall>w \<in> set ([''8'', ''0'', ''sda''] @ map show_nat ([3, 3, n] @ replicate 8 5)). is_word w"
    using is_word_show_nat by (auto simp: is_word_def visible_def code_def)
  from print_words_chars [OF this]
  have "\<forall>c \<in> set (demo_disk_row n). row_char c"
    unfolding demo_disk_row_def disk_row_text_def by blast
  with read_printed [of "demo_disk n" "''/proc/diskstats''" "[demo_disk_row n]"]
  show ?thesis by (simp add: disk_lines_def demo_disk_def del: append_Cons)
qed

theorem disk_counters_refine_witness:
  "counted_sum (fst (fold (\<lambda>fs st. case read_procfs fs ''/proc/diskstats'' of
         Some buf \<Rightarrow> collect_diskstats ref_deps \<lparr>df_include = [], df_exclude = []\<rparr> buf st | None \<Rightarrow> st)
       [demo_disk 10, demo_disk 10, demo_disk 14] (\<lparr>inner = Live [], tags = []\<rparr>, [])))
     ''system.disk.read_bytes'' [(''device'', ''sda'')] = 2048"
proof -
  let ?flt = "\<lparr>df_include = [], df_exclude = []\<rparr> :: device_filter"
  let ?fss = "[demo_disk 10, demo_disk 10, demo_disk 14]"
  let ?s = "\<lparr>inner = Live [], tags = []\<rparr> :: sink"
  let ?run = "\<lambda>fs st. case read_procfs fs ''/proc/diskstats'' of Some buf \<Rightarrow> collect_diskstats ref_deps ?flt buf st | None \<Rightarrow> st"
  have one: "\<exists>x. disk_reading ref_deps ?flt (demo_disk_row n) = Some (''sda'', x)
      \<and> ds_sectors_read x = of_nat n" if "n < 2 ^ 64" for n
    using that disk_reading_row [of "''sda''" "[3, 3, n] @ replicate 8 5" ref_deps ?flt]
    by (simp add: is_word_def visible_def code_def device_allows_def demo_disk_row_def)
  have "disk_lines ?fss = disk_lines [demo_disk 10] @ disk_lines [demo_disk 10] @ disk_lines [demo_disk 14]"
    by (simp add: disk_lines_def)
  with one [of 10] one [of 14]
  have xs: "map (\<lambda>x. unat (ds_sectors_read x)) (readings_of (disk_reading ref_deps ?flt) ''sda'' (disk_lines ?fss)) = [10, 10, 14]"
    by (auto simp: demo_disk_lines)
  obtain s' prev' where run: "fold ?run ?fss (?s, []) = (s', prev')" by (rule prod.exhaust)
  from xs obtain x y z where
    r: "readings_of (disk_reading ref_deps ?flt) ''sda'' (disk_lines ?fss) = [x, y, z]"
    "unat (ds_sectors_read x) = 10" "unat (ds_sectors_read y) = 10" "unat (ds_sectors_read z) = 14"
    by (auto simp: map_eq_Cons_conv)
  show ?thesis
    using disk_counters_refine [OF _ run _ refl, of "''system.disk.read_bytes''" ds_sectors_read 512 "''sda''", unfolded r(1)] r run
    by (simp add: is_live_def disk_fields_def counted_sum_def counted_def map_filter_def)
qed

end
