(* ===== verification/Agent_Props.thy ===== *)
theory Agent_Props
  imports Agent Remote_Config_Props Metrics_Deltas
begin

text \<open>
  The agent as a whole: the configurations it runs with, the path of a remote configuration
  from the server to the next run, and the metric task with its checkpoints.
\<close>

section \<open>Configurations\<close>

text \<open>What a validated configuration guarantees to the tasks that are started with it.\<close>

definition config_ok :: "deps \<Rightarrow> agent_config \<Rightarrow> bool" where
  "config_ok d c \<longleftrightarrow>
     length (ac_api_key c) = 32 \<and> (\<forall>b \<in> set (ac_api_key c). is_ascii_hexdigit b)
   \<and> (\<exists>f. event_filter_new (ac_eventlog_event_ids c) (ac_eventlog_exclude_providers c) = Inr f)
   \<and> (multiline_opts_of d (ac_multiline_start_pattern c) (ac_multiline_timeout_ms c) (ac_multiline_max_bytes c) = None
        \<longleftrightarrow> ac_multiline_start_pattern c = None)"

lemma parse_config_ok: "parse_config d os s = Inr c \<Longrightarrow> config_ok d c"
  using parse_config_checks [of d os s c]
  by (auto simp: config_ok_def validate_api_key_ok event_filter_new_def multiline_opts_of_def multiline_new_def
      split: option.splits sum.splits)

lemma load_config_parse: "load_config d os f = Inr c \<longleftrightarrow> (\<exists>s. f = Some s \<and> utf8_valid s \<and> parse_config d os s = Inr c)"
  by (auto simp: load_config_def map_sum_def split: option.splits sum.splits if_splits)

lemma load_config_ok: "load_config d os f = Inr c \<Longrightarrow> config_ok d c"
  by (auto simp: load_config_parse intro: parse_config_ok)

text \<open>The configuration after a reload of the file \<open>f\<close>.\<close>

definition reloaded :: "deps \<Rightarrow> target_os \<Rightarrow> agent_config \<Rightarrow> string option \<Rightarrow> agent_config" where
  "reloaded d os c f = (case load_config d os f of Inr c' \<Rightarrow> c' | Inl e \<Rightarrow> c)"

lemma agent_turns_configs:
  "agent_turns d os p cfg ts = (x, cs) \<Longrightarrow> config_ok d cfg \<Longrightarrow>
     length cs \<le> length ts \<and> (\<forall>c \<in> set cs. config_ok d c) \<and> (cs \<noteq> [] \<longrightarrow> hd cs = cfg)
   \<and> (\<forall>i. Suc i < length cs \<longrightarrow> cs ! Suc i = reloaded d os (cs ! i) (at_reload (ts ! i)))
   \<and> (x = Agent_Running \<longrightarrow> length cs = length ts)"
proof (induction ts arbitrary: cfg x cs)
  case (Cons t ts)
  show ?case
  proof (cases "\<exists>tasks. run_agent d os p (at_env t) cfg (at_file t) = Inr (tasks, Run_Reload)")
    case False
    then have "cs = [cfg] \<and> x \<noteq> Agent_Running"
      using Cons.prems(1) by (auto split: sum.splits prod.splits run_result.splits)
    with Cons.prems(2) show ?thesis by simp
  next
    case True
    let ?cfg = "reloaded d os cfg (at_reload t)"
    obtain cs' where rec: "agent_turns d os p ?cfg ts = (x, cs')" and cs: "cs = cfg # cs'"
      using Cons.prems(1) True by (cases "agent_turns d os p ?cfg ts") (auto simp: reloaded_def Let_def)
    have "config_ok d ?cfg" using Cons.prems(2) load_config_ok by (auto simp: reloaded_def split: sum.splits)
    note IH = Cons.IH [OF rec this]
    have "cs ! Suc i = reloaded d os (cs ! i) (at_reload ((t # ts) ! i))" if "Suc i < length cs" for i
      using that IH cs by (cases i) (auto simp: hd_conv_nth)
    with IH cs Cons.prems(2) show ?thesis by auto
  qed
qed simp

section \<open>The metric task\<close>

definition collector_kind :: "collector \<Rightarrow> nat" where
  "collector_kind c = (case c of Load_Collector \<Rightarrow> 0 | Memory_Collector \<Rightarrow> 1 | Cpu_Collector _ \<Rightarrow> 2 | Disk_Collector _ \<Rightarrow> 3
     | Network_Collector _ _ \<Rightarrow> 4 | Tcp_Collector \<Rightarrow> 5 | Cgroup_Collector _ \<Rightarrow> 6 | Container_Collector _ \<Rightarrow> 7 | Process_Collector _ \<Rightarrow> 8
     | Mac_Load_Collector \<Rightarrow> 9 | Mac_Memory_Collector \<Rightarrow> 10 | Mac_Cpu_Collector _ \<Rightarrow> 11 | Mac_Disk_Collector _ \<Rightarrow> 12
     | Mac_Network_Collector _ _ _ \<Rightarrow> 13)"

lemma collect_kind: "collector_collect d env s c = Some (s', c') \<Longrightarrow> collector_kind c' = collector_kind c"
  by (cases c) (auto simp: collector_collect_def collector_kind_def map_prod_def split: prod.splits)

lemma collect_all_kinds:
  "collect_all d env ck cs s = (s', Some cs') \<Longrightarrow> map collector_kind cs' = map collector_kind cs"
  by (induction cs arbitrary: s s' cs')
    (auto simp: Let_def collect_kind split: option.splits prod.splits)

lemma metric_tick_kinds:
  assumes "map collector_kind (mt_collectors (snd st)) = map collector_kind fresh"
  shows "map collector_kind (mt_collectors (snd (metric_tick d fresh every env st))) = map collector_kind fresh
    \<and> mt_tick_count (snd (metric_tick d fresh every env st)) = mt_tick_count (snd st) + 1"
  using assms
  by (cases st) (auto simp: metric_tick_def Let_def dest: collect_all_kinds split: prod.splits option.splits)

lemma metric_ticks_kinds:
  "map collector_kind (mt_collectors (snd st)) = map collector_kind fresh \<Longrightarrow>
     map collector_kind (mt_collectors (snd (fold (metric_tick d fresh every) envs st))) = map collector_kind fresh
   \<and> mt_tick_count (snd (fold (metric_tick d fresh every) envs st)) = mt_tick_count (snd st) + of_nat (length envs)"
proof (induction envs arbitrary: st)
  case (Cons env envs)
  from Cons.IH [of "metric_tick d fresh every env st"] metric_tick_kinds [OF Cons.prems, of d every env] show ?case
    by (simp add: algebra_simps)
qed simp

lemma checkpoint_ticks_eq:
  assumes "n = max (interval div 1000) 1" and "n < 2 ^ 32"
  shows "\<exists>w. checkpoint_ticks interval = Returns w \<and> unat w = 3600 div n"
proof -
  have u: "unat (of_nat n :: 32 word) = n" using assms(2) by (simp add: unsigned_of_nat take_bit_nat_eq_self)
  then have "(of_nat n :: 32 word) \<noteq> 0" using assms(1) by (metis max.cobounded2 not_one_le_zero unsigned_0)
  moreover have "unat ((3600 :: 32 word) div of_nat n) = 3600 div n" using u by (simp add: unat_div_distrib)
  ultimately show ?thesis unfolding checkpoint_ticks_def assms(1) [symmetric] Let_def by simp
qed

lemma is_multiple_of_unat:
  "is_multiple_of a b \<longleftrightarrow> (if unat b = 0 then unat a = 0 else unat a mod unat b = 0)"
  by (simp add: is_multiple_of_def unat_eq_zero flip: unat_mod_distrib)

section \<open>Properties\<close>




definition demo_run :: "signal \<Rightarrow> string option \<Rightarrow> agent_turn" where
  "demo_run sig f = \<lparr>at_env = \<lparr>re_tools = \<lparr>journal_available = False, unified_available = False\<rparr>, re_build = True,
     re_client = True, re_signal = sig\<rparr>, at_file = Some ''min'', at_reload = f\<rparr>"


text \<open>
  C11: From the server to the next run. When the poller of a run applied a configuration, the file
  holds another configuration than the one the run started from, the reload reads it
  successfully, and the poller of the next run starts from its digest, so that the same body
  is not applied again.
\<close>

theorem remote_config_applied:
  assumes "run_agent d os path env cfg (Some old) = Inr (tasks, r)" and "rt_poller tasks = Some pc"
    and "run_poller d os version pc ts (Some old, tmp) = (Poller_Applied, st)"
  shows "\<exists>bdy c. fst (po_disk st) = Some bdy \<and> bdy \<noteq> old \<and> load_config d os (Some bdy) = Inr c \<and> config_ok d c
    \<and> (\<forall>env' tasks' r' pc'. run_agent d os path env' c (Some bdy) = Inr (tasks', r') \<and> rt_poller tasks' = Some pc'
         \<longrightarrow> pc_applied_hash pc' = config_hash bdy)"
proof -
  have hash: "pc_applied_hash pc = config_hash old"
    using assms(1,2)
    by (auto simp: run_agent_def poller_of_def applied_config_hash_def Let_def split: if_splits sum.splits option.splits)
  have "poller_ok d os pc (Some old) (run_poller d os version pc ts (Some old, tmp))"
    using run_poller_ok [of d os pc "(Some old, tmp)" version ts] by simp
  then obtain bdy c where b: "fst (po_disk st) = Some bdy" "utf8_valid bdy" "parse_config d os bdy = Inr c"
    "config_hash bdy \<noteq> pc_applied_hash pc"
    by (auto simp: poller_ok_def assms(3))
  have next_hash: "pc_applied_hash pc' = config_hash bdy"
    if "run_agent d os path env' c (Some bdy) = Inr (tasks', r')" "rt_poller tasks' = Some pc'" for env' tasks' r' pc'
    using that
    by (auto simp: run_agent_def poller_of_def applied_config_hash_def Let_def split: if_splits sum.splits option.splits)
  have "bdy \<noteq> old" using b(4) hash by auto
  moreover have "load_config d os (Some bdy) = Inr c" using b(2,3) by (simp add: load_config_parse)
  ultimately show ?thesis using b(1) parse_config_ok [OF b(3)] next_hash
    by (intro exI [of _ bdy] exI [of _ c] conjI allI impI) auto
qed

lemma demo_hashes: "config_hash ''min'' \<noteq> config_hash ''old''"
  by code_simp

definition demo_cfg :: agent_config where
  "demo_cfg = (default_config Os_Linux demo_key)\<lparr>ac_server := Some ''https://c''\<rparr>"

theorem remote_config_applied_witness:
  "\<exists>tasks pc st. run_agent demo_config_deps Os_Linux ''p'' (at_env (demo_run Sig_Reload None)) demo_cfg (Some ''old'') = Inr (tasks, Run_Reload)
     \<and> rt_poller tasks = Some pc
     \<and> run_poller demo_config_deps Os_Linux ''1'' pc [demo_turn] (Some ''old'', None) = (Poller_Applied, st)
     \<and> (\<exists>bdy c. fst (po_disk st) = Some bdy \<and> bdy \<noteq> ''old'' \<and> load_config demo_config_deps Os_Linux (Some bdy) = Inr c)"
proof -
  obtain tasks pc where run: "run_agent demo_config_deps Os_Linux ''p'' (at_env (demo_run Sig_Reload None)) demo_cfg (Some ''old'') = Inr (tasks, Run_Reload)"
    and pc: "rt_poller tasks = Some pc" "pc_applied_hash pc = config_hash ''old''" "pc_server pc = ''https://c''" "pc_interval pc = 300000"
    by (simp add: run_agent_def demo_run_def demo_cfg_def default_config_def resolve_log_source_def resolve_auto_def Let_def poller_of_def
        applied_config_hash_def)
  obtain st where st: "run_poller demo_config_deps Os_Linux ''1'' pc [demo_turn] (Some ''old'', None) = (Poller_Applied, st)"
    using demo_poller_applies [of pc Os_Linux "''1''" "(Some ''old'', None)"] demo_hashes pc by (auto simp: starts_with_def)
  from remote_config_applied [OF run pc(1) st] run pc(1) st show ?thesis by blast
qed

text \<open>
  C39: The metric task keeps its collectors. Whatever the host answers and whichever collector
  panics, after any number of ticks the task has exactly the configured kinds of collectors
  in their order and has counted the ticks (modulo \<open>2 ^ 32\<close>).
\<close>

theorem metric_task_keeps:
  assumes "metric_loop d fresh interval envs s = Returns (s', t)" and "fresh \<noteq> []"
  shows "map collector_kind (mt_collectors t) = map collector_kind fresh \<and> mt_tick_count t = of_nat (length envs)"
proof -
  from assms obtain every where
    run: "fold (metric_tick d fresh every) envs (s, \<lparr>mt_collectors = fresh, mt_tick_count = 0\<rparr>) = (s', t)"
    by (auto simp: metric_loop_def split: rust.splits)
  from metric_ticks_kinds [of "(s, \<lparr>mt_collectors = fresh, mt_tick_count = 0\<rparr>)" fresh d every envs] show ?thesis
    unfolding run by simp
qed

text \<open>A host without any file, in which the scan of the processes finds nothing.\<close>

definition demo_env :: tick_env where
  "demo_env = \<lparr>te_fs = (\<lambda>_. None), te_answers = (\<lambda>_. Read_Timeout), te_listing = (\<lambda>_. None), te_kubepods = False,
     te_user_slice = False, te_pids = None, te_now = 0, te_now2 = 0, te_by_cpu = (\<lambda>x. x), te_by_rss = (\<lambda>x. x),
     te_mac = \<lparr>mac_cpu_info = None, mac_loadavg = (-1, Fin 0, Fin 0, Fin 0), mac_nproc = -1,
       mac_memory = \<lparr>mr_memsize = None, mr_page_size = 0, mr_vm = None, mr_swap = None\<rparr>, mac_statfs = [], mac_ifaddrs = None\<rparr>\<rparr>"

theorem metric_task_keeps_witness:
  "\<exists>s' t. metric_loop ref_deps [Memory_Collector, Cpu_Collector []] 15000 [demo_env, demo_env, demo_env] sink_discard = Returns (s', t)
     \<and> map collector_kind (mt_collectors t) = [1, 2] \<and> mt_tick_count t = 3"
proof -
  have "\<exists>w. checkpoint_ticks 15000 = Returns w" using checkpoint_ticks_eq [OF refl, of 15000] by auto
  then obtain s' t where "metric_loop ref_deps [Memory_Collector, Cpu_Collector []] 15000 [demo_env, demo_env, demo_env] sink_discard = Returns (s', t)"
    by (cases "case checkpoint_ticks 15000 of Returns w \<Rightarrow>
         fold (metric_tick ref_deps [Memory_Collector, Cpu_Collector []] w) [demo_env, demo_env, demo_env]
           (sink_discard, \<lparr>mt_collectors = [Memory_Collector, Cpu_Collector []], mt_tick_count = 0\<rparr>)")
      (auto simp: metric_loop_def)
  from metric_task_keeps [OF this] this show ?thesis by (auto simp: collector_kind_def)
qed

text \<open>
  Hourly checkpoints. For an interval of at most one hour, the tick \<open>k\<close> sends the cumulative
  values exactly if \<open>k\<close> is a positive multiple of the number of ticks in an hour; two
  checkpoints are at most an hour and more than an hour less one interval apart.
\<close>

theorem checkpoint_hourly:
  assumes "1000 \<le> interval" and "interval < 3601000" and "checkpoint_ticks interval = Returns every" and "k < 2 ^ 32"
  shows "(0 < (of_nat k :: 32 word) \<and> is_multiple_of (of_nat k) every \<longleftrightarrow> 0 < k \<and> k mod (3600 div (interval div 1000)) = 0)
    \<and> unat every * (interval div 1000) \<le> 3600 \<and> 3600 < (unat every + 1) * (interval div 1000)"
proof -
  let ?n = "interval div 1000"
  have n: "1 \<le> ?n" "?n \<le> 3600" using assms(1,2) by auto
  then have e: "unat every = 3600 div ?n" using checkpoint_ticks_eq [OF refl, of interval] assms(3) by auto
  have "0 < 3600 div ?n" using n by (simp add: div_greater_zero_iff)
  moreover have k: "unat (of_nat k :: 32 word) = k" using assms(4) by (simp add: unsigned_of_nat take_bit_nat_eq_self)
  moreover have "0 < (of_nat k :: 32 word) \<longleftrightarrow> 0 < k" using k by (simp add: word_less_nat_alt)
  moreover have "3600 div ?n * ?n \<le> 3600" "3600 < (3600 div ?n + 1) * ?n"
    using n dividend_less_div_times [of ?n 3600] by (simp_all add: algebra_simps)
  ultimately show ?thesis by (simp add: is_multiple_of_unat e)
qed

theorem checkpoint_hourly_witness:
  "\<exists>every. checkpoint_ticks 15000 = Returns every \<and> 0 < (of_nat 480 :: 32 word) \<and> is_multiple_of (of_nat 480) every"
proof -
  obtain every where "checkpoint_ticks 15000 = Returns every" using checkpoint_ticks_eq [OF refl, of 15000] by auto
  with checkpoint_hourly [OF _ _ this, of 480] show ?thesis by simp
qed

text \<open>
  With an interval above one hour the number of ticks in an hour is zero, and no tick but the
  first, which never does, would send the cumulative values.
\<close>

theorem slow_interval_never_checkpoints:
  assumes "3601000 \<le> interval" and "interval div 1000 < 2 ^ 32"
  shows "\<exists>every. checkpoint_ticks interval = Returns every \<and> \<not> (0 < k \<and> is_multiple_of k every)"
proof -
  let ?n = "max (interval div 1000) 1"
  have "3600 div ?n = 0" using assms(1) by (simp add: div_greater_zero_iff max_def)
  with checkpoint_ticks_eq [of ?n interval] assms show ?thesis by (auto simp: is_multiple_of_unat unat_gt_0)
qed

text \<open>
  A file that parses but names a log source the host does not have ends the process on a
  reload, instead of keeping the previous configuration.
\<close>

theorem unavailable_source_ends_agent:
  assumes "load_config d os (at_reload t) = Inr c" and "ac_log_source c = Source_UnifiedLog"
    and "run_agent d os path (at_env t) cfg (at_file t) = Inr (tasks, Run_Reload)"
    and "\<not> unified_available (re_tools (at_env t'))"
  shows "agent_turns d os path cfg (t # t' # ts) = (Agent_Exits 1, [cfg, c])"
  using assms by (simp add: run_agent_def [of d os path "at_env t'"] resolve_log_source_def Let_def)

end
