(* ===== verification/Metrics_Space.thy ===== *)
theory Metrics_Space
  imports Metrics_Disk Metrics_Props "HOL-Library.Multiset"
begin

text \<open>
  The disk-space reader with its threads, the mounts it reports and their names. The reader
  starts a thread per read and abandons it at a timeout; \<open>reader_step\<close> interleaves the reads
  and refreshes of the collector with the ends of the threads.
\<close>

section \<open>Threads\<close>

text \<open>The mounts table and the mount points of the threads that have not ended.\<close>

type_synonym reader_world = "mounts \<times> string multiset"

text \<open>The thread a read leaves running.\<close>

definition leaves_thread :: "read_answer \<Rightarrow> bool" where
  "leaves_thread ans = (case ans of Read_Timeout \<Rightarrow> True | Read_Disconnected \<Rightarrow> False | Answer _ ended \<Rightarrow> \<not> ended)"

inductive reader_step :: "reader_world \<Rightarrow> reader_world \<Rightarrow> bool" where
  busy: "ms_in_flight (mount_entry ms p) \<Longrightarrow> reader_step (ms, ts) (snd (space_reader_read ans p ms), ts)"
| spawn: "\<not> ms_in_flight (mount_entry ms p) \<Longrightarrow>
    reader_step (ms, ts) (snd (space_reader_read ans p ms), ts + (if leaves_thread ans then {#p#} else {#}))"
| ends: "p \<in># ts \<Longrightarrow> reader_step (ms, ts) (thread_ends p ms, ts - {#p#})"
| refresh: "reader_step (ms, ts) (retain_mounts current ms, ts)"

inductive reader_reachable :: "reader_world \<Rightarrow> bool" where
  start: "reader_reachable ([], {#})"
| step: "reader_reachable w \<Longrightarrow> reader_step w w' \<Longrightarrow> reader_reachable w'"

inductive_cases reader_stepE: "reader_step w w'"

definition threads_match :: "reader_world \<Rightarrow> bool" where
  "threads_match w \<longleftrightarrow> (case w of (ms, ts) \<Rightarrow>
     distinct (map fst ms) \<and> (\<forall>p. count ts p = (if ms_in_flight (mount_entry ms p) then 1 else 0)))"

lemma mount_entry_update [simp]: "mount_entry (AList.update p st ms) q = (if q = p then st else mount_entry ms q)"
  by (simp add: mount_entry_def update_conv')

lemma distinct_filter_keys: "distinct (map fst xs) \<Longrightarrow> distinct (map fst (filter P xs))"
  by (induction xs) auto

lemma map_of_filter_distinct:
  "distinct (map fst xs) \<Longrightarrow> map_of (filter P xs) k = (case map_of xs k of Some v \<Rightarrow> if P (k, v) then Some v else None | None \<Rightarrow> None)"
  by (induction xs) (auto simp: map_of_eq_None_iff split: option.splits intro: rev_image_eqI)

lemma in_flight_retain [simp]:
  "distinct (map fst ms) \<Longrightarrow>
     ms_in_flight (mount_entry (retain_mounts current ms) p) = ms_in_flight (mount_entry ms p)"
  by (auto simp: mount_entry_def retain_mounts_def map_of_filter_distinct split: option.splits)

lemma in_flight_ends [simp]:
  "ms_in_flight (mount_entry (thread_ends p ms) q) = (q \<noteq> p \<and> ms_in_flight (mount_entry ms q))"
  by (auto simp: thread_ends_def mount_entry_def update_conv' split: option.splits)

lemma distinct_thread_ends [simp]: "distinct (map fst ms) \<Longrightarrow> distinct (map fst (thread_ends p ms))"
  by (simp add: thread_ends_def distinct_update split: option.splits)

lemma in_flight_read:
  "\<not> ms_in_flight (mount_entry ms p) \<Longrightarrow>
     ms_in_flight (mount_entry (snd (space_reader_read ans p ms)) q)
       = (if q = p then leaves_thread ans else ms_in_flight (mount_entry ms q))"
  by (cases ans) (simp_all add: space_reader_read_def leaves_thread_def Let_def)

lemma distinct_read [simp]: "distinct (map fst ms) \<Longrightarrow> distinct (map fst (snd (space_reader_read ans p ms)))"
  by (cases ans) (simp_all add: space_reader_read_def distinct_update Let_def)

lemma read_busy: "ms_in_flight (mount_entry ms p) \<Longrightarrow> space_reader_read ans p ms = (None, ms)"
  by (simp add: space_reader_read_def)

lemma distinct_retain [simp]: "distinct (map fst ms) \<Longrightarrow> distinct (map fst (retain_mounts current ms))"
  by (simp add: retain_mounts_def distinct_filter_keys)

lemma threads_match_step: "reader_step w w' \<Longrightarrow> threads_match w \<Longrightarrow> threads_match w'"
  by (induction rule: reader_step.induct) (auto simp: threads_match_def read_busy in_flight_read)

lemma threads_match_reachable: "reader_reachable w \<Longrightarrow> threads_match w"
  by (induction rule: reader_reachable.induct)
    (auto simp: threads_match_def [of "([], {#})"] mount_entry_def intro: threads_match_step)

section \<open>Names in the mount table\<close>

text \<open>The characters the kernel writes as three octal digits, and how it writes a name.\<close>

definition mangled :: "char \<Rightarrow> bool" where
  "mangled c \<longleftrightarrow> c = SP \<or> c = TAB \<or> c = NL \<or> c = BSL"

definition octal_digit :: "nat \<Rightarrow> char" where
  "octal_digit n = char_of (48 + n mod 8)"

definition mangle :: "string \<Rightarrow> string" where
  "mangle s = concat (map (\<lambda>c. if mangled c
     then [BSL, octal_digit (code c div 64), octal_digit (code c div 8), octal_digit (code c)] else [c]) s)"

lemma unescape_plain: "b \<noteq> BSL \<Longrightarrow> unescape_bytes (b # r) = b # unescape_bytes r"
  by (cases "(b # r)" rule: unescape_bytes.cases) auto

lemma unescape_octal:
  "mangled c \<Longrightarrow> unescape_bytes (BSL # octal_digit (code c div 64) # octal_digit (code c div 8) # octal_digit (code c) # r)
     = c # unescape_bytes r"
  by (auto simp: mangled_def octal_digit_def is_octal_def code_def) (simp_all add: char_of_def bit_0)

lemma unescape_mangle: "unescape_bytes (mangle s) = s"
proof (induction s)
  case (Cons c s)
  have "c \<noteq> BSL" if "\<not> mangled c" using that by (simp add: mangled_def)
  with Cons show ?case
    by (cases "mangled c") (simp_all add: mangle_def unescape_octal unescape_plain del: unescape_bytes.simps)
qed (simp add: mangle_def)

lemma mangle_plain: "BSL \<notin> set (mangle s) \<Longrightarrow> mangle s = s"
  by (induction s) (auto simp: mangle_def split: if_splits)

lemma unescape_field_mangle: "utf8_valid s \<Longrightarrow> unescape_mount_field (mangle s) = s"
  using mangle_plain [of s] by (auto simp: unescape_mount_field_def unescape_mangle from_utf8_lossy_valid)

text \<open>A name of printable ASCII characters, blanks and newlines, and a line of the table.\<close>

definition mount_name :: "string \<Rightarrow> bool" where
  "mount_name s \<longleftrightarrow> s \<noteq> [] \<and> (\<forall>c \<in> set s. visible c \<or> mangled c)"

lemma octal_digit_visible: "visible (octal_digit n)"
proof -
  have "n mod 8 < 8" by simp
  then have "n mod 8 \<in> {0, 1, 2, 3, 4, 5, 6, 7}" by auto
  then show ?thesis by (auto simp: octal_digit_def visible_def code_def)
qed

lemma is_word_mangle: "mount_name s \<Longrightarrow> is_word (mangle s)"
proof -
  have "visible c" if "c \<in> set (mangle s)" "\<forall>c \<in> set s. visible c \<or> mangled c" for c
    using that
  proof (induction s)
    case (Cons b s)
    moreover have "visible BSL" by (simp add: visible_def code_def)
    ultimately show ?case by (cases "mangled b") (auto simp: mangle_def octal_digit_visible)
  qed (simp add: mangle_def)
  moreover have "mangle s \<noteq> []" if "s \<noteq> []" using that by (cases s) (simp_all add: mangle_def)
  ultimately show "mount_name s \<Longrightarrow> is_word (mangle s)" by (auto simp: mount_name_def is_word_def)
qed

lemma mount_name_valid: "mount_name s \<Longrightarrow> utf8_valid s"
  by (intro utf8_valid_ascii) (auto simp: mount_name_def mangled_def visible_def code_def)

definition print_mount :: "string \<Rightarrow> string \<Rightarrow> string \<Rightarrow> string \<Rightarrow> string" where
  "print_mount dev mnt fs rest = mangle dev @ [SP] @ mangle mnt @ [SP] @ fs @ [SP] @ rest"

lemma parse_print_mount:
  assumes "mount_name dev" and "mount_name mnt" and "is_word fs"
  shows "parse_mount_line types (print_mount dev mnt fs rest) =
    (if fs_type_allowed fs types DEFAULT_FS_TYPES then Some \<lparr>mo_device = dev, mo_mount_point = mnt\<rparr> else None)"
  using assms
  by (simp add: parse_mount_line_def print_mount_def split_whitespace_word is_word_mangle unescape_field_mangle mount_name_valid)

section \<open>One entry per device\<close>

lemma retain_first_sub: "set (retain_first seen ms) \<subseteq> set ms"
  by (induction ms arbitrary: seen) auto

lemma retain_first_devices: "mo_device ` set (retain_first seen ms) = mo_device ` set ms - seen"
  by (induction ms arbitrary: seen) auto

lemma retain_first_distinct: "distinct (map mo_device (retain_first seen ms))"
proof (induction ms arbitrary: seen)
  case (Cons m ms)
  have "mo_device m \<notin> mo_device ` set (retain_first (insert (mo_device m) seen) ms)" by (simp add: retain_first_devices)
  with Cons show ?case by auto
qed simp

lemma retain_first_least:
  "sorted (map f ms) \<Longrightarrow> m \<in> set (retain_first seen ms) \<Longrightarrow> m' \<in> set ms \<Longrightarrow> mo_device m' = mo_device m \<Longrightarrow> f m \<le> f m'"
proof (induction ms arbitrary: seen)
  case (Cons n ms)
  show ?case
  proof (cases "mo_device n \<in> seen")
    case True
    with Cons.prems retain_first_devices [of seen ms] have "mo_device m \<notin> seen" by auto
    with True Cons show ?thesis by auto
  next
    case False
    show ?thesis
    proof (cases "m = n")
      case True
      with Cons.prems show ?thesis by auto
    next
      case ne: False
      with False Cons.prems have m: "m \<in> set (retain_first (insert (mo_device n) seen) ms)" by simp
      then have "mo_device m \<noteq> mo_device n" using retain_first_devices [of "insert (mo_device n) seen" ms] by auto
      with Cons.prems m Cons.IH [OF _ m] show ?thesis by auto
    qed
  qed
qed simp

lemma retain_first_sorted: "sorted (map f ms) \<Longrightarrow> sorted (map f (retain_first seen ms))"
  by (induction ms arbitrary: seen) (auto dest: subsetD [OF retain_first_sub])

section \<open>Properties\<close>

text \<open>
  C26: At most one thread per mount. In every interleaving of reads, refreshes of the mount table
  and ends of threads, a mount has at most one thread that has not ended, its flag says so,
  a read of a mount with a thread starts no other and returns nothing, and a mount without
  one is read again.
\<close>

theorem one_thread_per_mount:
  assumes "reader_reachable (ms, ts)"
  shows "count ts p \<le> 1 \<and> (p \<in># ts \<longleftrightarrow> ms_in_flight (mount_entry ms p))
    \<and> (p \<in># ts \<longrightarrow> space_reader_read ans p ms = (None, ms))
    \<and> (p \<notin># ts \<longrightarrow> fst (space_reader_read (Answer (Some st) ended) p ms) = Some st)"
proof -
  have "count ts p = (if ms_in_flight (mount_entry ms p) then 1 else 0)"
    using threads_match_reachable [OF assms] by (simp add: threads_match_def)
  then show ?thesis
    by (auto simp: read_busy count_eq_zero_iff space_reader_read_def Let_def simp flip: count_greater_zero_iff)
qed

theorem one_thread_per_mount_witness:
  "let ms = retain_mounts [] (snd (space_reader_read Read_Timeout ''/mnt'' []))
   in space_reader_read Read_Timeout ''/mnt'' ms = (None, ms) \<and> length ms = 1"
proof -
  let ?ms1 = "snd (space_reader_read Read_Timeout ''/mnt'' [])"
  have "reader_step ([], {#}) (?ms1, {#} + {#''/mnt''#})"
    using reader_step.spawn [of "[]" "''/mnt''" "{#}" Read_Timeout] by (simp add: mount_entry_def leaves_thread_def)
  then have "reader_reachable (retain_mounts [] ?ms1, {#''/mnt''#})"
    using reader_reachable.intros reader_step.refresh by (metis add_0)
  from one_thread_per_mount [OF this, of "''/mnt''" Read_Timeout] show ?thesis
    by (simp add: Let_def) (simp add: retain_mounts_def space_reader_read_def mount_entry_def)
qed

text \<open>
  Printing and parsing the mount table. A line the kernel writes for a device and a mount
  point, whose blanks, newlines and backslashes it writes as octal escapes, is parsed back to
  exactly these names, if the type of the file system is one to report.
\<close>

theorem mount_line_roundtrip:
  assumes "mount_name dev" and "mount_name mnt" and "is_word fs" and "fs_type_allowed fs types DEFAULT_FS_TYPES"
  shows "parse_mount_line types (print_mount dev mnt fs rest) = Some \<lparr>mo_device = dev, mo_mount_point = mnt\<rparr>"
  using assms by (simp add: parse_print_mount)

theorem mount_line_roundtrip_witness:
  "parse_mount_line [] (print_mount ''/dev/sda1'' ''/mnt/my disk'' ''ext4'' ''rw 0 0'')
     = Some \<lparr>mo_device = ''/dev/sda1'', mo_mount_point = ''/mnt/my disk''\<rparr>"
  by (rule mount_line_roundtrip)
    (auto simp: mount_name_def visible_def mangled_def code_def is_word_def fs_type_allowed_def DEFAULT_FS_TYPES_def)

text \<open>
  One entry per device, the shortest mount point winning. The parsed table is sorted by the
  length of the mount points, has no device twice, has an entry for exactly the devices of
  the lines to report, and the entry of a device has the least length among its lines.
\<close>

theorem mounts_shortest:
  assumes "parsed = List.map_filter (parse_mount_line types) (str_lines buf)"
  shows "sorted (map (\<lambda>m. length (mo_mount_point m)) (parse_mounts buf types))
    \<and> distinct (map mo_device (parse_mounts buf types))
    \<and> mo_device ` set (parse_mounts buf types) = mo_device ` set parsed
    \<and> (\<forall>m \<in> set (parse_mounts buf types). m \<in> set parsed
         \<and> (\<forall>m' \<in> set parsed. mo_device m' = mo_device m \<longrightarrow> length (mo_mount_point m) \<le> length (mo_mount_point m')))"
proof -
  let ?f = "\<lambda>m. length (mo_mount_point m)"
  have s: "sorted (map ?f (sort_key ?f parsed))" by simp
  show ?thesis
    using retain_first_sorted [OF s, of "{}"] retain_first_distinct [of "{}" "sort_key ?f parsed"]
      retain_first_devices [of "{}" "sort_key ?f parsed"] retain_first_sub [of "{}" "sort_key ?f parsed"]
      retain_first_least [OF s, where seen = "{}"]
    unfolding parse_mounts_def assms [symmetric] by auto
qed

theorem mounts_shortest_witness:
  "map mo_mount_point (parse_mounts (print_lines [print_mount ''/dev/sda1'' ''/data'' ''ext4'' ''rw'', print_mount ''/dev/sda1'' ''/'' ''ext4'' ''rw'']) [])
     = [''/'']"
proof -
  let ?ls = "[print_mount ''/dev/sda1'' ''/data'' ''ext4'' ''rw'', print_mount ''/dev/sda1'' ''/'' ''ext4'' ''rw'']"
  have "parse_mount_line [] (print_mount ''/dev/sda1'' mnt ''ext4'' ''rw'') = Some \<lparr>mo_device = ''/dev/sda1'', mo_mount_point = mnt\<rparr>"
    if "mount_name mnt" for mnt
    using that parse_print_mount [of "''/dev/sda1''" mnt "''ext4''" "[]" "''rw''"]
    by (simp add: mount_name_def visible_def code_def is_word_def fs_type_allowed_def DEFAULT_FS_TYPES_def)
  moreover have "str_lines (print_lines ?ls) = ?ls"
    unfolding print_lines_def
    by (intro str_lines_concat) (simp add: print_mount_def mangle_def mangled_def strip_cr_def)
  ultimately have p: "List.map_filter (parse_mount_line []) (str_lines (print_lines ?ls))
      = [\<lparr>mo_device = ''/dev/sda1'', mo_mount_point = ''/data''\<rparr>, \<lparr>mo_device = ''/dev/sda1'', mo_mount_point = ''/''\<rparr>]"
    by (simp add: map_filter_def mount_name_def visible_def code_def)
  note m = mounts_shortest [OF refl, of "print_lines ?ls" "[]", unfolded p]
  then obtain x where "parse_mounts (print_lines ?ls) [] = [x]"
    by (cases "parse_mounts (print_lines ?ls) []"; cases "tl (parse_mounts (print_lines ?ls) [])") auto
  with m show ?thesis by auto
qed

end
