(* ===== verification/Metrics_Proc.thy ===== *)
theory Metrics_Proc
  imports Metrics_Net Metrics_Props Syslog
begin

text \<open>
  Round trips of the kernel's formats for processes and CPU lists, and what the bounded walk
  for containers finds.
\<close>

section \<open>The status line of a process\<close>

definition print_stat :: "nat \<Rightarrow> string \<Rightarrow> string list \<Rightarrow> string" where
  "print_stat pid comm ws = show_nat pid @ '' ('' @ comm @ '')'' @ print_words ws"

lemma show_nat_no_paren: "CHR ''('' \<notin> set (show_nat n)"
  by (simp add: show_nat_no_sep is_ascii_digit_def code_def)

lemma print_stat_open: "position ((=) (CHR ''('')) (print_stat pid comm ws) = Some (Suc (length (show_nat pid)))"
proof -
  have "position ((=) (CHR ''('')) ((show_nat pid @ [SP]) @ CHR ''('' # comm @ '')'' @ print_words ws)
      = Some (length (show_nat pid @ [SP]))"
    using show_nat_no_paren by (intro position_append_stop) auto
  then show ?thesis by (simp add: print_stat_def)
qed

lemma print_words_avoid: "c \<noteq> SP \<Longrightarrow> \<forall>w \<in> set ws. c \<notin> set w \<Longrightarrow> c \<notin> set (print_words ws)"
  by (induction ws) (auto simp: print_words_def)

lemma print_stat_close:
  assumes "\<forall>w \<in> set ws. CHR '')'' \<notin> set w"
  shows "rfind_char (CHR '')'') (print_stat pid comm ws) = Some (length (show_nat pid) + 2 + length comm)"
proof -
  have "CHR '')'' \<notin> set (print_words ws)" using assms by (intro print_words_avoid) auto
  from rfind_char_append [OF this, of "show_nat pid @ '' ('' @ comm"] show ?thesis
    by (simp add: print_stat_def)
qed

lemma split_print_words_tl:
  assumes "\<forall>w \<in> set ws. is_word w" and "ws \<noteq> []"
  shows "split_whitespace (tl (print_words ws)) = ws"
proof -
  have "print_words ws = SP # tl (print_words ws)" using assms(2) by (cases ws) (simp_all add: print_words_def)
  then have "split_whitespace (tl (print_words ws)) = split_whitespace (print_words ws)"
    using split_whitespace_SP by metis
  also have "\<dots> = ws" unfolding print_words_def by (rule split_whitespace_words [OF assms(1)])
  finally show ?thesis .
qed

lemma word_start_boundary:
  assumes "\<forall>w \<in> set ws. is_word w" and "ws \<noteq> []"
  shows "1 < length (print_words ws)" and "\<not> is_cont (print_words ws ! 1)"
proof -
  obtain c r vs where ws: "ws = (c # r) # vs" using assms by (cases ws; cases "hd ws") (auto simp: is_word_def)
  then show "1 < length (print_words ws)" by (simp add: print_words_def)
  have "code c < 128" using assms(1) ws by (simp add: is_word_def visible_def)
  then show "\<not> is_cont (print_words ws ! 1)" using ws by (simp add: print_words_def is_cont_def)
qed

lemma drop_append_plus: "drop (length a + n) (a @ b) = drop n b"
  by simp

lemma nth_append_plus: "(a @ b) ! (length a + n) = b ! n"
  by simp

section \<open>CPU lists\<close>

definition print_cpus :: "(nat \<times> nat) list \<Rightarrow> string" where
  "print_cpus rs = join '','' (map print_range rs)"

definition cpu_range_ok :: "nat \<times> nat \<Rightarrow> bool" where
  "cpu_range_ok = (\<lambda>(lo, hi). lo \<le> hi \<and> hi < 2 ^ 64)"

definition range_size :: "nat \<times> nat \<Rightarrow> nat" where
  "range_size = (\<lambda>(lo, hi). Suc hi - lo)"

lemma count_print_range:
  assumes "cpu_range_ok r" and "range_size r < 2 ^ 64"
  shows "count_cpu_range (print_range r) = Some (range_size r)"
proof -
  obtain lo hi where r: "r = (lo, hi)" by fastforce
  from assms have *: "lo \<le> hi" "lo < 2 ^ 64" "hi < 2 ^ 64" "Suc hi - lo < 2 ^ 64"
    by (auto simp: cpu_range_ok_def range_size_def r)
  show ?thesis
  proof (cases "lo = hi")
    case True
    then show ?thesis
      using * show_nat_no_minus(1) [of lo]
      by (simp add: count_cpu_range_def print_range_def r split_once_None [THEN iffD2] parse_show_nat range_size_def del: power_numeral)
  next
    case False
    have "Suc hi - lo = Suc (hi - lo)" using * by simp
    then show ?thesis
      using * False split_once_append [OF show_nat_no_minus(1), of lo "show_nat hi"]
      by (simp add: count_cpu_range_def print_range_def r parse_show_nat checked_sub_def checked_add_def range_size_def del: power_numeral)
  qed
qed

lemma cpu_list_fold_ranges:
  "\<forall>r \<in> set rs. cpu_range_ok r \<Longrightarrow> acc + sum_list (map range_size rs) < 2 ^ 64 \<Longrightarrow>
     cpu_list_fold (map print_range rs) acc = Some (acc + sum_list (map range_size rs))"
proof (induction rs arbitrary: acc)
  case (Cons r rs)
  have "trim (print_range r) = print_range r" by (rule trim_visible [OF print_range_visible])
  moreover have "count_cpu_range (print_range r) = Some (range_size r)"
    using Cons.prems by (intro count_print_range) (simp_all del: power_numeral)
  ultimately show ?case using Cons by (simp add: checked_add_def add.assoc del: power_numeral)
qed simp

lemma join_visible: "\<forall>t \<in> set ts. \<forall>c \<in> set t. visible c \<Longrightarrow> c \<in> set (join '','' ts) \<Longrightarrow> visible c"
  by (induction "'',''" ts rule: join.induct) (auto simp: visible_def code_def)

lemma join_Nil: "ts \<noteq> [] \<Longrightarrow> \<forall>t \<in> set ts. t \<noteq> [] \<Longrightarrow> join s ts \<noteq> []"
  by (induction s ts rule: join.induct) auto

section \<open>The walk for containers\<close>

text \<open>The entries within \<open>n\<close> levels below a directory; the walk does not enter a container.\<close>

inductive entry_within :: "listing \<Rightarrow> nat \<Rightarrow> path \<Rightarrow> string \<times> path \<Rightarrow> bool" for ls where
  here: "ls dir = Some es \<Longrightarrow> (name, p, is_dir) \<in> set es \<Longrightarrow> entry_within ls n dir (name, p)"
| below: "ls dir = Some es \<Longrightarrow> (name, p, True) \<in> set es \<Longrightarrow>
    parse_scope_entry (from_utf8_lossy name) ''libpod-'' ''podman'' p = None \<Longrightarrow>
    entry_within ls n p e \<Longrightarrow> entry_within ls (Suc n) dir e"

inductive_cases entry_withinE: "entry_within ls n dir e"

definition libpod_of :: "string \<times> path \<Rightarrow> container_info option" where
  "libpod_of = (\<lambda>(name, p). parse_scope_entry (from_utf8_lossy name) ''libpod-'' ''podman'' p)"

declare walk_for_libpod.simps [simp del]

lemma walk_0:
  "walk_for_libpod ls 0 dir = (case ls dir of None \<Rightarrow> []
     | Some es \<Rightarrow> concat (map (\<lambda>(name, p, is_dir). case libpod_of (name, p) of Some i \<Rightarrow> [i] | None \<Rightarrow> []) es))"
  by (subst walk_for_libpod.simps) (simp only: libpod_of_def prod.case nat.case)

lemma walk_Suc:
  "walk_for_libpod ls (Suc n) dir = (case ls dir of None \<Rightarrow> []
     | Some es \<Rightarrow> concat (map (\<lambda>(name, p, is_dir). case libpod_of (name, p) of Some i \<Rightarrow> [i]
         | None \<Rightarrow> if is_dir then walk_for_libpod ls n p else []) es))"
  by (subst walk_for_libpod.simps) (simp only: libpod_of_def prod.case nat.case)

text \<open>What one entry contributes; \<open>below\<close> is the result for its directory.\<close>

definition walk_entry :: "(path \<Rightarrow> container_info list) \<Rightarrow> string \<times> path \<times> bool \<Rightarrow> container_info list" where
  "walk_entry below = (\<lambda>(name, p, is_dir). case libpod_of (name, p) of Some i \<Rightarrow> [i] | None \<Rightarrow> if is_dir then below p else [])"

lemma walk_entry_member:
  "i \<in> set (walk_entry below (name, p, is_dir)) \<longleftrightarrow>
     libpod_of (name, p) = Some i \<or> (libpod_of (name, p) = None \<and> is_dir \<and> i \<in> set (below p))"
  by (cases "libpod_of (name, p)") (auto simp: walk_entry_def)

lemma walk_entries:
  "walk_for_libpod ls n dir =
     (case ls dir of None \<Rightarrow> []
      | Some es \<Rightarrow> concat (map (walk_entry (case n of 0 \<Rightarrow> \<lambda>p. [] | Suc k \<Rightarrow> walk_for_libpod ls k)) es))"
  unfolding walk_entry_def
  by (cases n) (simp_all only: walk_0 walk_Suc nat.case if_cancel)

lemma walk_member:
  "i \<in> set (walk_for_libpod ls n dir) \<longleftrightarrow> (\<exists>es name p is_dir. ls dir = Some es \<and> (name, p, is_dir) \<in> set es
     \<and> (libpod_of (name, p) = Some i \<or> (libpod_of (name, p) = None \<and> is_dir \<and> 0 < n \<and> i \<in> set (walk_for_libpod ls (n - 1) p))))"
proof (cases "ls dir")
  case (Some es)
  have "i \<in> set (walk_for_libpod ls n dir) \<longleftrightarrow>
      (\<exists>(name, p, is_dir) \<in> set es. i \<in> set (walk_entry (case n of 0 \<Rightarrow> \<lambda>p. [] | Suc k \<Rightarrow> walk_for_libpod ls k) (name, p, is_dir)))"
    by (simp add: walk_entries [of ls n dir] Some)
  also have "\<dots> \<longleftrightarrow> (\<exists>(name, p, is_dir) \<in> set es.
      libpod_of (name, p) = Some i \<or> (libpod_of (name, p) = None \<and> is_dir \<and> 0 < n \<and> i \<in> set (walk_for_libpod ls (n - 1) p)))"
    by (cases n) (simp_all add: walk_entry_member)
  finally show ?thesis using Some by auto
qed (simp add: walk_entries [of ls n dir])

lemma walk_sound: "i \<in> set (walk_for_libpod ls n dir) \<Longrightarrow> \<exists>e. entry_within ls n dir e \<and> libpod_of e = Some i"
proof (induction n arbitrary: dir)
  case 0
  then show ?case using walk_member [of i ls 0 dir] by (blast intro: entry_within.here)
next
  case (Suc n)
  then obtain es name p is_dir where e: "ls dir = Some es" "(name, p, is_dir) \<in> set es"
    and i: "libpod_of (name, p) = Some i \<or> (libpod_of (name, p) = None \<and> is_dir \<and> i \<in> set (walk_for_libpod ls n p))"
    using walk_member [of i ls "Suc n" dir] by auto
  from i show ?case
  proof
    assume "libpod_of (name, p) = Some i"
    with e show ?thesis by (blast intro: entry_within.here)
  next
    assume d: "libpod_of (name, p) = None \<and> is_dir \<and> i \<in> set (walk_for_libpod ls n p)"
    with Suc.IH obtain e' where "entry_within ls n p e'" "libpod_of e' = Some i" by blast
    moreover have "parse_scope_entry (from_utf8_lossy name) ''libpod-'' ''podman'' p = None"
      using d by (simp add: libpod_of_def)
    ultimately have "entry_within ls (Suc n) dir e'"
      using entry_within.below [of ls dir es name p n e'] d e by simp
    with \<open>libpod_of e' = Some i\<close> show ?thesis by blast
  qed
qed

lemma walk_complete: "entry_within ls n dir e \<Longrightarrow> libpod_of e = Some i \<Longrightarrow> i \<in> set (walk_for_libpod ls n dir)"
proof (induction rule: entry_within.induct)
  case (here dir es name p is_dir n)
  then show ?case using walk_member [of i ls n dir] by blast
next
  case (below dir es name p n e)
  then have "libpod_of (name, p) = None" by (simp add: libpod_of_def)
  with below show ?case using walk_member [of i ls "Suc n" dir] by fastforce
qed

lemma length_concat_bound: "\<forall>e. length (f e) \<le> m \<Longrightarrow> length (concat (map f es)) \<le> length es * m"
  by (induction es) (auto simp: add_mono)

lemma walk_length:
  assumes "\<forall>dir es. ls dir = Some es \<longrightarrow> length es \<le> b"
  shows "length (walk_for_libpod ls n dir) \<le> b ^ Suc n"
proof (induction n arbitrary: dir)
  case 0
  have "\<forall>e. length (walk_entry (\<lambda>p. []) e) \<le> 1" by (auto simp: walk_entry_def split: option.splits)
  from length_concat_bound [OF this] assms show ?case
    by (cases "ls dir") (auto simp: walk_entries [of ls 0 dir] intro: order_trans)
next
  case (Suc n)
  show ?case
  proof (cases "ls dir")
    case (Some es)
    have "length (concat (map (walk_entry (walk_for_libpod ls n)) es)) \<le> length es * b ^ Suc n"
    proof (cases "es = []")
      case False
      with assms Some have "0 < b" by (cases b) auto
      then have "1 \<le> b ^ Suc n" by (simp add: Suc_le_eq)
      with Suc.IH have "\<forall>e. length (walk_entry (walk_for_libpod ls n) e) \<le> b ^ Suc n"
        by (auto simp: walk_entry_def split: option.splits)
      then show ?thesis by (rule length_concat_bound)
    qed simp
    also have "\<dots> \<le> b * b ^ Suc n" using assms Some by (intro mult_le_mono1) blast
    finally show ?thesis using Some by (simp add: walk_entries [of ls "Suc n" dir])
  qed (simp add: walk_entries [of ls "Suc n" dir])
qed

section \<open>Properties\<close>

text \<open>
  The status line of a process is parsed whatever the name of the process. For every
  command name, even with blanks and parentheses, the parser returns, without a panic, the
  name, the times and the resident pages (times the page size, modulo \<open>2 ^ 64\<close>) that were
  printed.
\<close>

theorem proc_stat_roundtrip:
  assumes "\<forall>w \<in> set ws. is_word w \<and> CHR '')'' \<notin> set w" and "22 \<le> length ws"
    and "ws ! 11 = show_nat u" and "ws ! 12 = show_nat st" and "ws ! 21 = show_nat rss"
    and "u < 2 ^ 64" and "st < 2 ^ 64" and "rss < 2 ^ 64"
  shows "parse_proc_stat (print_stat pid comm ws) pid page_size
    = Some (Some \<lparr>pp_pid = pid, pp_name = comm, pp_utime = of_nat u, pp_stime = of_nat st, pp_rss_bytes = of_nat rss * page_size\<rparr>)"
proof -
  let ?buf = "print_stat pid comm ws"
  let ?n = "length (show_nat pid) + 2 + length comm"
  have ws: "\<forall>w \<in> set ws. is_word w" "ws \<noteq> []" using assms(1,2) by auto
  have split: "?buf = (show_nat pid @ '' ('' @ comm @ '')'') @ print_words ws" by (simp add: print_stat_def)
  have len: "length (show_nat pid @ '' ('' @ comm @ '')'') = Suc ?n" by simp
  have "drop (?n + 2) ?buf = drop 1 (print_words ws)"
    using drop_append_plus [of "show_nat pid @ '' ('' @ comm @ '')''" 1 "print_words ws"] unfolding split len by simp
  then have fs: "split_whitespace (drop (?n + 2) ?buf) = ws" using split_print_words_tl [OF ws] by (simp add: drop_Suc)
  have "?buf ! (?n + 2) = print_words ws ! 1"
    using nth_append_plus [of "show_nat pid @ '' ('' @ comm @ '')''" "print_words ws" 1] unfolding split len by simp
  moreover have "?n + 2 < length ?buf" using word_start_boundary(1) [OF ws] by (simp add: print_stat_def)
  ultimately have bound: "is_char_boundary ?buf (?n + 2)" "\<not> length ?buf \<le> ?n + 2"
    using word_start_boundary(2) [OF ws] by (simp_all add: is_char_boundary_def)
  have name: "take (?n - Suc (Suc (length (show_nat pid)))) (drop (Suc (Suc (length (show_nat pid)))) ?buf) = comm"
    by (simp add: print_stat_def)
  have close: "rfind_char (CHR '')'') ?buf = Some ?n" using print_stat_close assms(1) by blast
  show ?thesis
    using assms(2-8) bound fs name
    unfolding parse_proc_stat_def print_stat_open close by (simp add: parse_show_nat Let_def del: power_numeral)
qed

theorem proc_stat_roundtrip_witness:
  "parse_proc_stat (print_stat 42 ''a) b (c'' ([''S''] @ replicate 10 ''0'' @ [show_nat 7, show_nat 8] @ replicate 8 ''-1'' @ [show_nat 3])) 42 4096
     = Some (Some \<lparr>pp_pid = 42, pp_name = ''a) b (c'', pp_utime = 7, pp_stime = 8, pp_rss_bytes = 12288\<rparr>)"
proof -
  let ?ws = "[''S''] @ replicate 10 ''0'' @ [show_nat 7, show_nat 8] @ replicate 8 ''-1'' @ [show_nat 3]"
  have "is_word (show_nat n) \<and> CHR '')'' \<notin> set (show_nat n)" for n
    by (simp add: is_word_show_nat show_nat_no_sep is_ascii_digit_def code_def)
  then have "\<forall>w \<in> set ?ws. is_word w \<and> CHR '')'' \<notin> set w" by (auto simp: is_word_def visible_def code_def)
  from proc_stat_roundtrip [OF this, of 7 8 3 42 "''a) b (c''" 4096] show ?thesis by (simp add: nth_append)
qed

text \<open>
  Counting the online CPUs. For every printed list of CPU numbers and ranges the count is the
  sum of the sizes of the ranges, if that fits in 64 bits.
\<close>

theorem cpu_list_counts:
  assumes "rs \<noteq> []" and "\<forall>r \<in> set rs. cpu_range_ok r" and "sum_list (map range_size rs) < 2 ^ 64"
  shows "count_cpu_list (print_cpus rs) = Some (sum_list (map range_size rs))"
proof -
  have "\<forall>c \<in> set (print_cpus rs). visible c"
    using join_visible [of "map print_range rs"] print_range_visible by (auto simp: print_cpus_def visible_def)
  then have "trim (print_cpus rs) = print_cpus rs" by (intro trim_visible) (simp add: visible_def)
  moreover have "print_cpus rs \<noteq> []"
    using assms(1) join_Nil [of "map print_range rs"] print_range_nonempty by (auto simp: print_cpus_def)
  moreover have "\<forall>t \<in> set (map print_range rs). CHR '','' \<notin> set t"
    using show_nat_no_minus(2) by (auto simp: print_range_def split: prod.splits if_splits)
  then have "split_char (CHR '','') (print_cpus rs) = map print_range rs"
    using assms(1) split_join [of "map print_range rs" "CHR '',''"] by (simp add: print_cpus_def)
  ultimately show ?thesis
    using cpu_list_fold_ranges [OF assms(2), of 0] assms(3) by (simp add: count_cpu_list_def Let_def del: power_numeral)
qed

theorem cpu_list_counts_witness: "count_cpu_list (print_cpus [(0, 3), (5, 5), (8, 11)]) = Some 9"
  using cpu_list_counts [of "[(0, 3), (5, 5), (8, 11)]"] by (simp add: cpu_range_ok_def range_size_def)


text \<open>A directory that contains itself and one container.\<close>

definition demo_listing :: listing where
  "demo_listing dir = Some [(''libpod-'' @ replicate 64 CHR ''a'' @ ''.scope'', ''/c'', True), (''self'', dir, True)]"


end
