(* ===== verification/Host.thy ===== *)
theory Host
  imports Config
begin

text \<open>
  The machine that \<open>witness install\<close>, \<open>setup\<close>, \<open>uninstall\<close> and \<open>status\<close> change: its files, and the
  record of every change that was attempted, in order. A computation on it may fail with an error;
  whether an operation succeeds is given by the environment as a function of what happened before,
  so that any behaviour of the file system, of a command or of the service manager is one such
  function. The theory also holds the invocation of \<open>curl\<close> (\<open>src/curl.rs\<close>) and the state directory
  (\<open>src/config.rs\<close>).
\<close>

section \<open>State\<close>

text \<open>
  The calls of the \<open>windows-service\<close> crate: opening the manager or a service with an access right,
  and the operations on the handle. A service is described to it by its registration record.
\<close>

record service_info =
  si_name :: string
  si_display_name :: string
  si_executable_path :: path
  si_launch_arguments :: "string list"
  si_auto_start :: bool
  si_local_system :: bool

datatype scm_call =
  Scm_Manager "string list"
| Scm_CreateService service_info "string list"
| Scm_SetDescription string
| Scm_OpenService string string
| Scm_Delete string
| Scm_Start string
| Scm_Stop string
| Scm_QueryStatus string

datatype ws_state = Ws_Running | Ws_Stopped | Ws_Other

datatype host_effect =
  Eff_Mkdir path
| Eff_Copy path path
| Eff_Write path string
| Eff_Chmod path nat
| Eff_Chown path nat nat
| Eff_Remove path
| Eff_RemoveAll path
| Eff_Cmd string "string list"
| Eff_Curl "string list" string
| Eff_Scm scm_call

record host =
  h_files :: "path \<Rightarrow> string option"
  h_log :: "host_effect list"

section \<open>Environment\<close>

datatype write_outcome = Write_Open_Fails | Write_Short nat | Write_Done

text \<open>A command may not start; otherwise it has an exit status, its output and its error output.\<close>

datatype cmd_outcome = Cmd_Spawn_Error | Cmd_Exit bool string string

text \<open>The output of \<open>curl\<close>, or that it could not be run, with the text of the error.\<close>

datatype bearer_outcome = Bearer_Output bool string string | Bearer_Error string

record host_env =
  he_os :: target_os
  he_privileged :: bool
  he_version :: string
  he_exe :: "path option"
  he_canonical :: "path \<Rightarrow> path option"
  he_home :: "string option"
  he_program_data :: "string option"
  he_witness_gid :: "nat option"
  he_journalctl :: bool
  he_io :: "host_effect list \<Rightarrow> host_effect \<Rightarrow> bool"
  he_write :: "host_effect list \<Rightarrow> path \<Rightarrow> write_outcome"
  he_cmd :: "host_effect list \<Rightarrow> string \<Rightarrow> string list \<Rightarrow> cmd_outcome"
  he_curl :: "host_effect list \<Rightarrow> string list \<Rightarrow> string \<Rightarrow> bearer_outcome"
  he_scm :: "host_effect list \<Rightarrow> scm_call \<Rightarrow> string + ws_state"

section \<open>Computations\<close>

type_synonym ('e, 'a) hostm = "host \<Rightarrow> ('e + 'a) \<times> host"

definition hret :: "'a \<Rightarrow> ('e, 'a) hostm" where "hret x h = (Inr x, h)"

definition hfail :: "'e \<Rightarrow> ('e, 'a) hostm" where "hfail e h = (Inl e, h)"

definition hbind :: "('e, 'a) hostm \<Rightarrow> ('a \<Rightarrow> ('e, 'b) hostm) \<Rightarrow> ('e, 'b) hostm" where
  "hbind m k h = (case m h of (Inl e, h') \<Rightarrow> (Inl e, h') | (Inr x, h') \<Rightarrow> k x h')"

definition hthen :: "('e, 'a) hostm \<Rightarrow> ('e, 'b) hostm \<Rightarrow> ('e, 'b) hostm" where
  "hthen m k = hbind m (\<lambda>_. k)"

definition hget :: "(host \<Rightarrow> 'a) \<Rightarrow> ('e, 'a) hostm" where "hget f h = (Inr (f h), h)"

text \<open>Rust's \<open>map_err\<close>, and an error that is ignored.\<close>

definition hmap_err :: "('e \<Rightarrow> 'f) \<Rightarrow> ('e, 'a) hostm \<Rightarrow> ('f, 'a) hostm" where
  "hmap_err f m h = (case m h of (r, h') \<Rightarrow> (map_sum f (\<lambda>x. x) r, h'))"

definition htry :: "('e, 'a) hostm \<Rightarrow> ('f, 'e + 'a) hostm" where
  "htry m h = (case m h of (r, h') \<Rightarrow> (Inr r, h'))"

section \<open>Operations\<close>

definition log_effect :: "host_effect \<Rightarrow> host \<Rightarrow> host" where
  "log_effect e h = h\<lparr>h_log := h_log h @ [e]\<rparr>"

fun apply_effect :: "host_effect \<Rightarrow> (path \<Rightarrow> string option) \<Rightarrow> path \<Rightarrow> string option" where
  "apply_effect (Eff_Copy src dst) fs = fs(dst := fs src)"
| "apply_effect (Eff_Remove p) fs = fs(p := None)"
| "apply_effect (Eff_RemoveAll dir) fs =
     (\<lambda>p. if p = dir \<or> prefix (dir @ ''/'') p \<or> prefix (dir @ [BSL]) p then None else fs p)"
| "apply_effect _ fs = fs"

text \<open>A file operation that succeeds or fails as a whole; \<open>err\<close> is its error.\<close>

definition fs_op :: "host_env \<Rightarrow> 'e \<Rightarrow> host_effect \<Rightarrow> ('e, unit) hostm" where
  "fs_op env err e h =
     (let h' = log_effect e h in
      if he_io env (h_log h) e then (Inr (), h'\<lparr>h_files := apply_effect e (h_files h)\<rparr>) else (Inl err, h'))"

text \<open>\<open>std::fs::write\<close> truncates the file first: a write that is cut short leaves a prefix.\<close>

definition fs_write :: "host_env \<Rightarrow> 'e \<Rightarrow> path \<Rightarrow> string \<Rightarrow> ('e, unit) hostm" where
  "fs_write env err p s h =
     (let h' = log_effect (Eff_Write p s) h in
      case he_write env (h_log h) p of
        Write_Open_Fails \<Rightarrow> (Inl err, h')
      | Write_Short n \<Rightarrow> (Inl err, h'\<lparr>h_files := (h_files h)(p := Some (take n s))\<rparr>)
      | Write_Done \<Rightarrow> (Inr (), h'\<lparr>h_files := (h_files h)(p := Some s)\<rparr>))"

definition path_exists :: "path \<Rightarrow> ('e, bool) hostm" where
  "path_exists p = hget (\<lambda>h. h_files h p \<noteq> None)"

text \<open>\<open>Command::output\<close>.\<close>

definition command_output :: "host_env \<Rightarrow> string \<Rightarrow> string list \<Rightarrow> ('e, cmd_outcome) hostm" where
  "command_output env cmd args h = (Inr (he_cmd env (h_log h) cmd args), log_effect (Eff_Cmd cmd args) h)"

text \<open>Ownership is changed on a best-effort basis: the result of \<open>chown\<close> is not looked at.\<close>

definition chown_ignored :: "path \<Rightarrow> nat \<Rightarrow> nat \<Rightarrow> ('e, unit) hostm" where
  "chown_ignored p uid gid h = (Inr (), log_effect (Eff_Chown p uid gid) h)"

text \<open>A file mode, by its three octal digits.\<close>

definition octal :: "nat \<Rightarrow> nat \<Rightarrow> nat \<Rightarrow> nat" where "octal a b c = a * 64 + b * 8 + c"

section \<open>The invocation of curl\<close>

text \<open>What \<open>run_with_bearer\<close> writes to the standard input.\<close>

definition bearer_stdin :: "string \<Rightarrow> string" where
  "bearer_stdin token = ''header = '' @ [DQ] @ ''Authorization: Bearer '' @ token @ [DQ, NL]"

definition run_with_bearer :: "host_env \<Rightarrow> string list \<Rightarrow> string \<Rightarrow> ('e, bearer_outcome) hostm" where
  "run_with_bearer env args token h =
     (Inr (he_curl env (h_log h) args (bearer_stdin token)), log_effect (Eff_Curl args (bearer_stdin token)) h)"

section \<open>Paths\<close>

text \<open>\<open>Path::join\<close> with a relative component, on Unix and on Windows.\<close>

definition path_join :: "path \<Rightarrow> string \<Rightarrow> path" where
  "path_join dir x = (if dir = [] \<or> last dir = CHR ''/'' then dir @ x else dir @ ''/'' @ x)"

definition path_join_win :: "path \<Rightarrow> string \<Rightarrow> path" where
  "path_join_win dir x =
     (if dir = [] \<or> last dir \<in> {CHR ''/'', BSL} \<or> (length dir = 2 \<and> is_ascii_alphabetic (hd dir) \<and> last dir = CHR '':'')
      then dir @ x else dir @ [BSL] @ x)"

definition program_data_state_dir :: "string option \<Rightarrow> path" where
  "program_data_state_dir program_data =
     (let root = (case program_data of Some p \<Rightarrow> p | None \<Rightarrow> ''C:'' @ [BSL] @ ''ProgramData'')
      in path_join_win (path_join_win root ''witness'') ''state'')"

definition state_dir :: "host_env \<Rightarrow> path" where
  "state_dir env =
     (case he_os env of
        Os_Windows \<Rightarrow> program_data_state_dir (he_program_data env)
      | Os_MacOS \<Rightarrow>
          if he_privileged env then ''/Library/Application Support/witness''
          else (case he_home env of
                  Some home \<Rightarrow> from_utf8_lossy (path_join home ''Library/Application Support/witness'')
                | None \<Rightarrow> ''/tmp/witness'')
      | _ \<Rightarrow> ''/var/lib/witness'')"

definition trim_slashes :: "path \<Rightarrow> path" where
  "trim_slashes p = rev (dropWhile ((=) (CHR ''/'')) (rev p))"

text \<open>
  \<open>Path::parent\<close>: what precedes the last component, without its separators; the root has none. On
  Windows the backslash separates too, and a drive is a prefix.
\<close>

definition is_separator :: "target_os \<Rightarrow> char \<Rightarrow> bool" where
  "is_separator os c \<longleftrightarrow> c = CHR ''/'' \<or> os = Os_Windows \<and> c = BSL"

definition trim_separators :: "target_os \<Rightarrow> path \<Rightarrow> path" where
  "trim_separators os p = rev (dropWhile (is_separator os) (rev p))"

definition drive_prefix :: "target_os \<Rightarrow> path \<Rightarrow> path" where
  "drive_prefix os p =
     (if os = Os_Windows \<and> 2 \<le> length p \<and> is_ascii_alphabetic (p ! 0) \<and> p ! 1 = CHR '':'' then take 2 p else [])"

definition parent_dir :: "target_os \<Rightarrow> path \<Rightarrow> path option" where
  "parent_dir os p =
     (let drive = drive_prefix os p; q = trim_separators os (drop (length drive) p) in
      if q = [] then None
      else (let up = rev (dropWhile (Not \<circ> is_separator os) (rev q)); t = trim_separators os up in
            Some (drive @ (if t = [] then take 1 up else t))))"

section \<open>Laws\<close>

lemma hbind_run [simp]:
  "hbind (hret x) k = k x" "hbind (hfail e) k = hfail e" "hbind (hget f) k h = k (f h) h"
  by (simp_all add: hbind_def hret_def hfail_def hget_def fun_eq_iff)

text \<open>
  \<open>adds P m\<close>: the effects \<open>m\<close> attempts satisfy \<open>P\<close>, and nothing is removed from the record.
  \<open>frame S m\<close>: only files in \<open>S\<close> change. Both are compositional, so that the frame of a flow follows from
  its text.
\<close>

definition adds :: "(host_effect \<Rightarrow> bool) \<Rightarrow> ('e, 'a) hostm \<Rightarrow> bool" where
  "adds P m \<longleftrightarrow> (\<forall>h. \<exists>es. h_log (snd (m h)) = h_log h @ es \<and> list_all P es)"

definition frame :: "path set \<Rightarrow> ('e, 'a) hostm \<Rightarrow> bool" where
  "frame S m \<longleftrightarrow> (\<forall>h p. p \<notin> S \<longrightarrow> h_files (snd (m h)) p = h_files h p)"

named_theorems adds_rules \<open>what a computation adds to the record of effects\<close>
named_theorems frame_rules \<open>which files a computation leaves alone\<close>

lemma adds_pure [adds_rules]: "adds P (hret x)" "adds P (hfail e)" "adds P (hget f)" "adds P (path_exists p)"
  by (simp_all add: adds_def hret_def hfail_def hget_def path_exists_def)

lemma adds_fs_op [adds_rules]: "P e \<Longrightarrow> adds P (fs_op env err e)"
  by (auto simp: adds_def fs_op_def log_effect_def Let_def)

lemma adds_fs_write [adds_rules]: "P (Eff_Write p s) \<Longrightarrow> adds P (fs_write env err p s)"
  by (auto simp: adds_def fs_write_def log_effect_def Let_def split: write_outcome.split)

lemma adds_command [adds_rules]: "P (Eff_Cmd cmd args) \<Longrightarrow> adds P (command_output env cmd args)"
  by (auto simp: adds_def command_output_def log_effect_def)

lemma adds_chown [adds_rules]: "P (Eff_Chown p u g) \<Longrightarrow> adds P (chown_ignored p u g)"
  by (auto simp: adds_def chown_ignored_def log_effect_def)

lemma adds_curl [adds_rules]: "P (Eff_Curl args (bearer_stdin token)) \<Longrightarrow> adds P (run_with_bearer env args token)"
  by (auto simp: adds_def run_with_bearer_def log_effect_def)

lemma adds_hbind [adds_rules]:
  assumes "adds P m" and "\<And>x. adds P (k x)"
  shows "adds P (hbind m k)"
  unfolding adds_def
proof
  fix h
  obtain r h' where m: "m h = (r, h')" by (rule prod.exhaust)
  obtain es where es: "h_log h' = h_log h @ es" "list_all P es" using assms(1) m unfolding adds_def by (metis snd_conv)
  show "\<exists>es. h_log (snd (hbind m k h)) = h_log h @ es \<and> list_all P es"
  proof (cases r)
    case (Inl e)
    with m es show ?thesis by (simp add: hbind_def)
  next
    case (Inr x)
    obtain es' where "h_log (snd (k x h')) = h_log h' @ es'" "list_all P es'" using assms(2) unfolding adds_def by metis
    with m es Inr show ?thesis by (intro exI [of _ "es @ es'"]) (simp add: hbind_def)
  qed
qed

lemma adds_hthen [adds_rules]: "adds P m \<Longrightarrow> adds P k \<Longrightarrow> adds P (hthen m k)"
  by (simp add: hthen_def adds_hbind)

lemma adds_wrap [adds_rules]: "adds P m \<Longrightarrow> adds P (hmap_err f m)" "adds P m \<Longrightarrow> adds P (htry m)"
  by (auto simp: adds_def hmap_err_def htry_def split: prod.split) (metis snd_conv)+

lemma adds_cases [adds_rules]:
  "(b \<Longrightarrow> adds P m) \<Longrightarrow> (\<not> b \<Longrightarrow> adds P m') \<Longrightarrow> adds P (if b then m else m')"
  "(\<And>x. adds P (f x)) \<Longrightarrow> adds P n \<Longrightarrow> adds P (case c of Some x \<Rightarrow> f x | None \<Rightarrow> n)"
  by (auto split: option.split)

lemma adds_mono: "adds P m \<Longrightarrow> (\<And>e. P e \<Longrightarrow> Q e) \<Longrightarrow> adds Q m"
  unfolding adds_def list_all_iff by metis

lemma frame_pure [frame_rules]:
  "frame S (hret x)" "frame S (hfail e)" "frame S (hget f)" "frame S (path_exists p)"
  "frame S (command_output env cmd args)" "frame S (chown_ignored p u g)" "frame S (run_with_bearer env args token)"
  by (simp_all add: frame_def hret_def hfail_def hget_def path_exists_def command_output_def chown_ignored_def
      run_with_bearer_def log_effect_def)

lemma frame_fs_op [frame_rules]:
  "frame S (fs_op env err (Eff_Mkdir p))" "frame S (fs_op env err (Eff_Chmod p m))"
  "dst \<in> S \<Longrightarrow> frame S (fs_op env err (Eff_Copy src dst))" "p \<in> S \<Longrightarrow> frame S (fs_op env err (Eff_Remove p))"
  by (auto simp: frame_def fs_op_def log_effect_def Let_def)

lemma frame_fs_write [frame_rules]: "p \<in> S \<Longrightarrow> frame S (fs_write env err p s)"
  by (auto simp: frame_def fs_write_def log_effect_def Let_def split: write_outcome.split)

lemma frame_hbind [frame_rules]:
  assumes "frame S m" and "\<And>x. frame S (k x)"
  shows "frame S (hbind m k)"
  using assms unfolding frame_def hbind_def by (auto split: prod.split sum.split) (metis snd_conv)+

lemma frame_hthen [frame_rules]: "frame S m \<Longrightarrow> frame S k \<Longrightarrow> frame S (hthen m k)"
  by (simp add: hthen_def frame_hbind)

lemma frame_wrap [frame_rules]: "frame S m \<Longrightarrow> frame S (hmap_err f m)" "frame S m \<Longrightarrow> frame S (htry m)"
  by (auto simp: frame_def hmap_err_def htry_def split: prod.split) (metis snd_conv)+

lemma frame_cases [frame_rules]:
  "(b \<Longrightarrow> frame S m) \<Longrightarrow> (\<not> b \<Longrightarrow> frame S m') \<Longrightarrow> frame S (if b then m else m')"
  "(\<And>x. frame S (f x)) \<Longrightarrow> frame S n \<Longrightarrow> frame S (case c of Some x \<Rightarrow> f x | None \<Rightarrow> n)"
  by (auto split: option.split)

lemma addsD: "adds P m \<Longrightarrow> m h = (r, h') \<Longrightarrow> \<exists>es. h_log h' = h_log h @ es \<and> list_all P es"
  unfolding adds_def by (metis snd_conv)

lemma frameD: "frame S m \<Longrightarrow> m h = (r, h') \<Longrightarrow> p \<notin> S \<Longrightarrow> h_files h' p = h_files h p"
  unfolding frame_def by (metis snd_conv)

lemma frame_mono: "frame S m \<Longrightarrow> S \<subseteq> S' \<Longrightarrow> frame S' m"
  unfolding frame_def by blast

lemma hbind_cases:
  assumes "hbind m k h = (r, h')"
  obtains (Stops) e where "m h = (Inl e, h')" "r = Inl e" | (Goes) x h1 where "m h = (Inr x, h1)" "k x h1 = (r, h')"
  using assms by (auto simp: hbind_def split: prod.splits sum.splits)

lemma hthen_cases:
  assumes "hthen m k h = (r, h')"
  obtains (Stops) e where "m h = (Inl e, h')" "r = Inl e" | (Goes) x h1 where "m h = (Inr x, h1)" "k h1 = (r, h')"
  using assms unfolding hthen_def by (rule hbind_cases)

end
