(* ===== verification/Setup.thy ===== *)
theory Setup
  imports Host
begin

text \<open>
  \<open>src/setup.rs\<close>: \<open>witness setup\<close> fetches a configuration with \<open>curl\<close>, or generates one, and
  writes it to the configuration file. The printed progress is not modelled.
\<close>

section \<open>Data\<close>

definition DEFAULT_SERVER :: string where "DEFAULT_SERVER = ''https://tell.rs''"
definition DEFAULT_ENDPOINT :: string where "DEFAULT_ENDPOINT = ''collect.tell.rs:50000''"

record setup_args =
  sa_token :: string
  sa_server :: string
  sa_endpoint :: "string option"
  sa_config :: path
  sa_offline :: bool
  sa_force :: bool

text \<open>The errors that reach a caller as \<open>Box<dyn Error>\<close>.\<close>

datatype box_error = Box_Io | Box_Message string | Box_Utf8 | Box_Nul

section \<open>Operations\<close>

definition validate_token :: "string \<Rightarrow> (box_error, unit) hostm" where
  "validate_token token =
     (if token = [] then hfail (Box_Message ''--token is required'')
      else case validate_api_key token of
             Inl e \<Rightarrow> hfail (Box_Message (''invalid --token: '' @ e))
           | Inr _ \<Rightarrow> hret ())"

definition fetch_args :: "string \<Rightarrow> string \<Rightarrow> string list" where
  "fetch_args version server =
     [''-sSf'', ''--max-time'', ''10'', ''-H'', ''User-Agent: witness/'' @ version, ''--config'', ''-'',
      trim_slashes server @ ''/v1/agent/config'']"

definition fetch_config :: "host_env \<Rightarrow> string \<Rightarrow> string \<Rightarrow> (box_error, string) hostm" where
  "fetch_config env server token =
     hbind (run_with_bearer env (fetch_args (he_version env) server) token) (\<lambda>r.
       case r of
         Bearer_Error e \<Rightarrow> hfail (Box_Message (''curl not found: '' @ e))
       | Bearer_Output success out err \<Rightarrow>
           if \<not> success then hfail (Box_Message (''HTTP request failed: '' @ trim (from_utf8_lossy err)))
           else if \<not> utf8_valid out then hfail Box_Utf8
           else if trim out = [] then hfail (Box_Message ''server returned empty config'')
           else hret out)"

text \<open>A text made of lines that all end in a line feed.\<close>

definition text_of_lines :: "string list \<Rightarrow> string" where
  "text_of_lines ls = concat (map (\<lambda>l. l @ [NL]) ls)"

definition default_log_lines :: "bool \<Rightarrow> string list" where
  "default_log_lines journalctl =
     [[],
      ''# Log ingestion: '' @ [DQ] @ ''journald'' @ [DQ] @ '', '' @ [DQ] @ ''files'' @ [DQ] @ '', or '' @ [DQ] @ ''auto'' @ [DQ]]
     @ (if journalctl then [''log_source = '' @ [DQ] @ ''journald'' @ [DQ]]
        else [''log_source = '' @ [DQ] @ ''files'' @ [DQ],
              [],
              ''logs = ['',
              ''    '' @ [DQ] @ ''/var/log/syslog'' @ [DQ] @ '','',
              ''    '' @ [DQ] @ ''/var/log/auth.log'' @ [DQ] @ '','',
              '']''])"

definition generate_default :: "host_env \<Rightarrow> string \<Rightarrow> string \<Rightarrow> string" where
  "generate_default env api_key endpoint =
     text_of_lines
       ([''api_key = '' @ [DQ] @ api_key @ [DQ],
         ''endpoint = '' @ [DQ] @ endpoint @ [DQ]]
        @ default_log_lines (he_journalctl env))"

text \<open>The text that is written: the fetched one only if it parses.\<close>

definition choose_config :: "deps \<Rightarrow> host_env \<Rightarrow> setup_args \<Rightarrow> (box_error, string) hostm" where
  "choose_config d env args =
     (let endpoint = (case sa_endpoint args of Some e \<Rightarrow> e | None \<Rightarrow> DEFAULT_ENDPOINT);
          local = generate_default env (sa_token args) endpoint
      in if sa_offline args then hret local
         else hbind (htry (fetch_config env (sa_server args) (sa_token args))) (\<lambda>r.
                case r of
                  Inr toml \<Rightarrow> hret (case parse_config d (he_os env) toml of Inr _ \<Rightarrow> toml | Inl _ \<Rightarrow> local)
                | Inl _ \<Rightarrow> hret local))"

definition create_parent :: "host_env \<Rightarrow> path \<Rightarrow> (box_error, unit) hostm" where
  "create_parent env p = (case parent_dir (he_os env) p of Some up \<Rightarrow> fs_op env Box_Io (Eff_Mkdir up) | None \<Rightarrow> hret ())"

text \<open>Mode 640 and, where the group exists, owner \<open>root:witness\<close>; only on Unix.\<close>

definition restrict_config :: "host_env \<Rightarrow> path \<Rightarrow> (box_error, unit) hostm" where
  "restrict_config env p =
     (if he_os env = Os_Windows then hret ()
      else hthen (fs_op env Box_Io (Eff_Chmod p (octal 6 4 0)))
        (if CHR 0x00 \<in> set p then hfail Box_Nul
         else (case he_witness_gid env of Some gid \<Rightarrow> chown_ignored p 0 gid | None \<Rightarrow> hret ())))"

definition setup_execute :: "deps \<Rightarrow> host_env \<Rightarrow> setup_args \<Rightarrow> (box_error, unit) hostm" where
  "setup_execute d env args =
     hthen (validate_token (sa_token args))
       (hbind (path_exists (sa_config args)) (\<lambda>present.
          if present \<and> \<not> sa_force args
          then hfail (Box_Message (''config already exists at '' @ from_utf8_lossy (sa_config args) @ ''. Use --force to overwrite.''))
          else hbind (choose_config d env args) (\<lambda>toml.
                 hthen (create_parent env (sa_config args))
                   (hthen (fs_write env Box_Io (sa_config args) toml)
                      (restrict_config env (sa_config args))))))"

definition execute_checked :: "deps \<Rightarrow> host_env \<Rightarrow> setup_args \<Rightarrow> (box_error, unit) hostm" where
  "execute_checked d env args = setup_execute d env args"

text \<open>\<open>run\<close>: the exit status of \<open>witness setup\<close>.\<close>

definition setup_run :: "deps \<Rightarrow> host_env \<Rightarrow> setup_args \<Rightarrow> host \<Rightarrow> nat \<times> host" where
  "setup_run d env args h =
     (case setup_execute d env args h of (Inl _, h') \<Rightarrow> (1, h') | (Inr _, h') \<Rightarrow> (0, h'))"

end
