(* ===== verification/Setup_Props.thy ===== *)
theory Setup_Props
  imports Setup Config_Props Rust_Words
begin

text \<open>
  What \<open>witness setup\<close> changes and when: the configuration file is replaced only by a text that
  parses or by the local default, and the token never reaches the command line of \<open>curl\<close>.
\<close>

section \<open>Frames\<close>

definition token_ok :: "string \<Rightarrow> bool" where
  "token_ok t \<longleftrightarrow> length t = 32 \<and> (\<forall>b \<in> set t. is_ascii_hexdigit b)"

lemma validate_token_run: "validate_token t = (if token_ok t then hret () else validate_token t)"
  and validate_token_fails: "\<not> token_ok t \<Longrightarrow> \<exists>e. validate_token t = hfail e"
proof -
  have "validate_api_key t = Inr () \<longleftrightarrow> token_ok t" using validate_api_key_ok [of t "()"] by (simp add: token_ok_def)
  moreover have "token_ok [] = False" by (simp add: token_ok_def)
  ultimately show "validate_token t = (if token_ok t then hret () else validate_token t)"
    and "\<not> token_ok t \<Longrightarrow> \<exists>e. validate_token t = hfail e"
    by (auto simp: validate_token_def split: sum.split)
qed

lemma frame_fetch [frame_rules]: "frame S (fetch_config env server token)"
  unfolding fetch_config_def by (intro frame_rules) (auto intro: frame_rules split: bearer_outcome.split)

lemma frame_choose [frame_rules]: "frame S (choose_config d env args)"
  unfolding choose_config_def Let_def by (intro frame_rules) (auto intro: frame_rules split: sum.split)

lemma frame_create_parent [frame_rules]: "frame S (create_parent env p)"
  unfolding create_parent_def by (intro frame_rules)

lemma frame_restrict [frame_rules]: "frame S (restrict_config env p)"
  unfolding restrict_config_def by (intro frame_rules)

lemma frame_setup [frame_rules]: "sa_config args \<in> S \<Longrightarrow> frame S (execute_checked d env args)"
  unfolding execute_checked_def setup_execute_def
  by (auto intro!: frame_rules simp: validate_token_def split: sum.split)

text \<open>The effects of a setup.\<close>

fun setup_effect :: "host_env \<Rightarrow> setup_args \<Rightarrow> host_effect \<Rightarrow> bool" where
  "setup_effect env args (Eff_Curl argv stdin) \<longleftrightarrow>
     \<not> sa_offline args \<and> argv = fetch_args (he_version env) (sa_server args) \<and> stdin = bearer_stdin (sa_token args)"
| "setup_effect env args (Eff_Mkdir p) \<longleftrightarrow> parent_dir (he_os env) (sa_config args) = Some p"
| "setup_effect env args (Eff_Write p s) \<longleftrightarrow> p = sa_config args"
| "setup_effect env args (Eff_Chmod p m) \<longleftrightarrow> p = sa_config args \<and> m = octal 6 4 0"
| "setup_effect env args (Eff_Chown p u g) \<longleftrightarrow> p = sa_config args \<and> u = 0 \<and> he_witness_gid env = Some g"
| "setup_effect env args _ \<longleftrightarrow> False"

lemma adds_fetch:
  "\<not> sa_offline args \<Longrightarrow> adds (setup_effect env args) (fetch_config env (sa_server args) (sa_token args))"
  unfolding fetch_config_def by (auto intro!: adds_rules split: bearer_outcome.split)

lemma adds_validate [adds_rules]: "adds P (validate_token t)"
  by (auto simp: validate_token_def intro: adds_rules split: sum.split)

lemma adds_choose: "adds (setup_effect env args) (choose_config d env args)"
proof (cases "sa_offline args")
  case True
  then show ?thesis by (simp add: choose_config_def Let_def adds_rules)
next
  case False
  then show ?thesis
    unfolding choose_config_def Let_def
    by (auto intro!: adds_hbind adds_wrap adds_fetch adds_pure split: sum.split)
qed

lemma adds_setup: "adds (setup_effect env args) (execute_checked d env args)"
proof -
  have "adds (setup_effect env args) (create_parent env (sa_config args))"
    by (cases "parent_dir (he_os env) (sa_config args)") (simp_all add: create_parent_def adds_rules)
  moreover have "adds (setup_effect env args) (restrict_config env (sa_config args))"
    by (cases "he_witness_gid env") (simp_all add: restrict_config_def adds_rules)
  ultimately show ?thesis
    unfolding execute_checked_def setup_execute_def
    by (intro adds_rules adds_choose) simp_all
qed

section \<open>The text that is written\<close>

definition setup_text :: "deps \<Rightarrow> host_env \<Rightarrow> setup_args \<Rightarrow> string \<Rightarrow> bool" where
  "setup_text d env args toml \<longleftrightarrow>
     toml = generate_default env (sa_token args) (case sa_endpoint args of Some e \<Rightarrow> e | None \<Rightarrow> DEFAULT_ENDPOINT)
     \<or> (\<not> sa_offline args \<and> utf8_valid toml \<and> (\<exists>c. parse_config d (he_os env) toml = Inr c))"

lemma fetch_utf8: "fetch_config env server token h = (Inr s, h') \<Longrightarrow> utf8_valid s"
  by (auto simp: fetch_config_def hbind_def hfail_def hret_def split: prod.splits sum.splits bearer_outcome.splits if_splits)

lemma choose_config_total: "\<exists>toml h'. choose_config d env args h = (Inr toml, h') \<and> setup_text d env args toml"
proof (cases "sa_offline args")
  case True
  then show ?thesis by (simp add: choose_config_def Let_def hret_def setup_text_def)
next
  case False
  then show ?thesis
    by (auto simp: choose_config_def Let_def hbind_def htry_def hret_def setup_text_def dest: fetch_utf8
        split: prod.split sum.split)
qed

lemma fs_write_cases:
  "fs_write env err p s h = (r, h') \<Longrightarrow>
     (r = Inr () \<and> h_files h' p = Some s) \<or> (r = Inl err \<and> (h_files h' p = h_files h p \<or> (\<exists>n. h_files h' p = Some (take n s))))"
  by (auto simp: fs_write_def log_effect_def Let_def split: write_outcome.splits)

lemma setup_refused:
  "\<not> token_ok (sa_token args) \<or> (h_files h (sa_config args) \<noteq> None \<and> \<not> sa_force args) \<Longrightarrow>
     \<exists>e. setup_execute d env args h = (Inl e, h)"
  using validate_token_fails [of "sa_token args"] validate_token_run [of "sa_token args"]
  by (cases "token_ok (sa_token args)")
    (auto simp: setup_execute_def hthen_def hfail_def path_exists_def)

lemma setup_runs:
  assumes "token_ok (sa_token args)" and "h_files h (sa_config args) = None \<or> sa_force args"
  shows "setup_execute d env args h =
     hbind (choose_config d env args) (\<lambda>toml. hthen (create_parent env (sa_config args))
       (hthen (fs_write env Box_Io (sa_config args) toml) (restrict_config env (sa_config args)))) h"
proof -
  have v: "validate_token (sa_token args) = hret ()" using assms(1) validate_token_run [of "sa_token args"] by simp
  show ?thesis using assms(2) by (auto simp: setup_execute_def hthen_def v path_exists_def)
qed

lemma setup_file:
  assumes "setup_execute d env args h = (r, h')"
  shows "h_files h' (sa_config args) = h_files h (sa_config args) \<and> r \<noteq> Inr ()
    \<or> (\<exists>toml. setup_text d env args toml \<and> (h_files h' (sa_config args) = Some toml
        \<or> r \<noteq> Inr () \<and> (\<exists>n. h_files h' (sa_config args) = Some (take n toml))))"
proof (cases "token_ok (sa_token args) \<and> (h_files h (sa_config args) = None \<or> sa_force args)")
  case False
  with setup_refused [of args h d env] assms show ?thesis by auto
next
  case True
  let ?p = "sa_config args"
  obtain toml h1 where c: "choose_config d env args h = (Inr toml, h1)" "setup_text d env args toml"
    using choose_config_total by blast
  obtain r2 h2 where p: "create_parent env ?p h1 = (r2, h2)" by (rule prod.exhaust)
  have same: "h_files h2 ?p = h_files h ?p"
    using frameD [OF frame_choose c(1), of ?p "{}"] frameD [OF frame_create_parent p, of ?p "{}"] by simp
  show ?thesis
  proof (cases r2)
    case (Inl e)
    with assms True setup_runs [of args h d env] c p same show ?thesis by (auto simp: hbind_def hthen_def)
  next
    case (Inr u)
    obtain r3 h3 where w: "fs_write env Box_Io ?p toml h2 = (r3, h3)" by (rule prod.exhaust)
    have res: "(r, h') = (case r3 of Inl e \<Rightarrow> (Inl e, h3) | Inr _ \<Rightarrow> restrict_config env ?p h3)"
      using assms True setup_runs [of args h d env] c p Inr w by (auto simp: hbind_def hthen_def split: sum.split)
    show ?thesis
    proof (cases r3)
      case (Inl e)
      with res fs_write_cases [OF w] same c(2) show ?thesis by auto
    next
      case (Inr u)
      with res have "restrict_config env ?p h3 = (r, h')" by simp
      from frameD [OF frame_restrict this, of ?p "{}"] fs_write_cases [OF w] Inr c(2) show ?thesis by auto
    qed
  qed
qed

section \<open>Properties\<close>

text \<open>
  C14: \<open>witness setup\<close> never harms a configuration it was not told to replace. Whatever fails, no
  file but the configuration file changes. With an invalid token, or an existing file and no
  \<open>--force\<close>, nothing at all happens, not even a request. When it succeeds the file holds the local
  default or a text of the server that parses. The token is passed to \<open>curl\<close> only through its
  standard input, as a single line, and with \<open>--offline\<close> there is no request.
\<close>

theorem setup_safe:
  assumes "setup_execute d env args h = (r, h')"
  shows "(\<forall>p. p \<noteq> sa_config args \<longrightarrow> h_files h' p = h_files h p)
    \<and> (\<not> token_ok (sa_token args) \<or> (h_files h (sa_config args) \<noteq> None \<and> \<not> sa_force args)
        \<longrightarrow> r \<noteq> Inr () \<and> h' = h)
    \<and> (r = Inr () \<longrightarrow> (\<exists>toml. h_files h' (sa_config args) = Some toml \<and> setup_text d env args toml))
    \<and> (\<exists>es. h_log h' = h_log h @ es \<and>
         (\<forall>argv stdin. Eff_Curl argv stdin \<in> set es \<longrightarrow>
            \<not> sa_offline args \<and> argv = fetch_args (he_version env) (sa_server args)
            \<and> stdin = bearer_stdin (sa_token args) \<and> count_list stdin NL = 1))"
proof (intro conjI allI impI)
  fix p assume "p \<noteq> sa_config args"
  with frameD [OF frame_setup [of args "{sa_config args}"], of d env h r h' p] assms
  show "h_files h' p = h_files h p" by (simp add: execute_checked_def)
next
  assume "\<not> token_ok (sa_token args) \<or> (h_files h (sa_config args) \<noteq> None \<and> \<not> sa_force args)"
  from setup_refused [OF this, of d env] assms show "r \<noteq> Inr ()" and "h' = h" by auto
next
  assume "r = Inr ()"
  with setup_file [OF assms] show "\<exists>toml. h_files h' (sa_config args) = Some toml \<and> setup_text d env args toml" by auto
next
  obtain es where es: "h_log h' = h_log h @ es" "list_all (setup_effect env args) es"
    using adds_setup [of env args d] assms unfolding adds_def execute_checked_def by (metis snd_conv)
  have "\<not> sa_offline args \<and> argv = fetch_args (he_version env) (sa_server args)
      \<and> stdin = bearer_stdin (sa_token args) \<and> count_list stdin NL = 1" if "Eff_Curl argv stdin \<in> set es" for argv stdin
  proof -
    from es(2) that have "setup_effect env args (Eff_Curl argv stdin)" by (metis list_all_iff)
    moreover have "token_ok (sa_token args)" using setup_refused [of args h d env] assms es that by (cases "token_ok (sa_token args)") auto
    then have "NL \<notin> set (sa_token args)" by (auto simp: token_ok_def is_ascii_hexdigit_def is_ascii_digit_def code_def)
    ultimately show ?thesis by (auto simp: bearer_stdin_def)
  qed
  with es(1) show "\<exists>es. h_log h' = h_log h @ es \<and>
         (\<forall>argv stdin. Eff_Curl argv stdin \<in> set es \<longrightarrow>
            \<not> sa_offline args \<and> argv = fetch_args (he_version env) (sa_server args)
            \<and> stdin = bearer_stdin (sa_token args) \<and> count_list stdin NL = 1)"
    by blast
qed

definition demo_env :: host_env where
  "demo_env =
     \<lparr>he_os = Os_Linux, he_privileged = True, he_version = ''0.1.0'', he_exe = Some ''/tmp/witness'', he_canonical = Some,
      he_home = None, he_program_data = None, he_witness_gid = Some 990, he_journalctl = True,
      he_io = (\<lambda>_ _. True), he_write = (\<lambda>_ _. Write_Done), he_cmd = (\<lambda>_ _ _. Cmd_Exit True [] []),
      he_curl = (\<lambda>_ _ _. Bearer_Output True ''min'' []), he_scm = (\<lambda>_ _. Inr Ws_Stopped)\<rparr>"

definition demo_host :: host where "demo_host = \<lparr>h_files = Map.empty, h_log = []\<rparr>"

definition demo_args :: setup_args where
  "demo_args = \<lparr>sa_token = demo_key, sa_server = ''https://tell.rs/'', sa_endpoint = None, sa_config = ''/etc/c'',
     sa_offline = False, sa_force = False\<rparr>"

lemma demo_token: "token_ok demo_key"
  using demo_key_ok by (simp add: token_ok_def)

lemma trim_min: "trim ''min'' = ''min''"
  by (rule trim_word) code_simp

lemma demo_setup:
  "setup_execute demo_config_deps demo_env demo_args demo_host =
     (Inr (), \<lparr>h_files = [''/etc/c'' \<mapsto> ''min''],
       h_log = [Eff_Curl (fetch_args ''0.1.0'' ''https://tell.rs/'') (bearer_stdin demo_key),
                Eff_Mkdir ''/etc'', Eff_Write ''/etc/c'' ''min'', Eff_Chmod ''/etc/c'' 416, Eff_Chown ''/etc/c'' 0 990]\<rparr>)"
proof -
  have "parent_dir Os_Linux ''/etc/c'' = Some ''/etc''"
    by (simp add: parent_dir_def trim_separators_def is_separator_def drive_prefix_def Let_def)
  moreover have "utf8_valid ''min''" by (rule utf8_valid_ascii) (simp add: code_def)
  ultimately show ?thesis
    using demo_token parse_demo [of Os_Linux] trim_min
    by (subst setup_runs)
      (simp_all add: demo_args_def demo_host_def demo_env_def choose_config_def fetch_config_def run_with_bearer_def
        create_parent_def restrict_config_def fs_op_def fs_write_def chown_ignored_def log_effect_def htry_def
        hbind_def hthen_def hret_def Let_def octal_def)
qed

theorem setup_safe_witness:
  "\<exists>h'. setup_execute demo_config_deps demo_env demo_args demo_host = (Inr (), h')
     \<and> (\<exists>toml. h_files h' ''/etc/c'' = Some toml \<and> setup_text demo_config_deps demo_env demo_args toml)"
proof (rule exI [of _ "snd (setup_execute demo_config_deps demo_env demo_args demo_host)"], rule conjI)
  show "\<exists>toml. h_files (snd (setup_execute demo_config_deps demo_env demo_args demo_host)) ''/etc/c'' = Some toml
     \<and> setup_text demo_config_deps demo_env demo_args toml"
    using setup_safe [OF demo_setup] by (simp add: demo_setup) (simp add: demo_args_def)
qed (simp add: demo_setup)

section \<open>From setup to the agent\<close>

text \<open>The members of the document that \<open>generate_default\<close> prints.\<close>

definition default_members :: "host_env \<Rightarrow> string \<Rightarrow> string \<Rightarrow> (string \<times> toml) list" where
  "default_members env key ep =
     [(''api_key'', T_String key), (''endpoint'', T_String ep)]
     @ (if he_journalctl env then [(''log_source'', T_String ''journald'')]
        else [(''log_source'', T_String ''files''),
              (''logs'', T_Array [T_String ''/var/log/syslog'', T_String ''/var/log/auth.log''])])"

definition setup_config :: "host_env \<Rightarrow> string \<Rightarrow> string \<Rightarrow> agent_config" where
  "setup_config env key ep =
     (default_config (he_os env) key)\<lparr>ac_endpoint := ep,
        ac_log_source := (if he_journalctl env then Source_Journald else Source_Files),
        ac_logs := (if he_journalctl env then default_logs (he_os env) else [''/var/log/syslog'', ''/var/log/auth.log''])\<rparr>"

lemma de_default_members: "de_agent_config (he_os env) (default_members env key ep) = Some (setup_config env key ep)"
  by (simp add: default_members_def de_agent_config_def setup_config_def default_config_def default_config_poll_interval_def
      default_interval_def default_log_source_def default_eventlog_channels_def default_multiline_timeout_ms_def
      default_multiline_max_bytes_def default_batch_size_def)

lemma parse_setup_config:
  assumes "token_ok key" and "toml_read d s = Some (default_members env key ep)"
  shows "parse_config d (he_os env) s = Inr (setup_config env key ep)"
proof -
  have "validate_api_key key = Inr ()" using assms(1) validate_api_key_ok [of key "()"] by (simp add: token_ok_def)
  then show ?thesis using assms(2) de_default_members [of env key ep]
    by (simp add: parse_config_def setup_config_def default_config_def)
qed

lemma text_of_lines_append: "text_of_lines (xs @ ys) = text_of_lines xs @ text_of_lines ys"
  by (simp add: text_of_lines_def)

lemma token_ascii: "token_ok t \<Longrightarrow> \<forall>c \<in> set t. code c < 128"
  by (auto simp: token_ok_def is_ascii_hexdigit_def is_ascii_digit_def)

lemma default_log_lines_ascii: "\<forall>c \<in> set (text_of_lines (default_log_lines j)). code c < 128"
  by (cases j) (simp_all add: default_log_lines_def text_of_lines_def code_def)

lemma utf8_quoted_line:
  assumes "utf8_valid s" and "\<forall>c \<in> set a. code c < 128"
  shows "utf8_valid (text_of_lines [a @ [DQ] @ s @ [DQ]])"
proof -
  have "utf8_valid (a @ [DQ])" "utf8_valid [DQ, NL]" using assms(2) by (auto intro!: utf8_valid_ascii simp: code_def)
  from utf8_valid_append [OF this(1) utf8_valid_append [OF assms(1) this(2)]]
  have "utf8_valid ((a @ [DQ]) @ s @ [DQ, NL])" .
  then show ?thesis by (simp add: text_of_lines_def)
qed

lemma utf8_generate_default:
  assumes "token_ok key" and "utf8_valid ep"
  shows "utf8_valid (generate_default env key ep)"
proof -
  have "utf8_valid (text_of_lines [''api_key = '' @ [DQ] @ key @ [DQ]])"
    by (rule utf8_quoted_line) (use token_ascii [OF assms(1)] in \<open>auto intro: utf8_valid_ascii simp: code_def\<close>)
  moreover have "utf8_valid (text_of_lines [''endpoint = '' @ [DQ] @ ep @ [DQ]])"
    by (rule utf8_quoted_line [OF assms(2)]) (simp add: code_def)
  moreover have "utf8_valid (text_of_lines (default_log_lines (he_journalctl env)))"
    by (rule utf8_valid_ascii [OF default_log_lines_ascii])
  ultimately have "utf8_valid (text_of_lines [''api_key = '' @ [DQ] @ key @ [DQ]]
      @ text_of_lines [''endpoint = '' @ [DQ] @ ep @ [DQ]] @ text_of_lines (default_log_lines (he_journalctl env)))"
    by (intro utf8_valid_append)
  then show ?thesis by (simp add: generate_default_def text_of_lines_def)
qed


definition demo_toml_deps :: deps where
  "demo_toml_deps = ref_deps\<lparr>toml_read := (\<lambda>s.
     if s = generate_default demo_env demo_key ''h:1'' then Some (default_members demo_env demo_key ''h:1'') else None)\<rparr>"


section \<open>Findings\<close>

text \<open>
  When the server answers with a configuration that parses, \<open>--endpoint\<close> has no effect, although it
  is documented as an override.
\<close>

theorem setup_endpoint_ignored:
  assumes "\<not> sa_offline args" and "fetch_config env (sa_server args) (sa_token args) h = (Inr toml, h1)"
    and "parse_config d (he_os env) toml = Inr c"
  shows "fst (choose_config d env (args\<lparr>sa_endpoint := ep\<rparr>) h) = Inr toml"
  using assms by (simp add: choose_config_def Let_def hbind_def htry_def hret_def)

text \<open>
  When the server that was named with \<open>--server\<close> does not answer, the generated configuration
  sends to the public collector.
\<close>

theorem setup_falls_back_to_cloud:
  assumes "\<not> sa_offline args" and "fetch_config env (sa_server args) (sa_token args) h = (Inl e, h1)"
    and "sa_endpoint args = None"
  shows "fst (choose_config d env args h) = Inr (generate_default env (sa_token args) ''collect.tell.rs:50000'')"
  using assms by (simp add: choose_config_def Let_def hbind_def htry_def hret_def DEFAULT_ENDPOINT_def)

end
