(* ===== verification/Install.thy ===== *)
theory Install
  imports Setup
begin

text \<open>
  \<open>witness install\<close>, \<open>uninstall\<close> and \<open>status\<close> on Linux (\<open>src/install/systemd.rs\<close>) and macOS
  (\<open>src/install/launchd.rs\<close>, \<open>platform.rs\<close>), and what the platforms share (\<open>src/install/mod.rs\<close>).
  The trait over \<open>launchctl\<close> is a record of functions; the platform of the program runs the
  command. Printed progress is not modelled.
\<close>

section \<open>Shared\<close>

definition INSTALL_DIR :: path where "INSTALL_DIR = ''/usr/local/bin''"
definition CONFIG_FILE :: path where "CONFIG_FILE = ''/etc/witness/config.toml''"
definition CONFIG_DIR :: path where "CONFIG_DIR = ''/etc/witness''"

record install_args =
  ia_token :: "string option"
  ia_server :: string
  ia_endpoint :: "string option"
  ia_offline :: bool
  ia_force :: bool

record uninstall_args =
  ua_purge :: bool

text \<open>The configuration path is that of the platform; \<open>win\<close> is the path on Windows.\<close>

definition setup_args_of :: "target_os \<Rightarrow> path \<Rightarrow> install_args \<Rightarrow> string \<Rightarrow> setup_args" where
  "setup_args_of os win args token =
     \<lparr>sa_token = token, sa_server = ia_server args, sa_endpoint = ia_endpoint args,
      sa_config = (if os = Os_Windows then win else CONFIG_FILE), sa_offline = ia_offline args, sa_force = ia_force args\<rparr>"

section \<open>Linux\<close>

definition SERVICE_FILE :: path where "SERVICE_FILE = ''/etc/systemd/system/witness.service''"

definition SYSTEMD_UNIT :: string where
  "SYSTEMD_UNIT =
     text_of_lines
       [''[Unit]'',
        ''Description=Witness Agent'',
        ''After=network-online.target'',
        ''Wants=network-online.target'',
        [],
        ''[Service]'',
        ''Type=simple'',
        ''ExecStart=/usr/local/bin/witness --config /etc/witness/config.toml'',
        ''ExecReload=/bin/kill -HUP $MAINPID'',
        ''Restart=always'',
        ''RestartSec=5'',
        ''User=witness'',
        ''Group=witness'',
        [],
        ''StandardOutput=journal'',
        ''StandardError=journal'',
        ''SyslogIdentifier=witness'',
        [],
        ''StateDirectory=witness'',
        [],
        ''ProtectSystem=strict'',
        ''ProtectHome=yes'',
        ''PrivateTmp=yes'',
        ''ReadOnlyPaths=/proc /sys /var/log'',
        ''ReadWritePaths=/var/lib/witness'',
        [],
        ''NoNewPrivileges=yes'',
        ''CapabilityBoundingSet='',
        ''RestrictSUIDSGID=yes'',
        ''SystemCallFilter=@system-service'',
        ''MemoryDenyWriteExecute=yes'',
        ''PrivateDevices=yes'',
        [],
        ''ProtectKernelTunables=yes'',
        ''ProtectKernelModules=yes'',
        ''ProtectKernelLogs=yes'',
        ''ProtectControlGroups=yes'',
        ''ProtectClock=yes'',
        [],
        ''RestrictNamespaces=yes'',
        ''LockPersonality=yes'',
        ''RestrictRealtime=yes'',
        [],
        ''[Install]'',
        ''WantedBy=multi-user.target'']"

definition run_cmd :: "host_env \<Rightarrow> string \<Rightarrow> string list \<Rightarrow> (box_error, unit) hostm" where
  "run_cmd env cmd args =
     hbind (command_output env cmd args) (\<lambda>r.
       case r of
         Cmd_Spawn_Error \<Rightarrow> hfail Box_Io
       | Cmd_Exit success out err \<Rightarrow>
           if success then hret () else hfail (Box_Message (cmd @ '' failed: '' @ trim (from_utf8_lossy err))))"

text \<open>The target of the copy exists and is the running binary itself.\<close>

definition is_running_binary :: "host_env \<Rightarrow> path \<Rightarrow> path \<Rightarrow> ('e, bool) hostm" where
  "is_running_binary env target current =
     hbind (path_exists target) (\<lambda>present. hret (present \<and> he_canonical env target = Some current))"

definition linux_install_binary :: "host_env \<Rightarrow> (box_error, unit) hostm" where
  "linux_install_binary env =
     (case he_exe env of
        None \<Rightarrow> hfail Box_Io
      | Some current \<Rightarrow>
          (let target = path_join INSTALL_DIR ''witness'' in
           hbind (is_running_binary env target current) (\<lambda>same.
             if same then hret ()
             else hthen (fs_op env Box_Io (Eff_Mkdir INSTALL_DIR))
                    (hthen (fs_op env Box_Io (Eff_Copy current target))
                       (fs_op env Box_Io (Eff_Chmod target (octal 7 5 5)))))))"

definition create_user :: "host_env \<Rightarrow> (box_error, unit) hostm" where
  "create_user env =
     hbind (command_output env ''id'' [''-u'', ''witness'']) (\<lambda>r.
       case r of
         Cmd_Spawn_Error \<Rightarrow> hfail Box_Io
       | Cmd_Exit True _ _ \<Rightarrow> hret ()
       | Cmd_Exit False _ _ \<Rightarrow>
           hthen (run_cmd env ''useradd'' [''--system'', ''--no-create-home'', ''--shell'', ''/usr/sbin/nologin'', ''witness''])
             (hbind (command_output env ''getent'' [''group'', ''adm'']) (\<lambda>g.
                case g of
                  Cmd_Exit True _ _ \<Rightarrow> hthen (htry (run_cmd env ''usermod'' [''-aG'', ''adm'', ''witness''])) (hret ())
                | _ \<Rightarrow> hret ())))"

definition install_service :: "host_env \<Rightarrow> bool \<Rightarrow> (box_error, unit) hostm" where
  "install_service env force =
     hbind (path_exists SERVICE_FILE) (\<lambda>present.
       if present \<and> \<not> force then hret ()
       else hthen (fs_op env Box_Io (Eff_Mkdir CONFIG_DIR))
              (hthen (fs_write env Box_Io SERVICE_FILE SYSTEMD_UNIT)
                 (run_cmd env ''systemctl'' [''daemon-reload''])))"

definition systemd_install :: "deps \<Rightarrow> host_env \<Rightarrow> install_args \<Rightarrow> (box_error, unit) hostm" where
  "systemd_install d env args =
     (if \<not> he_privileged env then hfail (Box_Message ''witness install must be run as root (use sudo)'')
      else hthen (linux_install_binary env)
             (hthen (create_user env)
                (hthen (install_service env (ia_force args))
                   (case ia_token args of
                      None \<Rightarrow> hret ()
                    | Some token \<Rightarrow>
                        hthen (execute_checked d env (setup_args_of Os_Linux [] args token))
                          (run_cmd env ''systemctl'' [''enable'', ''--now'', ''witness''])))))"

section \<open>launchctl\<close>

datatype install_error = Install_CommandFailed string string | Install_Io | Install_NotRoot

text \<open>The trait \<open>Platform\<close>.\<close>

record platform =
  pf_bootstrap :: "string \<Rightarrow> path \<Rightarrow> (install_error, unit) hostm"
  pf_bootout :: "string \<Rightarrow> string \<Rightarrow> (install_error, unit) hostm"
  pf_enable :: "string \<Rightarrow> string \<Rightarrow> (install_error, unit) hostm"
  pf_is_loaded :: "string \<Rightarrow> string \<Rightarrow> (install_error, bool) hostm"
  pf_print :: "string \<Rightarrow> string \<Rightarrow> (install_error, string) hostm"

fun join_words :: "string list \<Rightarrow> string" where
  "join_words [] = []"
| "join_words [w] = w"
| "join_words (w # ws) = w @ '' '' @ join_words ws"

definition launchctl :: "host_env \<Rightarrow> string list \<Rightarrow> (install_error, string) hostm" where
  "launchctl env args =
     hbind (command_output env ''launchctl'' args) (\<lambda>r.
       case r of
         Cmd_Spawn_Error \<Rightarrow> hfail Install_Io
       | Cmd_Exit True out err \<Rightarrow> hret (from_utf8_lossy out)
       | Cmd_Exit False out err \<Rightarrow>
           hfail (Install_CommandFailed (''launchctl '' @ join_words args) (trim (from_utf8_lossy err))))"

definition launchctl_succeeds :: "host_env \<Rightarrow> string list \<Rightarrow> (install_error, bool) hostm" where
  "launchctl_succeeds env args =
     hbind (command_output env ''launchctl'' args) (\<lambda>r.
       hret (case r of Cmd_Spawn_Error \<Rightarrow> False | Cmd_Exit success out err \<Rightarrow> success))"

definition MacOsPlatform :: "host_env \<Rightarrow> platform" where
  "MacOsPlatform env =
     \<lparr>pf_bootstrap = (\<lambda>domain plist. hthen (launchctl env [''bootstrap'', domain, from_utf8_lossy plist]) (hret ())),
      pf_bootout = (\<lambda>domain target. hthen (launchctl env [''bootout'', domain, target]) (hret ())),
      pf_enable = (\<lambda>domain label. hthen (launchctl env [''enable'', domain @ ''/'' @ label]) (hret ())),
      pf_is_loaded = (\<lambda>domain label. launchctl_succeeds env [''print'', domain @ ''/'' @ label]),
      pf_print = (\<lambda>domain label. launchctl env [''print'', domain @ ''/'' @ label])\<rparr>"

section \<open>macOS\<close>

definition LABEL :: string where "LABEL = ''rs.tell.witness''"
definition DOMAIN :: string where "DOMAIN = ''system''"
definition PLIST_PATH :: path where "PLIST_PATH = ''/Library/LaunchDaemons/rs.tell.witness.plist''"
definition LOG_DIR :: path where "LOG_DIR = ''/Library/Logs/witness''"
definition STDOUT_PATH :: path where "STDOUT_PATH = ''/Library/Logs/witness/witness.out.log''"
definition STDERR_PATH :: path where "STDERR_PATH = ''/Library/Logs/witness/witness.err.log''"

definition load_daemon :: "platform \<Rightarrow> path \<Rightarrow> (install_error, unit) hostm" where
  "load_daemon pf plist = hthen (pf_bootstrap pf DOMAIN plist) (pf_enable pf DOMAIN LABEL)"

definition unload_daemon :: "platform \<Rightarrow> string \<Rightarrow> (install_error, unit) hostm" where
  "unload_daemon pf plist = pf_bootout pf DOMAIN plist"

record status_report =
  st_loaded :: bool
  st_running :: bool
  st_last_exit :: "string option"

fun find_map :: "('a \<Rightarrow> 'b option) \<Rightarrow> 'a list \<Rightarrow> 'b option" where
  "find_map f [] = None"
| "find_map f (x # xs) = (case f x of Some y \<Rightarrow> Some y | None \<Rightarrow> find_map f xs)"

definition last_exit_of :: "string \<Rightarrow> string option" where
  "last_exit_of out =
     map_option trim (find_map (\<lambda>l. strip_prefix ''last exit code = '' (trim l)) (str_lines out))"

definition status_report_of :: "platform \<Rightarrow> (install_error, status_report) hostm" where
  "status_report_of pf =
     hbind (pf_is_loaded pf DOMAIN LABEL) (\<lambda>loaded.
       if \<not> loaded then hret \<lparr>st_loaded = False, st_running = False, st_last_exit = None\<rparr>
       else hbind (htry (pf_print pf DOMAIN LABEL)) (\<lambda>r.
              let detail = (case r of Inr s \<Rightarrow> s | Inl _ \<Rightarrow> [])
              in hret \<lparr>st_loaded = True, st_running = (find_sub ''state = running'' detail \<noteq> None),
                       st_last_exit = last_exit_of detail\<rparr>))"

definition require_root :: "host_env \<Rightarrow> (install_error, unit) hostm" where
  "require_root env = (if he_privileged env then hret () else hfail Install_NotRoot)"

definition macos_install_binary :: "host_env \<Rightarrow> (install_error, path) hostm" where
  "macos_install_binary env =
     (case he_exe env of
        None \<Rightarrow> hfail Install_Io
      | Some current \<Rightarrow>
          (let target = path_join INSTALL_DIR ''witness'' in
           hbind (is_running_binary env target current) (\<lambda>same.
             hthen (if same then hret ()
                    else hthen (fs_op env Install_Io (Eff_Mkdir INSTALL_DIR)) (fs_op env Install_Io (Eff_Copy current target)))
               (hthen (fs_op env Install_Io (Eff_Chmod target (octal 7 5 5))) (hret target)))))"

definition chown_root_wheel :: "path \<Rightarrow> ('e, unit) hostm" where
  "chown_root_wheel p = (if CHR 0x00 \<in> set p then hret () else chown_ignored p 0 0)"

definition macos_create_dirs :: "host_env \<Rightarrow> (install_error, unit) hostm" where
  "macos_create_dirs env =
     hthen (fs_op env Install_Io (Eff_Mkdir CONFIG_DIR))
       (hthen (fs_op env Install_Io (Eff_Mkdir LOG_DIR))
          (hthen (fs_op env Install_Io (Eff_Chmod LOG_DIR (octal 7 5 0)))
             (chown_root_wheel LOG_DIR)))"

text \<open>The escape of a character; the characters above 127 are those of the UTF-8 text.\<close>

definition escape_char :: "char \<Rightarrow> string" where
  "escape_char c =
     (if c = CHR ''&'' then ''&amp;''
      else if c = CHR ''<'' then ''&lt;''
      else if c = CHR ''>'' then ''&gt;''
      else if c = DQ then ''&quot;''
      else if c = CHR 0x27 then ''&apos;''
      else [c])"

definition xml_escape :: "string \<Rightarrow> string" where
  "xml_escape s = concat (map escape_char s)"

definition plist_contents :: "string \<Rightarrow> string \<Rightarrow> string" where
  "plist_contents binary config =
     text_of_lines
       [''<?xml version='' @ [DQ] @ ''1.0'' @ [DQ] @ '' encoding='' @ [DQ] @ ''UTF-8'' @ [DQ] @ ''?>'',
        ''<!DOCTYPE plist PUBLIC '' @ [DQ] @ ''-//Apple//DTD PLIST 1.0//EN'' @ [DQ] @ '' ''
          @ [DQ] @ ''http://www.apple.com/DTDs/PropertyList-1.0.dtd'' @ [DQ] @ ''>'',
        ''<plist version='' @ [DQ] @ ''1.0'' @ [DQ] @ ''>'',
        ''<dict>'',
        ''    <key>Label</key>'',
        ''    <string>'' @ LABEL @ ''</string>'',
        ''    <key>ProgramArguments</key>'',
        ''    <array>'',
        ''        <string>'' @ xml_escape binary @ ''</string>'',
        ''        <string>--config</string>'',
        ''        <string>'' @ xml_escape config @ ''</string>'',
        ''    </array>'',
        ''    <key>RunAtLoad</key>'',
        ''    <true/>'',
        ''    <key>KeepAlive</key>'',
        ''    <dict>'',
        ''        <key>SuccessfulExit</key>'',
        ''        <false/>'',
        ''    </dict>'',
        ''    <key>StandardOutPath</key>'',
        ''    <string>'' @ STDOUT_PATH @ ''</string>'',
        ''    <key>StandardErrorPath</key>'',
        ''    <string>'' @ STDERR_PATH @ ''</string>'',
        ''    <key>ProcessType</key>'',
        ''    <string>Background</string>'',
        ''    <key>ThrottleInterval</key>'',
        ''    <integer>5</integer>'',
        ''</dict>'',
        ''</plist>'']"

definition write_plist :: "host_env \<Rightarrow> path \<Rightarrow> bool \<Rightarrow> (install_error, unit) hostm" where
  "write_plist env binary force =
     hbind (path_exists PLIST_PATH) (\<lambda>present.
       if present \<and> \<not> force then hret ()
       else hthen (fs_write env Install_Io PLIST_PATH (plist_contents (from_utf8_lossy binary) CONFIG_FILE))
              (hthen (fs_op env Install_Io (Eff_Chmod PLIST_PATH (octal 6 4 4)))
                 (chown_root_wheel PLIST_PATH)))"

text \<open>The message of a failed setup is its text, which \<open>describe\<close> gives.\<close>

definition macos_install :: "deps \<Rightarrow> (box_error \<Rightarrow> string) \<Rightarrow> host_env \<Rightarrow> platform \<Rightarrow> install_args \<Rightarrow> (install_error, unit) hostm" where
  "macos_install d describe env pf args =
     hthen (require_root env)
       (hbind (macos_install_binary env) (\<lambda>binary.
          hthen (macos_create_dirs env)
            (hthen (write_plist env binary (ia_force args))
               (hthen (case ia_token args of
                         None \<Rightarrow> hret ()
                       | Some token \<Rightarrow>
                           hmap_err (\<lambda>e. Install_CommandFailed ''witness setup'' (describe e))
                             (execute_checked d env (setup_args_of Os_MacOS [] args token)))
                  (load_daemon pf PLIST_PATH)))))"

definition remove_plist :: "host_env \<Rightarrow> (install_error, unit) hostm" where
  "remove_plist env =
     hbind (path_exists PLIST_PATH) (\<lambda>present.
       if present then fs_op env Install_Io (Eff_Remove PLIST_PATH) else hret ())"

definition purge :: "host_env \<Rightarrow> path \<Rightarrow> ('e, unit) hostm" where
  "purge env config =
     hthen (htry (fs_op env () (Eff_RemoveAll (state_dir env))))
       (hthen (htry (fs_op env () (Eff_Remove config))) (hret ()))"

definition macos_uninstall :: "host_env \<Rightarrow> platform \<Rightarrow> uninstall_args \<Rightarrow> (install_error, unit) hostm" where
  "macos_uninstall env pf args =
     hthen (require_root env)
       (hthen (htry (unload_daemon pf PLIST_PATH))
          (hthen (remove_plist env)
             (if ua_purge args then purge env CONFIG_FILE else hret ())))"

end
