(* ===== verification/Install_Props.thy ===== *)
theory Install_Props
  imports Install Setup_Props
begin

text \<open>
  The service definition of macOS carries its paths unharmed, the installers change only their own
  files and start the agent only once it is configured, and removal leaves the configuration alone
  unless it is told otherwise.
\<close>

section \<open>The property list\<close>

text \<open>A reference reader: the texts between markup, each with the tag that ends it.\<close>

fun scan_text :: "string \<Rightarrow> string \<Rightarrow> (string \<times> string) list" and scan_tag :: "string \<Rightarrow> string \<Rightarrow> string \<Rightarrow> (string \<times> string) list" where
  "scan_text t [] = []"
| "scan_text t (c # s) = (if c = CHR ''<'' then scan_tag t [] s else scan_text (t @ [c]) s)"
| "scan_tag t g [] = []"
| "scan_tag t g (c # s) = (if c = CHR ''>'' then (t, g) # scan_text [] s else scan_tag t (g @ [c]) s)"

definition xml_entities :: "(string \<times> char) list" where
  "xml_entities = [(''&amp;'', CHR ''&''), (''&lt;'', CHR ''<''), (''&gt;'', CHR ''>''), (''&quot;'', DQ), (''&apos;'', CHR 0x27)]"

fun first_entity :: "(string \<times> char) list \<Rightarrow> string \<Rightarrow> (char \<times> string) option" where
  "first_entity [] s = None"
| "first_entity ((n, c) # es) s = (case strip_prefix n s of Some r \<Rightarrow> Some (c, r) | None \<Rightarrow> first_entity es s)"

function xml_unescape :: "string \<Rightarrow> string" where
  "xml_unescape s =
     (case s of
        [] \<Rightarrow> []
      | c # r \<Rightarrow> (case first_entity xml_entities s of
            Some (e, r') \<Rightarrow> if length r' < length s then e # xml_unescape r' else []
          | None \<Rightarrow> c # xml_unescape r))"
  by pat_completeness auto
termination by (relation "measure length") auto

declare xml_unescape.simps [simp del]

definition plist_strings :: "string \<Rightarrow> string list" where
  "plist_strings s = map (xml_unescape \<circ> fst) (filter (\<lambda>p. snd p = ''/string'') (scan_text [] s))"

lemma unescape_escape_char: "xml_unescape (escape_char c @ s) = c # xml_unescape s"
proof (cases "c \<in> {CHR ''&'', CHR ''<'', CHR ''>'', DQ, CHR 0x27}")
  case True
  then show ?thesis
    by (subst xml_unescape.simps)
      (auto simp: escape_char_def xml_entities_def strip_prefix_def)
next
  case False
  then have "first_entity xml_entities (c # s) = None" "escape_char c = [c]"
    by (auto simp: xml_entities_def strip_prefix_def escape_char_def)
  then show ?thesis by (subst xml_unescape.simps) simp
qed

lemma xml_unescape_escape: "xml_unescape (xml_escape s) = s"
  by (induction s) (simp_all add: xml_escape_def unescape_escape_char, simp add: xml_unescape.simps)

lemma escape_no_markup: "CHR ''<'' \<notin> set (xml_escape s)" "CHR ''>'' \<notin> set (xml_escape s)"
  by (auto simp: xml_escape_def escape_char_def split: if_splits)

lemma scan_text_plain: "CHR ''<'' \<notin> set e \<Longrightarrow> scan_text t (e @ s) = scan_text (t @ e) s"
  by (induction e arbitrary: t) auto

lemma xml_unescape_plain:
  assumes "CHR ''&'' \<notin> set s"
  shows "xml_unescape s = s"
  using assms
proof (induction s)
  case (Cons c s)
  then have "first_entity xml_entities (c # s) = None" by (auto simp: xml_entities_def strip_prefix_def)
  with Cons show ?case by (subst xml_unescape.simps) simp
qed (simp add: xml_unescape.simps)

text \<open>
  The service definition of macOS round-trips. Whatever the paths of the binary and of the
  configuration contain, the strings of the generated property list, read back with the five
  predefined entities, are the label, the command line and the log paths: no path can end its
  element or add a key.
\<close>

theorem plist_roundtrip:
  "plist_strings (plist_contents binary config) =
     [LABEL, binary, ''--config'', config, STDOUT_PATH, STDERR_PATH, ''Background'']"
  by (simp add: plist_strings_def plist_contents_def text_of_lines_def LABEL_def STDOUT_PATH_def STDERR_PATH_def
      scan_text_plain [OF escape_no_markup(1)] xml_unescape_escape xml_unescape_plain)

section \<open>Linux\<close>

abbreviation linux_binary :: path where "linux_binary \<equiv> ''/usr/local/bin/witness''"

abbreviation start_service :: host_effect where
  "start_service \<equiv> Eff_Cmd ''systemctl'' [''enable'', ''--now'', ''witness'']"

lemma binary_path: "path_join INSTALL_DIR ''witness'' = linux_binary"
  by (simp add: path_join_def INSTALL_DIR_def)

lemma frame_run_cmd [frame_rules]: "frame S (run_cmd env cmd args)"
  unfolding run_cmd_def by (intro frame_rules) (auto intro: frame_rules split: cmd_outcome.split)

lemma adds_run_cmd [adds_rules]: "P (Eff_Cmd cmd args) \<Longrightarrow> adds P (run_cmd env cmd args)"
  unfolding run_cmd_def by (auto intro!: adds_rules split: cmd_outcome.split)

lemma running_binary_rules [frame_rules, adds_rules]:
  "frame S (is_running_binary env t c)" "adds P (is_running_binary env t c)"
  unfolding is_running_binary_def by (intro frame_rules adds_rules)+

lemma linux_binary_rules:
  "frame {linux_binary} (linux_install_binary env)" "adds (\<lambda>e. e \<noteq> start_service) (linux_install_binary env)"
  unfolding linux_install_binary_def binary_path Let_def
  by (cases "he_exe env"; auto intro!: frame_rules adds_rules)+

lemma create_user_rules: "frame S (create_user env)" "adds (\<lambda>e. e \<noteq> start_service) (create_user env)"
  unfolding create_user_def
  by (auto intro!: frame_rules adds_rules split: cmd_outcome.split bool.split)

lemma install_service_rules:
  "frame {SERVICE_FILE} (install_service env force)" "adds (\<lambda>e. e \<noteq> start_service) (install_service env force)"
  unfolding install_service_def by (auto intro!: frame_rules adds_rules)

lemma install_service_done:
  assumes "install_service env force h = (Inr u, h')"
  shows "h_files h' SERVICE_FILE = (if h_files h SERVICE_FILE = None \<or> force then Some SYSTEMD_UNIT else h_files h SERVICE_FILE)"
  using assms
  by (auto simp: install_service_def path_exists_def hret_def elim!: hthen_cases split: if_splits)
    (auto dest!: fs_write_cases frameD [OF frame_run_cmd, where p = SERVICE_FILE and S = "{}"])

lemma adds_setup_no_cmd: "P = (\<lambda>e. \<forall>c a. e \<noteq> Eff_Cmd c a) \<Longrightarrow> adds P (execute_checked d env args)"
  by (rule adds_mono [OF adds_setup [of env args d]]) (auto elim: setup_effect.elims)

text \<open>What is known when the service is started, and in every other case.\<close>

definition linux_started :: "deps \<Rightarrow> host_env \<Rightarrow> install_args \<Rightarrow> host \<Rightarrow> bool" where
  "linux_started d env args h' \<longleftrightarrow>
     (\<exists>token toml. ia_token args = Some token \<and> h_files h' CONFIG_FILE = Some toml
        \<and> setup_text d env (setup_args_of Os_Linux [] args token) toml \<and> h_files h' SERVICE_FILE \<noteq> None)"

lemma configure_and_start:
  assumes "hthen (execute_checked d env (setup_args_of Os_Linux [] args token)) (run_cmd env ''systemctl'' [''enable'', ''--now'', ''witness'']) h = (r, h')"
    and "ia_token args = Some token" and "h_files h SERVICE_FILE \<noteq> None"
  shows "\<exists>es. h_log h' = h_log h @ es \<and> (start_service \<in> set es \<longrightarrow> last es = start_service \<and> linux_started d env args h')
    \<and> (r = Inr () \<longrightarrow> start_service \<in> set es) \<and> (\<forall>p. p \<noteq> CONFIG_FILE \<longrightarrow> h_files h' p = h_files h p)"
proof -
  let ?sa = "setup_args_of Os_Linux [] args token"
  have c: "sa_config ?sa = CONFIG_FILE" by (simp add: setup_args_of_def)
  have fr: "frame {CONFIG_FILE} (execute_checked d env ?sa)" by (rule frame_setup) (simp add: c)
  from assms(1) show ?thesis
  proof (cases rule: hthen_cases)
    case (Stops e)
    from addsD [OF adds_setup_no_cmd [OF refl] Stops(1)] obtain es where
      "h_log h' = h_log h @ es" "list_all (\<lambda>e. \<forall>c a. e \<noteq> Eff_Cmd c a) es" by auto
    with Stops frameD [OF fr Stops(1)] show ?thesis by (intro exI [of _ es]) (auto simp: list_all_iff)
  next
    case (Goes x h1)
    from addsD [OF adds_setup_no_cmd [OF refl] Goes(1)] obtain es where
      es: "h_log h1 = h_log h @ es" "list_all (\<lambda>e. \<forall>c a. e \<noteq> Eff_Cmd c a) es" by auto
    have log: "h_log h' = h_log h @ es @ [start_service]" and same: "h_files h' = h_files h1"
      using Goes(2) es by (auto simp: run_cmd_def hbind_def command_output_def log_effect_def hret_def hfail_def
          split: cmd_outcome.splits if_splits)
    from setup_file [of d env ?sa h "Inr x" h1] Goes(1) c obtain toml where
      "h_files h1 CONFIG_FILE = Some toml" "setup_text d env ?sa toml" by (auto simp: execute_checked_def)
    moreover have "CONFIG_FILE \<noteq> SERVICE_FILE" by (simp add: CONFIG_FILE_def SERVICE_FILE_def)
    ultimately have "linux_started d env args h'"
      using assms(2,3) same frameD [OF fr Goes(1)] by (auto simp: linux_started_def)
    with log same frameD [OF fr Goes(1)] show ?thesis by (intro exI [of _ "es @ [start_service]"]) auto
  qed
qed

definition linux_run_ok :: "deps \<Rightarrow> host_env \<Rightarrow> install_args \<Rightarrow> host \<Rightarrow> box_error + unit \<Rightarrow> host \<Rightarrow> bool" where
  "linux_run_ok d env args h r h' \<longleftrightarrow>
     (\<forall>p. p \<notin> {''/usr/local/bin/witness'', SERVICE_FILE, CONFIG_FILE} \<longrightarrow> h_files h' p = h_files h p)
     \<and> (\<exists>es. h_log h' = h_log h @ es
          \<and> (start_service \<in> set es \<longrightarrow> last es = start_service \<and> linux_started d env args h')
          \<and> (r = Inr () \<and> ia_token args \<noteq> None \<longrightarrow> start_service \<in> set es))"

lemma configured_run_ok:
  assumes s: "install_service env (ia_force args) h0 = (Inr z, h)"
    and k: "(case ia_token args of None \<Rightarrow> hret () | Some token \<Rightarrow>
      hthen (execute_checked d env (setup_args_of Os_Linux [] args token)) (run_cmd env ''systemctl'' [''enable'', ''--now'', ''witness''])) h = (r, h')"
  shows "linux_run_ok d env args h r h'"
proof (cases "ia_token args")
  case None
  with k show ?thesis by (auto simp: linux_run_ok_def hret_def)
next
  case (Some token)
  have "h_files h SERVICE_FILE \<noteq> None" using install_service_done [OF s] by (auto split: if_splits)
  from k Some have "hthen (execute_checked d env (setup_args_of Os_Linux [] args token))
      (run_cmd env ''systemctl'' [''enable'', ''--now'', ''witness'']) h = (r, h')" by simp
  from configure_and_start [OF this Some \<open>h_files h SERVICE_FILE \<noteq> None\<close>] show ?thesis
    unfolding linux_run_ok_def by blast
qed

lemma linux_step:
  assumes "frame S m" and "S \<subseteq> {''/usr/local/bin/witness'', SERVICE_FILE, CONFIG_FILE}" and "adds (\<lambda>e. e \<noteq> start_service) m"
    and "hthen m k h = (r, h')"
    and "\<And>x h1. m h = (Inr x, h1) \<Longrightarrow> k h1 = (r, h') \<Longrightarrow> linux_run_ok d env args h1 r h'"
  shows "linux_run_ok d env args h r h'"
  using assms(4)
proof (cases rule: hthen_cases)
  case (Stops e)
  from addsD [OF assms(3) Stops(1)] obtain es where "h_log h' = h_log h @ es" "start_service \<notin> set es"
    by (auto simp: list_all_iff)
  with Stops assms(2) frameD [OF assms(1) Stops(1)] show ?thesis unfolding linux_run_ok_def by blast
next
  case (Goes x h1)
  from addsD [OF assms(3) Goes(1)] obtain es where es: "h_log h1 = h_log h @ es" "start_service \<notin> set es"
    by (auto simp: list_all_iff)
  from assms(5) [OF Goes] obtain es' where "h_log h' = h_log h1 @ es'"
    "start_service \<in> set es' \<longrightarrow> last es' = start_service \<and> linux_started d env args h'"
    "r = Inr () \<and> ia_token args \<noteq> None \<longrightarrow> start_service \<in> set es'"
    "\<forall>p. p \<notin> {''/usr/local/bin/witness'', SERVICE_FILE, CONFIG_FILE} \<longrightarrow> h_files h' p = h_files h1 p"
    unfolding linux_run_ok_def by blast
  moreover have "h_files h1 p = h_files h p" if "p \<notin> {''/usr/local/bin/witness'', SERVICE_FILE, CONFIG_FILE}" for p
    using frameD [OF assms(1) Goes(1)] assms(2) that by blast
  ultimately show ?thesis
    unfolding linux_run_ok_def using es by (intro conjI exI [of _ "es @ es'"]) (auto simp: last_append)
qed


definition demo_install_args :: install_args where
  "demo_install_args = \<lparr>ia_token = None, ia_server = ''https://tell.rs'', ia_endpoint = None, ia_offline = True, ia_force = False\<rparr>"


section \<open>macOS\<close>

text \<open>
  What the flows rely on of a platform: it changes no file of the agent, and the only effects are
  runs of \<open>launchctl\<close>.
\<close>

locale launch_platform =
  fixes pf :: platform
  assumes bootstrap_frame: "frame {} (pf_bootstrap pf domain plist)"
    and bootout_frame: "frame {} (pf_bootout pf domain target)"
    and enable_frame: "frame {} (pf_enable pf domain label)"
    and bootstrap_adds: "adds (\<lambda>e. \<exists>a. e = Eff_Cmd ''launchctl'' a) (pf_bootstrap pf domain plist)"
    and bootout_adds: "adds (\<lambda>e. \<exists>a. e = Eff_Cmd ''launchctl'' a) (pf_bootout pf domain target)"
    and enable_adds: "adds (\<lambda>e. \<exists>a. e = Eff_Cmd ''launchctl'' a) (pf_enable pf domain label)"
begin

lemma load_frame: "frame {} (load_daemon pf plist)"
  unfolding load_daemon_def by (intro frame_rules bootstrap_frame enable_frame)

lemma load_adds: "adds (\<lambda>e. \<exists>a. e = Eff_Cmd ''launchctl'' a) (load_daemon pf plist)"
  unfolding load_daemon_def by (intro adds_rules bootstrap_adds enable_adds)

lemma uninstall_frame:
  "frame ({PLIST_PATH} \<union> (if ua_purge args then {CONFIG_FILE} \<union> {p. apply_effect (Eff_RemoveAll (state_dir env)) (\<lambda>_. Some []) p = None} else {}))
     (macos_uninstall env pf args)"
proof -
  have all: "frame S (fs_op env () (Eff_RemoveAll dir))" if "{p. apply_effect (Eff_RemoveAll dir) (\<lambda>_. Some []) p = None} \<subseteq> S" for S dir
    using that by (auto simp: frame_def fs_op_def log_effect_def Let_def)
  have out: "frame S (unload_daemon pf PLIST_PATH)" for S
    unfolding unload_daemon_def by (rule frame_mono [OF bootout_frame]) simp
  show ?thesis
    unfolding macos_uninstall_def require_root_def remove_plist_def purge_def
    by (intro frame_rules out all) auto
qed

lemma uninstall_removes:
  assumes "macos_uninstall env pf args h = (Inr u, h')"
  shows "h_files h' PLIST_PATH = None"
proof -
  have "\<exists>h1 h2 v. remove_plist env h1 = (Inr v, h2) \<and> (if ua_purge args then purge env CONFIG_FILE else hret ()) h2 = (Inr u :: install_error + unit, h')"
    using assms unfolding macos_uninstall_def by (elim hthen_cases) (blast | simp only: sum.distinct)+
  then obtain h1 h2 v where rm: "remove_plist env h1 = (Inr v, h2)"
    and rest: "(if ua_purge args then purge env CONFIG_FILE else hret ()) h2 = (Inr u :: install_error + unit, h')" by blast
  have none: "h_files h2 PLIST_PATH = None"
    using rm by (auto simp: remove_plist_def path_exists_def hret_def fs_op_def log_effect_def Let_def split: if_splits)
  have "h_files h' PLIST_PATH = h_files h2 PLIST_PATH \<or> h_files h' PLIST_PATH = None"
    using rest by (auto simp: purge_def hthen_def hbind_def htry_def hret_def fs_op_def log_effect_def Let_def split: if_splits)
  with none show ?thesis by auto
qed

end

lemma launchctl_rules [frame_rules, adds_rules]:
  "frame S (launchctl env args)" "P (Eff_Cmd ''launchctl'' args) \<Longrightarrow> adds P (launchctl env args)"
  unfolding launchctl_def by (auto intro!: frame_rules adds_rules split: cmd_outcome.split bool.split)

interpretation launchctl: launch_platform "MacOsPlatform env" for env
  by unfold_locales (auto simp: MacOsPlatform_def intro!: frame_rules adds_rules)

text \<open>
  C19: removal on macOS. Without root nothing happens. Otherwise, whether or not the daemon could
  be unloaded, only the property list changes, with \<open>--purge\<close> also the configuration file and
  what is in the state directory; when it succeeds the property list is gone.
\<close>

theorem macos_uninstall_keeps:
  assumes "macos_uninstall env (MacOsPlatform env) args h = (r, h')"
  shows "(\<not> he_privileged env \<longrightarrow> r = Inl Install_NotRoot \<and> h' = h)
    \<and> (\<forall>p. p \<noteq> PLIST_PATH \<and> \<not> (ua_purge args \<and> (p = CONFIG_FILE \<or> p = state_dir env \<or> prefix (state_dir env @ ''/'') p
            \<or> prefix (state_dir env @ [BSL]) p)) \<longrightarrow> h_files h' p = h_files h p)
    \<and> (r = Inr () \<longrightarrow> h_files h' PLIST_PATH = None)"
proof (intro conjI allI impI)
  assume "\<not> he_privileged env"
  with assms show "r = Inl Install_NotRoot" and "h' = h"
    by (auto simp: macos_uninstall_def require_root_def hthen_def hfail_def)
next
  fix p
  assume "p \<noteq> PLIST_PATH \<and> \<not> (ua_purge args \<and> (p = CONFIG_FILE \<or> p = state_dir env \<or> prefix (state_dir env @ ''/'') p
      \<or> prefix (state_dir env @ [BSL]) p))"
  then show "h_files h' p = h_files h p"
    by (intro frameD [OF launchctl.uninstall_frame [of args env] assms]) (auto split: if_splits)
next
  assume "r = Inr ()"
  with assms launchctl.uninstall_removes show "h_files h' PLIST_PATH = None" by blast
qed

theorem macos_uninstall_keeps_witness:
  "\<exists>r h'. macos_uninstall (demo_env\<lparr>he_os := Os_MacOS\<rparr>) (MacOsPlatform (demo_env\<lparr>he_os := Os_MacOS\<rparr>)) \<lparr>ua_purge = False\<rparr>
       \<lparr>h_files = [CONFIG_FILE \<mapsto> ''c'', PLIST_PATH \<mapsto> ''p''], h_log = []\<rparr> = (r, h')
     \<and> h_files h' CONFIG_FILE = Some ''c''"
proof -
  let ?env = "demo_env\<lparr>he_os := Os_MacOS\<rparr>" and ?h = "\<lparr>h_files = [CONFIG_FILE \<mapsto> ''c'', PLIST_PATH \<mapsto> ''p''], h_log = []\<rparr>"
  obtain r h' where run: "macos_uninstall ?env (MacOsPlatform ?env) \<lparr>ua_purge = False\<rparr> ?h = (r, h')" by (rule prod.exhaust)
  have "CONFIG_FILE \<noteq> PLIST_PATH" by (simp add: CONFIG_FILE_def PLIST_PATH_def)
  with macos_uninstall_keeps [OF run] run show ?thesis by auto
qed

lemma macos_binary_rules: "frame {linux_binary} (macos_install_binary env)"
  unfolding macos_install_binary_def binary_path Let_def
  by (cases "he_exe env") (auto intro!: frame_rules)

lemma macos_binary_target: "macos_install_binary env h = (Inr p, h') \<Longrightarrow> p = linux_binary"
  unfolding macos_install_binary_def binary_path Let_def
  by (cases "he_exe env") (auto simp: hret_def hfail_def elim!: hthen_cases hbind_cases)

lemma chown_wheel_frame [frame_rules]: "frame S (chown_root_wheel p)"
  unfolding chown_root_wheel_def by (intro frame_rules)

lemma macos_dirs_frame: "frame S (macos_create_dirs env)"
  unfolding macos_create_dirs_def by (intro frame_rules)

lemma write_plist_frame: "frame {PLIST_PATH} (write_plist env binary force)"
  unfolding write_plist_def by (auto intro!: frame_rules)

lemma write_plist_result:
  assumes "write_plist env binary force h = (r, h')"
  shows "h_files h PLIST_PATH \<noteq> None \<and> \<not> force \<Longrightarrow> h' = h"
    and "r = Inr () \<Longrightarrow> h_files h' PLIST_PATH =
      (if h_files h PLIST_PATH = None \<or> force then Some (plist_contents (from_utf8_lossy binary) CONFIG_FILE) else h_files h PLIST_PATH)"
  using assms
  by (auto simp: write_plist_def path_exists_def hret_def elim!: hthen_cases split: if_splits)
    (auto dest!: fs_write_cases frameD [OF frame_fs_op(2), where p = PLIST_PATH and S = "{}"]
      frameD [OF chown_wheel_frame, where p = PLIST_PATH and S = "{}"])

lemma macos_setup_frame:
  "frame {CONFIG_FILE} (case ia_token args of None \<Rightarrow> hret () | Some token \<Rightarrow>
     hmap_err f (execute_checked d env (setup_args_of Os_MacOS [] args token)))"
proof -
  have "frame {CONFIG_FILE} (execute_checked d env (setup_args_of Os_MacOS [] args token))" for token
    by (rule frame_setup) (simp add: setup_args_of_def)
  then show ?thesis by (cases "ia_token args") (simp_all add: frame_rules)
qed

lemma hmap_err_Inr: "hmap_err f m h = (Inr x, h') \<longleftrightarrow> m h = (Inr x, h')"
  by (cases "fst (m h)") (auto simp: hmap_err_def split: prod.split)

lemma lossy_ascii: "\<forall>c \<in> set s. code c < 128 \<Longrightarrow> from_utf8_lossy s = s"
  by (rule from_utf8_lossy_valid [OF utf8_valid_ascii])

lemma macos_installed:
  assumes "macos_install d describe env (MacOsPlatform env) args h = (r, h')" and "r = Inr ()"
  shows "h_files h' PLIST_PATH = (if h_files h PLIST_PATH = None \<or> ia_force args
      then Some (plist_contents linux_binary CONFIG_FILE) else h_files h PLIST_PATH)
    \<and> (case ia_token args of
         None \<Rightarrow> h_files h' CONFIG_FILE = h_files h CONFIG_FILE
       | Some token \<Rightarrow> \<exists>toml. h_files h' CONFIG_FILE = Some toml
           \<and> setup_text d env (setup_args_of Os_MacOS [] args token) toml)"
proof -
  let ?set = "case ia_token args of None \<Rightarrow> hret () | Some token \<Rightarrow>
     hmap_err (\<lambda>e. Install_CommandFailed ''witness setup'' (describe e)) (execute_checked d env (setup_args_of Os_MacOS [] args token))"
  have neq: "CONFIG_FILE \<noteq> PLIST_PATH" "linux_binary \<noteq> PLIST_PATH" "linux_binary \<noteq> CONFIG_FILE"
    by (simp_all add: CONFIG_FILE_def PLIST_PATH_def)
  have lossy: "from_utf8_lossy linux_binary = linux_binary" by (rule lossy_ascii) (simp add: code_def)
  have "\<exists>p h1 h2 h3 h4 u v w. macos_install_binary env h = (Inr p, h1) \<and> macos_create_dirs env h1 = (Inr u, h2)
      \<and> write_plist env p (ia_force args) h2 = (Inr v, h3) \<and> ?set h3 = (Inr w, h4)
      \<and> load_daemon (MacOsPlatform env) PLIST_PATH h4 = (Inr (), h')"
    using assms unfolding macos_install_def
    by (elim hthen_cases hbind_cases)
      (auto simp: require_root_def hret_def hfail_def split: if_splits)
  then obtain p h1 h2 h3 h4 u v w where steps: "macos_install_binary env h = (Inr p, h1)"
    "macos_create_dirs env h1 = (Inr u, h2)" "write_plist env p (ia_force args) h2 = (Inr v, h3)"
    "?set h3 = (Inr w, h4)" "load_daemon (MacOsPlatform env) PLIST_PATH h4 = (Inr (), h')" by blast
  have f1: "h_files h2 q = h_files h q" if "q \<noteq> linux_binary" for q
    using frameD [OF macos_binary_rules steps(1)] frameD [OF macos_dirs_frame steps(2), of q "{}"] that by simp
  have f5: "h_files h' q = h_files h4 q" for q
    using frameD [OF launchctl.load_frame steps(5)] by simp
  have "h_files h' PLIST_PATH = h_files h3 PLIST_PATH"
    using f5 frameD [OF macos_setup_frame steps(4)] neq by simp
  then have plist: "h_files h' PLIST_PATH = (if h_files h PLIST_PATH = None \<or> ia_force args
      then Some (plist_contents linux_binary CONFIG_FILE) else h_files h PLIST_PATH)"
    using write_plist_result(2) [OF steps(3)] f1 [of PLIST_PATH] neq macos_binary_target [OF steps(1)] lossy by simp
  show ?thesis
  proof (cases "ia_token args")
    case None
    then have "h4 = h3" using steps(4) by (simp add: hret_def)
    then have "h_files h' CONFIG_FILE = h_files h CONFIG_FILE"
      using f5 f1 [of CONFIG_FILE] neq frameD [OF write_plist_frame steps(3)] by simp
    with plist None show ?thesis by simp
  next
    case (Some token)
    with steps(4) have "setup_execute d env (setup_args_of Os_MacOS [] args token) h3 = (Inr w, h4)"
      by (simp add: hmap_err_Inr execute_checked_def)
    from setup_file [OF this] obtain toml where "h_files h4 CONFIG_FILE = Some toml"
      "setup_text d env (setup_args_of Os_MacOS [] args token) toml" by (auto simp: setup_args_of_def)
    with plist Some f5 show ?thesis by simp
  qed
qed

text \<open>
  The macOS installer. Without root nothing happens; otherwise, whatever fails, only the binary,
  the property list and the configuration file change. When it succeeds, the property list is the
  generated one or, without \<open>--force\<close>, the one that was there; if a token was given the
  configuration file holds the local default or a fetched text that parses, and if none was given it
  is untouched.
\<close>

theorem macos_install_safe:
  assumes "macos_install d describe env (MacOsPlatform env) args h = (r, h')"
  shows "(\<not> he_privileged env \<longrightarrow> r = Inl Install_NotRoot \<and> h' = h)
    \<and> (\<forall>p. p \<notin> {''/usr/local/bin/witness'', PLIST_PATH, CONFIG_FILE} \<longrightarrow> h_files h' p = h_files h p)
    \<and> (r = Inr () \<longrightarrow>
        h_files h' PLIST_PATH = (if h_files h PLIST_PATH = None \<or> ia_force args
          then Some (plist_contents ''/usr/local/bin/witness'' CONFIG_FILE) else h_files h PLIST_PATH)
        \<and> (case ia_token args of
             None \<Rightarrow> h_files h' CONFIG_FILE = h_files h CONFIG_FILE
           | Some token \<Rightarrow> \<exists>toml. h_files h' CONFIG_FILE = Some toml
               \<and> setup_text d env (setup_args_of Os_MacOS [] args token) toml))"
proof (cases "he_privileged env")
  case False
  with assms show ?thesis by (auto simp: macos_install_def require_root_def hthen_def hfail_def)
next
  case root: True
  let ?S = "{''/usr/local/bin/witness'', PLIST_PATH, CONFIG_FILE}"
  have "frame ?S (macos_install d describe env (MacOsPlatform env) args)"
    unfolding macos_install_def require_root_def
    by (intro frame_rules frame_mono [OF macos_binary_rules] frame_mono [OF write_plist_frame] frame_mono [OF macos_setup_frame]
        macos_dirs_frame frame_mono [OF launchctl.load_frame]) auto
  from frameD [OF this assms] have "p \<notin> ?S \<Longrightarrow> h_files h' p = h_files h p" for p .
  with root macos_installed [OF assms] show ?thesis by simp
qed

theorem macos_install_safe_witness:
  "\<exists>r h'. macos_install demo_config_deps (\<lambda>_. []) (demo_env\<lparr>he_os := Os_MacOS\<rparr>) (MacOsPlatform (demo_env\<lparr>he_os := Os_MacOS\<rparr>))
       demo_install_args demo_host = (r, h') \<and> h_files h' ''/etc/passwd'' = None"
proof -
  let ?env = "demo_env\<lparr>he_os := Os_MacOS\<rparr>"
  obtain r h' where run: "macos_install demo_config_deps (\<lambda>_. []) ?env (MacOsPlatform ?env) demo_install_args demo_host = (r, h')"
    by (rule prod.exhaust)
  from macos_install_safe [OF run] have "h_files h' ''/etc/passwd'' = h_files demo_host ''/etc/passwd''"
    by (simp add: PLIST_PATH_def CONFIG_FILE_def)
  with run show ?thesis by (auto simp: demo_host_def)
qed

end
