(* ===== verification/Install_Windows.thy ===== *)
theory Install_Windows
  imports Install
begin

text \<open>
  \<open>witness install\<close>, \<open>uninstall\<close> and \<open>status\<close> on Windows (\<open>src/install/windows.rs\<close>), the trait over
  the service manager and its implementation (\<open>src/install/platform_windows.rs\<close>). The calls of the
  \<open>windows-service\<close> crate are effects on the host whose results the environment gives.
\<close>

section \<open>Platform\<close>

datatype windows_install_error = Win_CommandFailed string string | Win_Io | Win_NotElevated

record service_spec =
  sp_name :: string
  sp_display_name :: string
  sp_description :: string
  sp_binary_path :: path
  sp_config_path :: path

datatype service_state = Svc_Running | Svc_Stopped | Svc_NotInstalled | Svc_Other

text \<open>The trait \<open>WindowsServicePlatform\<close>.\<close>

record windows_platform =
  wp_create :: "service_spec \<Rightarrow> (windows_install_error, unit) hostm"
  wp_delete :: "string \<Rightarrow> (windows_install_error, unit) hostm"
  wp_start :: "string \<Rightarrow> (windows_install_error, unit) hostm"
  wp_stop :: "string \<Rightarrow> (windows_install_error, unit) hostm"
  wp_query_state :: "string \<Rightarrow> (windows_install_error, service_state) hostm"
  wp_exists :: "string \<Rightarrow> (windows_install_error, bool) hostm"

definition image_path_command_line :: "service_spec \<Rightarrow> string" where
  "image_path_command_line spec =
     [DQ] @ sp_binary_path spec @ [DQ] @ '' --config '' @ [DQ] @ sp_config_path spec @ [DQ]"

section \<open>The service manager\<close>

definition scm :: "host_env \<Rightarrow> scm_call \<Rightarrow> (windows_install_error, string + ws_state) hostm" where
  "scm env c h = (Inr (he_scm env (h_log h) c), log_effect (Eff_Scm c) h)"

definition scm_err :: "string \<Rightarrow> string \<Rightarrow> windows_install_error" where
  "scm_err verb e = Win_CommandFailed verb e"

text \<open>A call whose failure is the error of the verb.\<close>

definition scm_do :: "host_env \<Rightarrow> string \<Rightarrow> scm_call \<Rightarrow> (windows_install_error, unit) hostm" where
  "scm_do env verb c = hbind (scm env c) (\<lambda>r. case r of Inl e \<Rightarrow> hfail (scm_err verb e) | Inr _ \<Rightarrow> hret ())"

definition scm_manager :: "host_env \<Rightarrow> string list \<Rightarrow> (windows_install_error, unit) hostm" where
  "scm_manager env access = scm_do env ''open_manager'' (Scm_Manager access)"

definition scm_service_info :: "service_spec \<Rightarrow> service_info" where
  "scm_service_info spec =
     \<lparr>si_name = sp_name spec, si_display_name = sp_display_name spec, si_executable_path = sp_binary_path spec,
      si_launch_arguments = [''--config'', sp_config_path spec], si_auto_start = True, si_local_system = True\<rparr>"

definition scm_create :: "host_env \<Rightarrow> service_spec \<Rightarrow> (windows_install_error, unit) hostm" where
  "scm_create env spec =
     hthen (scm_manager env [''CONNECT'', ''CREATE_SERVICE''])
       (hthen (scm_do env ''create'' (Scm_CreateService (scm_service_info spec) [''CHANGE_CONFIG'', ''START'']))
          (hthen (scm env (Scm_SetDescription (sp_description spec))) (hret ())))"

definition scm_delete :: "host_env \<Rightarrow> string \<Rightarrow> (windows_install_error, unit) hostm" where
  "scm_delete env name =
     hthen (scm_manager env [''CONNECT''])
       (hthen (scm_do env ''delete'' (Scm_OpenService name ''DELETE'')) (scm_do env ''delete'' (Scm_Delete name)))"

definition scm_start :: "host_env \<Rightarrow> string \<Rightarrow> (windows_install_error, unit) hostm" where
  "scm_start env name =
     hthen (scm_manager env [''CONNECT''])
       (hthen (scm_do env ''start'' (Scm_OpenService name ''START'')) (scm_do env ''start'' (Scm_Start name)))"

definition scm_stop :: "host_env \<Rightarrow> string \<Rightarrow> (windows_install_error, unit) hostm" where
  "scm_stop env name =
     hthen (scm_manager env [''CONNECT''])
       (hthen (scm_do env ''stop'' (Scm_OpenService name ''STOP'')) (scm_do env ''stop'' (Scm_Stop name)))"

definition scm_query_state :: "host_env \<Rightarrow> string \<Rightarrow> (windows_install_error, service_state) hostm" where
  "scm_query_state env name =
     hbind (scm env (Scm_Manager [''CONNECT''])) (\<lambda>m. case m of Inl _ \<Rightarrow> hret Svc_Other | Inr _ \<Rightarrow>
       hbind (scm env (Scm_OpenService name ''QUERY_STATUS'')) (\<lambda>s. case s of Inl _ \<Rightarrow> hret Svc_NotInstalled | Inr _ \<Rightarrow>
         hbind (scm env (Scm_QueryStatus name)) (\<lambda>q.
           hret (case q of
                   Inr Ws_Running \<Rightarrow> Svc_Running
                 | Inr Ws_Stopped \<Rightarrow> Svc_Stopped
                 | Inr Ws_Other \<Rightarrow> Svc_Other
                 | Inl _ \<Rightarrow> Svc_Other))))"

definition scm_exists :: "host_env \<Rightarrow> string \<Rightarrow> (windows_install_error, bool) hostm" where
  "scm_exists env name =
     hbind (scm env (Scm_Manager [''CONNECT''])) (\<lambda>m. case m of Inl _ \<Rightarrow> hret False | Inr _ \<Rightarrow>
       hbind (scm env (Scm_OpenService name ''QUERY_STATUS'')) (\<lambda>s. hret (case s of Inl _ \<Rightarrow> False | Inr _ \<Rightarrow> True)))"

definition ScmPlatform :: "host_env \<Rightarrow> windows_platform" where
  "ScmPlatform env =
     \<lparr>wp_create = scm_create env, wp_delete = scm_delete env, wp_start = scm_start env, wp_stop = scm_stop env,
      wp_query_state = scm_query_state env, wp_exists = scm_exists env\<rparr>"

section \<open>Sequences\<close>

definition SERVICE_NAME :: string where "SERVICE_NAME = ''witness''"
definition DISPLAY_NAME :: string where "DISPLAY_NAME = ''Witness Agent''"
definition DESCRIPTION :: string where "DESCRIPTION = ''Lightweight host monitoring agent for the Tell platform''"
definition WIN_INSTALL_DIR :: path where "WIN_INSTALL_DIR = ''C:'' @ [BSL] @ ''Program Files'' @ [BSL] @ ''witness''"
definition DATA_DIR :: path where "DATA_DIR = ''C:'' @ [BSL] @ ''ProgramData'' @ [BSL] @ ''witness''"
definition WIN_CONFIG_FILE :: path where "WIN_CONFIG_FILE = ''C:'' @ [BSL] @ ''ProgramData'' @ [BSL] @ ''witness'' @ [BSL] @ ''config.toml''"
definition WIN_LOG_DIR :: path where "WIN_LOG_DIR = ''C:'' @ [BSL] @ ''ProgramData'' @ [BSL] @ ''witness'' @ [BSL] @ ''logs''"

definition install_sequence :: "windows_platform \<Rightarrow> service_spec \<Rightarrow> bool \<Rightarrow> (windows_install_error, bool) hostm" where
  "install_sequence pf spec force =
     hbind (wp_exists pf (sp_name spec)) (\<lambda>present.
       if present \<and> \<not> force then hret False
       else hthen (if present then wp_delete pf (sp_name spec) else hret ())
              (hthen (wp_create pf spec)
                 (hthen (wp_start pf (sp_name spec)) (hret True))))"

definition uninstall_sequence :: "windows_platform \<Rightarrow> string \<Rightarrow> (windows_install_error, unit) hostm" where
  "uninstall_sequence pf name =
     hbind (wp_query_state pf name) (\<lambda>st.
       hthen (if st = Svc_Running then wp_stop pf name else hret ())
         (wp_delete pf name))"

record win_status_report =
  ws_loaded :: bool
  ws_running :: bool

definition win_status_report_of :: "windows_platform \<Rightarrow> string \<Rightarrow> (windows_install_error, win_status_report) hostm" where
  "win_status_report_of pf name =
     hbind (wp_query_state pf name) (\<lambda>st.
       hret (case st of
               Svc_NotInstalled \<Rightarrow> \<lparr>ws_loaded = False, ws_running = False\<rparr>
             | Svc_Running \<Rightarrow> \<lparr>ws_loaded = True, ws_running = True\<rparr>
             | Svc_Stopped \<Rightarrow> \<lparr>ws_loaded = True, ws_running = False\<rparr>
             | Svc_Other \<Rightarrow> \<lparr>ws_loaded = True, ws_running = False\<rparr>))"

definition service_spec_of :: "path \<Rightarrow> service_spec" where
  "service_spec_of binary =
     \<lparr>sp_name = SERVICE_NAME, sp_display_name = DISPLAY_NAME, sp_description = DESCRIPTION, sp_binary_path = binary,
      sp_config_path = WIN_CONFIG_FILE\<rparr>"

section \<open>Flows\<close>

definition require_elevated :: "host_env \<Rightarrow> (windows_install_error, unit) hostm" where
  "require_elevated env = (if he_privileged env then hret () else hfail Win_NotElevated)"

definition win_install_binary :: "host_env \<Rightarrow> (windows_install_error, path) hostm" where
  "win_install_binary env =
     (case he_exe env of
        None \<Rightarrow> hfail Win_Io
      | Some current \<Rightarrow>
          (let target = path_join_win WIN_INSTALL_DIR ''witness.exe'' in
           hbind (is_running_binary env target current) (\<lambda>same.
             hthen (if same then hret ()
                    else hthen (fs_op env Win_Io (Eff_Mkdir WIN_INSTALL_DIR)) (fs_op env Win_Io (Eff_Copy current target)))
               (hret target))))"

definition win_create_dirs :: "host_env \<Rightarrow> (windows_install_error, unit) hostm" where
  "win_create_dirs env =
     hthen (fs_op env Win_Io (Eff_Mkdir DATA_DIR))
       (hthen (fs_op env Win_Io (Eff_Mkdir WIN_LOG_DIR))
          (fs_op env Win_Io (Eff_Mkdir (state_dir env))))"

definition windows_install ::
    "deps \<Rightarrow> (box_error \<Rightarrow> string) \<Rightarrow> host_env \<Rightarrow> windows_platform \<Rightarrow> install_args \<Rightarrow> (windows_install_error, unit) hostm" where
  "windows_install d describe env pf args =
     hthen (require_elevated env)
       (hbind (win_install_binary env) (\<lambda>binary.
          hthen (win_create_dirs env)
            (hthen (case ia_token args of
                      None \<Rightarrow> hret ()
                    | Some token \<Rightarrow>
                        hmap_err (\<lambda>e. Win_CommandFailed ''setup'' (describe e))
                          (execute_checked d env (setup_args_of Os_Windows WIN_CONFIG_FILE args token)))
               (hthen (install_sequence pf (service_spec_of binary) (ia_force args)) (hret ())))))"

definition windows_uninstall :: "host_env \<Rightarrow> windows_platform \<Rightarrow> uninstall_args \<Rightarrow> (windows_install_error, unit) hostm" where
  "windows_uninstall env pf args =
     hthen (require_elevated env)
       (hthen (htry (uninstall_sequence pf SERVICE_NAME))
          (if ua_purge args then purge env WIN_CONFIG_FILE else hret ()))"

end
