(* ===== verification/Install_Windows_Props.thy ===== *)
theory Install_Windows_Props
  imports Install_Windows Install_Props
begin

text \<open>
  The calls the Windows installer makes to the service manager, in order, and the files it changes.
\<close>

section \<open>Traces of the service manager\<close>

definition create_calls :: "service_spec \<Rightarrow> scm_call list" where
  "create_calls spec =
     [Scm_Manager [''CONNECT'', ''CREATE_SERVICE''],
      Scm_CreateService (scm_service_info spec) [''CHANGE_CONFIG'', ''START''], Scm_SetDescription (sp_description spec)]"

definition open_calls :: "string \<Rightarrow> string \<Rightarrow> scm_call list" where
  "open_calls name access = [Scm_Manager [''CONNECT''], Scm_OpenService name access]"

definition scm_trace :: "scm_call list \<Rightarrow> host \<Rightarrow> host" where
  "scm_trace cs h = h\<lparr>h_log := h_log h @ map Eff_Scm cs\<rparr>"

lemma scm_trace_trace [simp]: "scm_trace cs (scm_trace bs h) = scm_trace (bs @ cs) h" "scm_trace [] h = h"
  by (simp_all add: scm_trace_def)

lemma scm_do_Inr: "scm_do env v c h = (Inr u, h') \<Longrightarrow> h' = scm_trace [c] h"
  by (auto simp: scm_do_def scm_def hbind_def hret_def hfail_def scm_trace_def log_effect_def split: sum.splits)

lemma scm_run: "scm env c h = (r, h') \<Longrightarrow> h' = scm_trace [c] h"
  by (auto simp: scm_def scm_trace_def log_effect_def)

lemma scm_create_Inr: "scm_create env spec h = (Inr u, h') \<Longrightarrow> h' = scm_trace (create_calls spec) h"
  unfolding scm_create_def scm_manager_def
  by (auto elim!: hthen_cases dest!: scm_do_Inr scm_run simp: hret_def create_calls_def)

lemma scm_verbs_Inr:
  "scm_delete env name h = (Inr u, h') \<Longrightarrow> h' = scm_trace (open_calls name ''DELETE'' @ [Scm_Delete name]) h"
  "scm_start env name h = (Inr u, h') \<Longrightarrow> h' = scm_trace (open_calls name ''START'' @ [Scm_Start name]) h"
  "scm_stop env name h = (Inr u, h') \<Longrightarrow> h' = scm_trace (open_calls name ''STOP'' @ [Scm_Stop name]) h"
  unfolding scm_delete_def scm_start_def scm_stop_def scm_manager_def
  by (auto elim!: hthen_cases dest!: scm_do_Inr simp: open_calls_def)

lemma scm_exists_true: "scm_exists env name h = (Inr True, h') \<Longrightarrow> h' = scm_trace (open_calls name ''QUERY_STATUS'') h"
  unfolding scm_exists_def
  by (auto elim!: hbind_cases dest!: scm_run simp: hret_def open_calls_def split: sum.splits)

lemma scm_exists_calls:
  "scm_exists env name h = (r, h') \<Longrightarrow> \<exists>n. h' = scm_trace (take n (open_calls name ''QUERY_STATUS'')) h"
proof -
  assume "scm_exists env name h = (r, h')"
  then have "h' = scm_trace (take 1 (open_calls name ''QUERY_STATUS'')) h \<or> h' = scm_trace (take 2 (open_calls name ''QUERY_STATUS'')) h"
    unfolding scm_exists_def
    by (auto elim!: hbind_cases dest!: scm_run simp: hret_def open_calls_def split: sum.splits)
  then show ?thesis by blast
qed

abbreviation query_calls :: "string \<Rightarrow> scm_call list" where
  "query_calls name \<equiv> open_calls name ''QUERY_STATUS'' @ [Scm_QueryStatus name]"

lemma scm_query_calls:
  assumes "scm_query_state env name h = (r, h')"
  shows "\<exists>n. h' = scm_trace (take n (query_calls name)) h"
proof -
  have "h' = scm_trace (take 1 (query_calls name)) h \<or> h' = scm_trace (take 2 (query_calls name)) h
      \<or> h' = scm_trace (take 3 (query_calls name)) h"
    using assms unfolding scm_query_state_def
    by (auto elim!: hbind_cases dest!: scm_run simp: hret_def open_calls_def split: sum.splits)
  then show ?thesis by blast
qed

lemma install_sequence_Inr:
  assumes "install_sequence (ScmPlatform env) spec force h = (Inr b, h')"
  shows "\<exists>present n. fst (scm_exists env (sp_name spec) h) = Inr present \<and> b = (\<not> present \<or> force)
    \<and> h' = scm_trace (take n (open_calls (sp_name spec) ''QUERY_STATUS'')
        @ (if b then (if present then open_calls (sp_name spec) ''DELETE'' @ [Scm_Delete (sp_name spec)] else [])
             @ create_calls spec @ open_calls (sp_name spec) ''START'' @ [Scm_Start (sp_name spec)] else [])) h"
  using assms unfolding install_sequence_def
proof (cases rule: hbind_cases)
  case (Goes present h1)
  then have e: "scm_exists env (sp_name spec) h = (Inr present, h1)" by (simp add: ScmPlatform_def)
  obtain n where n: "h1 = scm_trace (take n (open_calls (sp_name spec) ''QUERY_STATUS'')) h"
    using scm_exists_calls [OF e] by blast
  have "b = (\<not> present \<or> force) \<and> h' = scm_trace
      (if b then (if present then open_calls (sp_name spec) ''DELETE'' @ [Scm_Delete (sp_name spec)] else [])
             @ create_calls spec @ open_calls (sp_name spec) ''START'' @ [Scm_Start (sp_name spec)] else []) h1"
    using Goes(2)
    by (cases present; cases force)
      (auto simp: ScmPlatform_def hret_def elim!: hthen_cases dest!: scm_create_Inr scm_verbs_Inr)
  with e n show ?thesis by (intro exI [of _ present] exI [of _ n]) simp
qed simp

lemma uninstall_sequence_Inr:
  assumes "uninstall_sequence (ScmPlatform env) name h = (Inr u, h')"
  shows "\<exists>st n. fst (scm_query_state env name h) = Inr st
    \<and> h' = scm_trace (take n (query_calls name)
        @ (if st = Svc_Running then open_calls name ''STOP'' @ [Scm_Stop name] else [])
        @ open_calls name ''DELETE'' @ [Scm_Delete name]) h"
  using assms unfolding uninstall_sequence_def
proof (cases rule: hbind_cases)
  case (Goes st h1)
  then have e: "scm_query_state env name h = (Inr st, h1)" by (simp add: ScmPlatform_def)
  obtain n where n: "h1 = scm_trace (take n (query_calls name)) h" using scm_query_calls [OF e] by blast
  have "h' = scm_trace ((if st = Svc_Running then open_calls name ''STOP'' @ [Scm_Stop name] else [])
        @ open_calls name ''DELETE'' @ [Scm_Delete name]) h1"
    using Goes(2)
    by (cases "st = Svc_Running") (auto simp: ScmPlatform_def hret_def elim!: hthen_cases dest!: scm_verbs_Inr)
  with e n show ?thesis by (intro exI [of _ st] exI [of _ n]) simp
qed simp

section \<open>Flows\<close>

text \<open>What the flows rely on of a platform.\<close>

locale service_platform =
  fixes pf :: windows_platform
  assumes files_kept: "frame {} (wp_create pf spec)" "frame {} (wp_delete pf name)" "frame {} (wp_start pf name)"
      "frame {} (wp_stop pf name)" "frame {} (wp_query_state pf name)" "frame {} (wp_exists pf name)"
    and no_stop: "adds (\<lambda>e. \<forall>n. e \<noteq> Eff_Scm (Scm_Stop n)) (wp_create pf spec)"
      "adds (\<lambda>e. \<forall>n. e \<noteq> Eff_Scm (Scm_Stop n)) (wp_delete pf name)"
      "adds (\<lambda>e. \<forall>n. e \<noteq> Eff_Scm (Scm_Stop n)) (wp_start pf name)"
      "adds (\<lambda>e. \<forall>n. e \<noteq> Eff_Scm (Scm_Stop n)) (wp_exists pf name)"
begin

lemma install_sequence_frame: "frame {} (install_sequence pf spec force)"
  unfolding install_sequence_def by (intro frame_rules files_kept)

lemma install_sequence_no_stop: "adds (\<lambda>e. \<forall>n. e \<noteq> Eff_Scm (Scm_Stop n)) (install_sequence pf spec force)"
  unfolding install_sequence_def by (intro adds_rules no_stop)

lemma uninstall_sequence_frame: "frame {} (uninstall_sequence pf name)"
  unfolding uninstall_sequence_def by (intro frame_rules files_kept)

end

lemma scm_rules [frame_rules, adds_rules]: "frame S (scm env c)" "P (Eff_Scm c) \<Longrightarrow> adds P (scm env c)"
  by (auto simp: frame_def adds_def scm_def log_effect_def)

lemma scm_do_rules [frame_rules, adds_rules]: "frame S (scm_do env v c)" "P (Eff_Scm c) \<Longrightarrow> adds P (scm_do env v c)"
  unfolding scm_do_def by (auto intro!: frame_rules adds_rules split: sum.split)

lemmas scm_op_defs = scm_create_def scm_delete_def scm_start_def scm_stop_def scm_manager_def scm_query_state_def scm_exists_def

interpretation scm: service_platform "ScmPlatform env" for env
  by unfold_locales (auto simp: ScmPlatform_def scm_op_defs intro!: frame_rules adds_rules split: sum.split)

abbreviation win_binary :: path where
  "win_binary \<equiv> ''C:'' @ [BSL] @ ''Program Files'' @ [BSL] @ ''witness'' @ [BSL] @ ''witness.exe''"

lemma win_binary_path: "path_join_win WIN_INSTALL_DIR ''witness.exe'' = win_binary"
  by (simp add: path_join_win_def WIN_INSTALL_DIR_def)

lemma win_binary_rules:
  "frame {win_binary} (win_install_binary env)" "adds (\<lambda>e. \<forall>n. e \<noteq> Eff_Scm (Scm_Stop n)) (win_install_binary env)"
  unfolding win_install_binary_def win_binary_path Let_def
  by (cases "he_exe env"; auto intro!: frame_rules adds_rules)+

lemma win_dirs_rules:
  "frame S (win_create_dirs env)" "adds (\<lambda>e. \<forall>n. e \<noteq> Eff_Scm (Scm_Stop n)) (win_create_dirs env)"
  unfolding win_create_dirs_def by (auto intro!: frame_rules adds_rules)

lemma win_setup_rules:
  "frame {WIN_CONFIG_FILE} (case ia_token args of None \<Rightarrow> hret () | Some token \<Rightarrow>
     hmap_err f (execute_checked d env (setup_args_of Os_Windows WIN_CONFIG_FILE args token)))"
  "adds (\<lambda>e. \<forall>n. e \<noteq> Eff_Scm (Scm_Stop n)) (case ia_token args of None \<Rightarrow> hret () | Some token \<Rightarrow>
     hmap_err f (execute_checked d env (setup_args_of Os_Windows WIN_CONFIG_FILE args token)))"
proof -
  have "frame {WIN_CONFIG_FILE} (execute_checked d env (setup_args_of Os_Windows WIN_CONFIG_FILE args token))"
    "adds (\<lambda>e. \<forall>n. e \<noteq> Eff_Scm (Scm_Stop n)) (execute_checked d env (setup_args_of Os_Windows WIN_CONFIG_FILE args token))" for token
    by (rule frame_setup, simp add: setup_args_of_def)
      (rule adds_mono [OF adds_setup [of env _ d]], auto elim: setup_effect.elims)
  then show "frame {WIN_CONFIG_FILE} (case ia_token args of None \<Rightarrow> hret () | Some token \<Rightarrow>
      hmap_err f (execute_checked d env (setup_args_of Os_Windows WIN_CONFIG_FILE args token)))"
    and "adds (\<lambda>e. \<forall>n. e \<noteq> Eff_Scm (Scm_Stop n)) (case ia_token args of None \<Rightarrow> hret () | Some token \<Rightarrow>
      hmap_err f (execute_checked d env (setup_args_of Os_Windows WIN_CONFIG_FILE args token)))"
    by (cases "ia_token args"; simp add: frame_rules adds_rules)+
qed

section \<open>Properties\<close>


text \<open>
  The Windows installer. Without elevation nothing happens; otherwise only the binary and the
  configuration file change, and no service is ever stopped: with \<open>--force\<close> a running service is
  deleted without being stopped first, which the service manager only carries out once the service
  has stopped.
\<close>

theorem windows_install_never_stops:
  assumes "windows_install d describe env (ScmPlatform env) args h = (r, h')"
  shows "(\<not> he_privileged env \<longrightarrow> r = Inl Win_NotElevated \<and> h' = h)
    \<and> (\<forall>p. p \<notin> {path_join_win WIN_INSTALL_DIR ''witness.exe'', WIN_CONFIG_FILE} \<longrightarrow> h_files h' p = h_files h p)
    \<and> (\<exists>es. h_log h' = h_log h @ es \<and> (\<forall>n. Eff_Scm (Scm_Stop n) \<notin> set es))"
proof (intro conjI impI allI)
  assume "\<not> he_privileged env"
  with assms show "r = Inl Win_NotElevated" and "h' = h"
    by (auto simp: windows_install_def require_elevated_def hthen_def hfail_def)
next
  fix p assume p: "p \<notin> {path_join_win WIN_INSTALL_DIR ''witness.exe'', WIN_CONFIG_FILE}"
  have "frame {win_binary, WIN_CONFIG_FILE} (windows_install d describe env (ScmPlatform env) args)"
    unfolding windows_install_def require_elevated_def
    by (intro frame_rules frame_mono [OF win_binary_rules(1)] frame_mono [OF win_setup_rules(1)] win_dirs_rules
        frame_mono [OF scm.install_sequence_frame]) auto
  from frameD [OF this assms] p show "h_files h' p = h_files h p" by (simp add: win_binary_path)
next
  have "adds (\<lambda>e. \<forall>n. e \<noteq> Eff_Scm (Scm_Stop n)) (windows_install d describe env (ScmPlatform env) args)"
    unfolding windows_install_def require_elevated_def
    by (intro adds_rules win_binary_rules(2) win_setup_rules(2) win_dirs_rules(2) scm.install_sequence_no_stop)
  from addsD [OF this assms] show "\<exists>es. h_log h' = h_log h @ es \<and> (\<forall>n. Eff_Scm (Scm_Stop n) \<notin> set es)"
    by (auto simp: list_all_iff)
qed

definition demo_win_env :: host_env where
  "demo_win_env = demo_env\<lparr>he_os := Os_Windows, he_scm := (\<lambda>_ _. Inr Ws_Running)\<rparr>"

theorem windows_install_never_stops_witness:
  "\<exists>r h'. windows_install demo_config_deps (\<lambda>_. []) demo_win_env (ScmPlatform demo_win_env) (demo_install_args\<lparr>ia_force := True\<rparr>) demo_host = (r, h')
     \<and> (\<forall>n. Eff_Scm (Scm_Stop n) \<notin> set (h_log h'))"
proof -
  obtain r h' where run: "windows_install demo_config_deps (\<lambda>_. []) demo_win_env (ScmPlatform demo_win_env)
      (demo_install_args\<lparr>ia_force := True\<rparr>) demo_host = (r, h')" by (rule prod.exhaust)
  from windows_install_never_stops [OF run] run show ?thesis by (auto simp: demo_host_def)
qed


end
