(* ===== verification/Service.thy ===== *)
theory Service
  imports Agent Install_Windows
begin

text \<open>
  The Windows service host (\<open>src/service_windows.rs\<close>), the wait for a signal and the entry point
  (\<open>src/main.rs\<close>), and the dispatch of the subcommands (\<open>src/install/mod.rs\<close>). The watch channel of
  \<open>tokio\<close> is a parameter: a channel, receivers made from it, and whether a receiver has an unseen
  change.
\<close>

section \<open>Watch channels\<close>

record ('ch, 'rx) watch_ops =
  wc_new :: 'ch
  wc_send :: "'ch \<Rightarrow> 'ch"
  wc_subscribe :: "'ch \<Rightarrow> 'rx"
  wc_changed :: "'rx \<Rightarrow> 'ch \<Rightarrow> bool"

text \<open>
  The documented behaviour: a new receiver has seen the current value, a value sent later is a change
  for every receiver, and it remains one.
\<close>

definition watch_ok :: "('ch, 'rx) watch_ops \<Rightarrow> bool" where
  "watch_ok W \<longleftrightarrow>
     (\<forall>ch. \<not> wc_changed W (wc_subscribe W ch) ch)
     \<and> (\<forall>ch. wc_changed W (wc_subscribe W ch) (wc_send W ch))
     \<and> (\<forall>rx ch. wc_changed W rx ch \<longrightarrow> wc_changed W rx (wc_send W ch))"

section \<open>The service host\<close>

datatype scm_control = Control_Stop | Control_Shutdown | Control_Interrogate | Control_Other

datatype control_action = CancelAndStopPending | ReReport | NotImplemented

fun map_control :: "scm_control \<Rightarrow> control_action" where
  "map_control Control_Stop = CancelAndStopPending"
| "map_control Control_Shutdown = CancelAndStopPending"
| "map_control Control_Interrogate = ReReport"
| "map_control Control_Other = NotImplemented"

datatype reported_state = Rep_Running | Rep_StopPending | Rep_Stopped

datatype handler_result = Handler_NoError | Handler_NotImplemented

text \<open>
  The statics of the host: the sender, whether the status handle is registered, and the states reported
  to the manager, each with whether stop and shutdown are accepted.
\<close>

record 'ch service_host =
  sv_shutdown :: "'ch option"
  sv_registered :: bool
  sv_reports :: "(reported_state \<times> bool) list"

definition report_state :: "reported_state \<Rightarrow> bool \<Rightarrow> 'ch service_host \<Rightarrow> 'ch service_host" where
  "report_state st accepts sv = sv\<lparr>sv_reports := sv_reports sv @ [(st, accepts)]\<rparr>"

definition control_handler :: "('ch, 'rx) watch_ops \<Rightarrow> scm_control \<Rightarrow> 'ch service_host \<Rightarrow> handler_result \<times> 'ch service_host" where
  "control_handler W control sv =
     (case map_control control of
        CancelAndStopPending \<Rightarrow>
          (let sv1 = sv\<lparr>sv_shutdown := map_option (wc_send W) (sv_shutdown sv)\<rparr>;
               sv2 = (if sv_registered sv1 then report_state Rep_StopPending False sv1 else sv1)
           in (Handler_NoError, sv2))
      | ReReport \<Rightarrow> (Handler_NoError, sv)
      | NotImplemented \<Rightarrow> (Handler_NotImplemented, sv))"

definition shutdown_receiver :: "('ch, 'rx) watch_ops \<Rightarrow> 'ch service_host \<Rightarrow> 'rx option" where
  "shutdown_receiver W sv = map_option (wc_subscribe W) (sv_shutdown sv)"

text \<open>
  \<open>run_service\<close>: \<open>registers\<close> and \<open>runtime\<close> say whether the handler and the runtime can be made;
  \<open>agent\<close> is the agent loop with the controls that arrive while it runs.
\<close>

definition run_service ::
    "('ch, 'rx) watch_ops \<Rightarrow> bool \<Rightarrow> bool \<Rightarrow> path option \<Rightarrow> (path \<Rightarrow> 'ch service_host \<Rightarrow> 'ch service_host) \<Rightarrow>
       'ch service_host \<Rightarrow> bool \<times> 'ch service_host" where
  "run_service W registers runtime config_path agent sv =
     (let sv1 = sv\<lparr>sv_shutdown := (case sv_shutdown sv of None \<Rightarrow> Some (wc_new W) | Some ch \<Rightarrow> Some ch)\<rparr> in
      if \<not> registers then (False, sv1)
      else (let sv2 = report_state Rep_Running True (sv1\<lparr>sv_registered := True\<rparr>);
                config = (case config_path of Some p \<Rightarrow> p | None \<Rightarrow> WIN_CONFIG_FILE);
                sv3 = (if runtime then agent config sv2 else sv2)
            in (True, report_state Rep_Stopped False sv3)))"

datatype dispatch_result = Dispatch_Ok | Dispatch_Winapi nat | Dispatch_Error

definition NOT_SCM_LAUNCHED :: nat where "NOT_SCM_LAUNCHED = 1063"

definition service_dispatch :: "dispatch_result \<Rightarrow> bool" where
  "service_dispatch r =
     (case r of
        Dispatch_Ok \<Rightarrow> True
      | Dispatch_Winapi e \<Rightarrow> if e = NOT_SCM_LAUNCHED then False else False
      | Dispatch_Error \<Rightarrow> False)"

section \<open>Signals\<close>

datatype trigger = Trig_CtrlC | Trig_Terminate | Trig_Hangup | Trig_Reload | Trig_Service

text \<open>
  The branches \<open>wait_for_signal\<close> selects on; \<open>service\<close> says whether the process runs under the service
  manager. The result is the first branch that becomes ready; the process exits when a handler
  cannot be registered, and \<open>None\<close> means it still waits.
\<close>

definition selects :: "target_os \<Rightarrow> bool \<Rightarrow> trigger \<Rightarrow> signal option" where
  "selects os service t =
     (case t of
        Trig_CtrlC \<Rightarrow> Some Sig_Shutdown
      | Trig_Reload \<Rightarrow> Some Sig_Reload
      | Trig_Terminate \<Rightarrow> if os \<in> {Os_Linux, Os_MacOS} then Some Sig_Shutdown else None
      | Trig_Hangup \<Rightarrow> if os \<in> {Os_Linux, Os_MacOS} then Some Sig_Reload else None
      | Trig_Service \<Rightarrow> if os = Os_Windows \<and> service then Some Sig_Shutdown else None)"

fun first_selected :: "target_os \<Rightarrow> bool \<Rightarrow> trigger list \<Rightarrow> signal option" where
  "first_selected os service [] = None"
| "first_selected os service (t # ts) =
     (case selects os service t of Some s \<Rightarrow> Some s | None \<Rightarrow> first_selected os service ts)"

definition wait_for_signal :: "target_os \<Rightarrow> bool \<Rightarrow> bool \<Rightarrow> trigger list \<Rightarrow> nat + signal option" where
  "wait_for_signal os handlers_ok service ts =
     (if os \<in> {Os_Linux, Os_MacOS} \<and> \<not> handlers_ok then Inl 1 else Inr (first_selected os service ts))"

section \<open>Commands\<close>

text \<open>A command line that was parsed, and what \<open>main\<close> runs for it.\<close>

datatype command = Cmd_Install install_args | Cmd_Uninstall uninstall_args | Cmd_Status | Cmd_Setup setup_args

record cli =
  cli_command :: "command option"
  cli_config :: path
  cli_dry_run :: bool

datatype main_action =
  Run_Install install_args | Run_Uninstall uninstall_args | Run_Status | Run_Setup setup_args
| Run_DryRun path | Run_Service | Run_Agent path

definition main_action_of :: "target_os \<Rightarrow> dispatch_result \<Rightarrow> cli \<Rightarrow> main_action" where
  "main_action_of os r c =
     (case cli_command c of
        Some (Cmd_Install args) \<Rightarrow> Run_Install args
      | Some (Cmd_Uninstall args) \<Rightarrow> Run_Uninstall args
      | Some Cmd_Status \<Rightarrow> Run_Status
      | Some (Cmd_Setup args) \<Rightarrow> Run_Setup args
      | None \<Rightarrow>
          if cli_dry_run c then Run_DryRun (cli_config c)
          else if os = Os_Windows \<and> service_dispatch r then Run_Service
          else Run_Agent (cli_config c))"

text \<open>The exit status of a flow: \<open>fail\<close> ends the process with status 1.\<close>

definition exit_status :: "('e + 'a) \<times> host \<Rightarrow> nat \<times> host" where
  "exit_status r = (case r of (Inl _, h) \<Rightarrow> (1, h) | (Inr _, h) \<Rightarrow> (0, h))"

definition install_run ::
    "deps \<Rightarrow> (box_error \<Rightarrow> string) \<Rightarrow> host_env \<Rightarrow> platform \<Rightarrow> windows_platform \<Rightarrow> install_args \<Rightarrow> host \<Rightarrow> nat \<times> host" where
  "install_run d describe env pf wpf args h =
     (case he_os env of
        Os_Linux \<Rightarrow> exit_status (systemd_install d env args h)
      | Os_MacOS \<Rightarrow> exit_status (macos_install d describe env pf args h)
      | Os_Windows \<Rightarrow> exit_status (windows_install d describe env wpf args h)
      | Os_Other \<Rightarrow> (1, h))"

definition run_uninstall :: "host_env \<Rightarrow> platform \<Rightarrow> windows_platform \<Rightarrow> uninstall_args \<Rightarrow> host \<Rightarrow> nat \<times> host" where
  "run_uninstall env pf wpf args h =
     (case he_os env of
        Os_MacOS \<Rightarrow> exit_status (macos_uninstall env pf args h)
      | Os_Windows \<Rightarrow> exit_status (windows_uninstall env wpf args h)
      | _ \<Rightarrow> (1, h))"

end
