(* ===== verification/Service_Props.thy ===== *)
theory Service_Props
  imports Service
begin

text \<open>
  A stop request of the service manager reaches a wait that has begun, and only such a wait.
\<close>

definition handle_controls :: "('ch, 'rx) watch_ops \<Rightarrow> scm_control list \<Rightarrow> 'ch service_host \<Rightarrow> 'ch service_host" where
  "handle_controls W cs sv = fold (\<lambda>c sv. snd (control_handler W c sv)) cs sv"

abbreviation is_stop :: "scm_control \<Rightarrow> bool" where
  "is_stop c \<equiv> c \<in> {Control_Stop, Control_Shutdown}"

lemma control_handler_run:
  "sv_shutdown (snd (control_handler W c sv)) = (if is_stop c then map_option (wc_send W) (sv_shutdown sv) else sv_shutdown sv)"
  "sv_registered (snd (control_handler W c sv)) = sv_registered sv"
  "sv_reports (snd (control_handler W c sv)) =
     sv_reports sv @ (if is_stop c \<and> sv_registered sv then [(Rep_StopPending, False)] else [])"
  by (cases c; simp add: control_handler_def report_state_def Let_def)+

lemma handle_controls_changed:
  assumes "watch_ok W" and "wc_changed W rx ch" and "sv_shutdown sv = Some ch"
  shows "\<exists>ch'. sv_shutdown (handle_controls W cs sv) = Some ch' \<and> wc_changed W rx ch'"
  using assms(2,3)
proof (induction cs arbitrary: sv ch)
  case (Cons c cs)
  have "wc_changed W rx (wc_send W ch)" using assms(1) Cons.prems(1) by (simp add: watch_ok_def)
  with Cons.prems Cons.IH [of "if is_stop c then wc_send W ch else ch" "snd (control_handler W c sv)"] show ?case
    by (simp add: handle_controls_def control_handler_run split: if_splits)
qed (simp add: handle_controls_def)

lemma handle_controls_fresh:
  assumes "watch_ok W" and "sv_shutdown sv = Some ch"
  shows "\<exists>ch'. sv_shutdown (handle_controls W cs sv) = Some ch'
    \<and> (wc_changed W (wc_subscribe W ch) ch' \<longleftrightarrow> (\<exists>c \<in> set cs. is_stop c))"
  using assms(2)
proof (induction cs arbitrary: sv)
  case Nil
  with assms(1) show ?case by (simp add: handle_controls_def watch_ok_def)
next
  case (Cons c cs)
  show ?case
  proof (cases "is_stop c")
    case True
    let ?sv = "snd (control_handler W c sv)"
    have "sv_shutdown ?sv = Some (wc_send W ch)" using Cons.prems True by (simp add: control_handler_run)
    moreover have "wc_changed W (wc_subscribe W ch) (wc_send W ch)" using assms(1) by (simp add: watch_ok_def)
    ultimately show ?thesis
      using handle_controls_changed [OF assms(1), of _ _ ?sv cs] True by (simp add: handle_controls_def)
  next
    case False
    with Cons.IH [of "snd (control_handler W c sv)"] Cons.prems show ?thesis
      by (simp add: handle_controls_def control_handler_run)
  qed
qed

lemma handle_controls_reports:
  "sv_registered sv \<Longrightarrow> sv_reports (handle_controls W cs sv) =
     sv_reports sv @ replicate (length (filter is_stop cs)) (Rep_StopPending, False)"
proof (induction cs arbitrary: sv)
  case (Cons c cs)
  from Cons.IH [of "snd (control_handler W c sv)"] Cons.prems show ?case
    by (simp add: handle_controls_def control_handler_run)
qed (simp add: handle_controls_def)

text \<open>
  C17: stopping the service. Of any sequence of controls, the receiver of a wait that began before them
  sees a change exactly if one of them was a stop or a shutdown, and each of these is answered by
  reporting that the stop is pending. A wait that begins after the controls sees none of them: the
  current value counts as seen. A stop that arrives while the agent restarts with a new
  configuration, or before it first waits, is therefore reported as pending but never acted on.
\<close>

theorem service_stop:
  assumes "watch_ok W" and "sv_shutdown sv = Some ch" and "sv_registered sv"
  shows "\<exists>ch'. sv_shutdown (handle_controls W cs sv) = Some ch'
    \<and> (wc_changed W (wc_subscribe W ch) ch' \<longleftrightarrow> (\<exists>c \<in> set cs. c \<in> {Control_Stop, Control_Shutdown}))
    \<and> sv_reports (handle_controls W cs sv) =
        sv_reports sv @ replicate (length (filter is_stop cs)) (Rep_StopPending, False)
    \<and> (\<exists>rx. shutdown_receiver W (handle_controls W cs sv) = Some rx \<and> \<not> wc_changed W rx ch')"
  using handle_controls_fresh [OF assms(1,2), of cs] handle_controls_reports [OF assms(3), of W cs] assms(1)
  by (auto simp: shutdown_receiver_def watch_ok_def)

definition demo_watch :: "(nat, nat) watch_ops" where
  "demo_watch = \<lparr>wc_new = 0, wc_send = Suc, wc_subscribe = (\<lambda>ch. ch), wc_changed = (\<lambda>rx ch. rx < ch)\<rparr>"

theorem service_stop_witness:
  "\<exists>ch'. sv_shutdown (handle_controls demo_watch [Control_Interrogate, Control_Stop] \<lparr>sv_shutdown = Some 0, sv_registered = True, sv_reports = []\<rparr>) = Some ch'
     \<and> wc_changed demo_watch (wc_subscribe demo_watch 0) ch'"
proof -
  have "watch_ok demo_watch" by (simp add: watch_ok_def demo_watch_def)
  from service_stop [OF this, of "\<lparr>sv_shutdown = Some 0, sv_registered = True, sv_reports = []\<rparr>" 0 "[Control_Interrogate, Control_Stop]"]
  show ?thesis by auto
qed

end
