(* ===== verification/Metrics_Macos_Props.thy ===== *)
theory Metrics_Macos_Props
  imports Metrics_Macos Metrics_Deltas
begin

text \<open>
  The macOS collectors: the 32-bit interface counters are turned into the growth of unbounded
  ones, the checkpoint sends the accumulated totals, percentages stay in their range and each
  container is reported once.
\<close>

section \<open>Counters that wrap\<close>

lemma delta32_exact:
  assumes "unat cur = b mod 2 ^ 32" and "unat prev = a mod 2 ^ 32" and "a \<le> b" and "b - a < 2 ^ 32"
  shows "unat (delta32 cur prev) = b - a"
proof -
  define r where "r = a mod 2 ^ 32"
  define k where "k = b - a"
  have r: "r < 2 ^ 32" and k: "k < 2 ^ 32" using assms(4) by (simp_all add: r_def k_def)
  have "b = a + k" using assms(3) by (simp add: k_def)
  then have b: "unat cur = (r + k) mod 2 ^ 32" using assms(1) by (simp only: r_def mod_add_left_eq)
  have p: "unat prev = r" using assms(2) r_def by simp
  have "unat (delta32 cur prev) = k"
  proof (cases "r + k < 2 ^ 32")
    case True
    with b p have "prev \<le> cur" "unat (cur - prev) = k" by (simp_all add: word_le_nat_alt unat_sub)
    then show ?thesis by (simp add: delta32_def)
  next
    case False
    with r k have m: "(r + k) mod 2 ^ 32 = r + k - 2 ^ 32" by (simp add: mod_if)
    with False b p k have l: "\<not> prev \<le> cur" by (simp add: word_le_nat_alt)
    have w: "unat (2 ^ 32 :: u64) = 2 ^ 32" by simp
    have s: "unat (cur + 2 ^ 32) = r + k"
      using False m b w r k by (subst unat_add_fits) simp_all
    then have "unat (cur + 2 ^ 32 - prev) = k" using p by (subst unat_sub) (simp_all add: word_le_nat_alt)
    with l show ?thesis by (simp add: delta32_def)
  qed
  then show ?thesis by (simp add: k_def)
qed

text \<open>The steps of the unbounded counters behind a list of readings.\<close>

abbreviation tracks :: "nat list \<Rightarrow> bool" where
  "tracks T \<equiv> successively (\<lambda>a b. a \<le> b \<and> b - a < 2 ^ 32) T"

lemma delta_steps:
  assumes "map (\<lambda>x. unat (g x)) xs = map (\<lambda>t. t mod 2 ^ 32) T" and "tracks T"
  shows "map (\<lambda>(p, c). unat (delta32 (g c) (g p))) (steps_of xs) = map (\<lambda>(a, b). b - a) (steps_of T)"
  using assms
proof (induction xs arbitrary: T rule: induct_list012)
  case (3 x y zs)
  then obtain a b U where T: "T = a # b # U" by (cases T rule: list.exhaust; cases "tl T") auto
  with 3(2) [of "b # U"] 3(3,4) delta32_exact [of "g y" b "g x" a] show ?case by simp
qed auto

lemma growth_tracks: "tracks T \<Longrightarrow> T \<noteq> [] \<Longrightarrow> sum_list (map (\<lambda>(a, b). b - a) (steps_of T)) = last T - hd T \<and> hd T \<le> last T"
proof (induction T rule: induct_list012)
  case (3 a b U)
  then have "a \<le> b" "sum_list (map (\<lambda>(a, b). b - a) (steps_of (b # U))) = last (b # U) - b \<and> b \<le> last (b # U)" by auto
  then show ?case by auto
qed auto

section \<open>Rows of the interfaces\<close>

definition mac_reading :: "deps \<Rightarrow> device_filter \<Rightarrow> string \<times> net_stats \<Rightarrow> (string \<times> net_stats) option" where
  "mac_reading d flt x = (if device_allows d flt (fst x) then Some x else None)"

text \<open>A row without the totals, which do not influence what is sent.\<close>

definition mac_row :: "deps \<Rightarrow> device_filter \<Rightarrow> string \<times> net_stats \<Rightarrow> sink \<times> net_prev \<Rightarrow> sink \<times> net_prev" where
  "mac_row d flt x st = (case mac_net_one d flt x (fst st, snd st, []) of (s', prev', totals') \<Rightarrow> (s', prev'))"

interpretation mac_rows: delta_rows "mac_row d flt" "mac_reading d flt" "\<lambda>p c. if_counters (if_delta p c)" "''interface''" for d flt
  by unfold_locales
    (auto simp: mac_row_def mac_net_one_def mac_reading_def Let_def split: option.splits prod.splits if_splits)

lemma mac_net_one_row: "mac_net_one d flt x (s, prev, totals) = (s', prev', totals') \<Longrightarrow> mac_row d flt x (s, prev) = (s', prev')"
  by (auto simp: mac_row_def mac_net_one_def Let_def split: option.splits prod.splits if_splits)

lemma fold_mac_row:
  "fold (mac_net_one d flt) xs (s, prev, totals) = (s', prev', totals') \<Longrightarrow> fold (mac_row d flt) xs (s, prev) = (s', prev')"
proof (induction xs arbitrary: s prev totals)
  case (Cons x xs)
  obtain s1 p1 t1 where one: "mac_net_one d flt x (s, prev, totals) = (s1, p1, t1)" by (rule prod_cases3)
  with Cons show ?case using mac_net_one_row [OF one] by simp
qed simp

definition if_rows :: "ifaddr list option list \<Rightarrow> (string \<times> net_stats) list" where
  "if_rows rs = concat (map (\<lambda>r. case read_if_stats r of Some xs \<Rightarrow> xs | None \<Rightarrow> []) rs)"

lemma fold_mac_net_collect: "fold (mac_net_collect d flt) rs st = fold (mac_net_one d flt) (if_rows rs) st"
  by (induction rs arbitrary: st) (auto simp: if_rows_def mac_net_collect_def split: option.splits)

lemma if_values: "(name, g) \<in> set net_fields \<Longrightarrow> values_of name (if_counters (if_delta p c)) = [f_u64 (delta32 (g c) (g p))]"
  by (auto simp: net_fields_def if_counters_def if_delta_def values_of_def)

section \<open>Totals\<close>

text \<open>The counters that are accumulated for the checkpoints.\<close>

definition total_fields :: "(string \<times> (net_stats \<Rightarrow> u64)) list" where
  "total_fields =
     [(''system.net.bytes_recv'', ns_rx_bytes), (''system.net.bytes_sent'', ns_tx_bytes),
      (''system.net.packets_recv'', ns_rx_packets), (''system.net.packets_sent'', ns_tx_packets)]"

lemma total_field_delta: "(name, g) \<in> set total_fields \<Longrightarrow> g (add_delta (if_delta p c) t) = g t + delta32 (g c) (g p)"
  by (auto simp: total_fields_def add_delta_def if_delta_def)

lemma fold_totals:
  assumes "(name, g) \<in> set total_fields" and "fold (mac_net_one d flt) rows (s, prev, totals) = (s', prev', totals')"
    and "xs = (case map_of prev k of Some p \<Rightarrow> [p] | None \<Rightarrow> []) @ readings_of (mac_reading d flt) k rows" and "xs \<noteq> []"
    and "map_of prev k \<noteq> None \<Longrightarrow> \<exists>t. map_of totals k = Some t \<and> g t = w"
    and "map_of prev k = None \<Longrightarrow> w = g (hd xs)"
  shows "\<exists>t. map_of totals' k = Some t \<and> g t = w + sum_list (map (\<lambda>(p, c). delta32 (g c) (g p)) (steps_of xs))"
  using assms(2-)
proof (induction rows arbitrary: s prev totals xs w)
  case Nil
  then show ?case by (auto split: option.splits)
next
  case (Cons x rows)
  obtain iface cur where x: "x = (iface, cur)" by (cases x)
  obtain s1 p1 t1 where one: "mac_net_one d flt x (s, prev, totals) = (s1, p1, t1)" by (rule prod_cases3)
  have rest: "fold (mac_net_one d flt) rows (s1, p1, t1) = (s', prev', totals')" using Cons.prems(1) one by simp
  show ?case
  proof (cases "device_allows d flt iface \<and> iface = k")
    case False
    then have "map_of p1 k = map_of prev k" "map_of t1 k = map_of totals k"
      "readings_of (mac_reading d flt) k (x # rows) = readings_of (mac_reading d flt) k rows"
      using one by (auto simp: x mac_net_one_def mac_reading_def readings_of_def map_filter_def Let_def update_conv' split: option.splits if_splits)
    with Cons.IH [OF rest, of xs w] Cons.prems show ?thesis by simp
  next
    case True
    have r: "readings_of (mac_reading d flt) k (x # rows) = cur # readings_of (mac_reading d flt) k rows"
      using True by (auto simp: x mac_reading_def readings_of_def map_filter_def)
    have p1: "map_of p1 k = Some cur"
      using one True by (auto simp: x mac_net_one_def Let_def update_conv' split: option.splits)
    let ?ys = "cur # readings_of (mac_reading d flt) k rows"
    show ?thesis
    proof (cases "map_of prev k")
      case None
      then have "map_of t1 k = Some cur" using one True by (auto simp: x mac_net_one_def update_conv')
      with Cons.IH [OF rest, of ?ys "g cur"] p1 None Cons.prems(2,5) r show ?thesis by simp
    next
      case (Some p)
      with Cons.prems(4) obtain t where t: "map_of totals k = Some t" "g t = w" by auto
      have "map_of t1 k = Some (add_delta (if_delta p cur) t)"
        using one True Some t by (auto simp: x mac_net_one_def Let_def update_conv')
      with Cons.IH [OF rest, of ?ys "w + delta32 (g cur) (g p)"] p1 Some t Cons.prems(2) r total_field_delta [OF assms(1)]
      show ?thesis by (simp add: algebra_simps)
    qed
  qed
qed

section \<open>Checkpoints\<close>

text \<open>The cumulative values of the counter \<open>name\<close> sent with the labels \<open>ls\<close>, in order.\<close>

definition cumulated :: "sink \<Rightarrow> string \<Rightarrow> labels \<Rightarrow> f64 list" where
  "cumulated s name ls =
     (case inner s of
        Live h \<Rightarrow> List.map_filter (\<lambda>c. case c of
            Tell_counter_dyn_with_temporality n v l Cumulative \<Rightarrow> if n = name \<and> l = tags s @ ls then Some v else None
          | _ \<Rightarrow> None) h
      | _ \<Rightarrow> [])"

lemma emit_cumulative_live:
  assumes "is_live s"
  shows "is_live (emit_cumulative l cs s) \<and> tags (emit_cumulative l cs s) = tags s
    \<and> cumulated (emit_cumulative l cs s) name ls = cumulated s name ls @ (if l = ls then values_of name cs else [])"
  using assms
proof (induction cs arbitrary: s)
  case (Cons c cs)
  obtain n v where c: "c = (n, v)" by (cases c)
  let ?s = "counter_dyn_with_temporality s n v l Cumulative"
  have "is_live ?s" "tags ?s = tags s" "cumulated ?s name ls = cumulated s name ls @ (if n = name \<and> l = ls then [v] else [])"
    using Cons.prems
    by (auto simp: is_live_def counter_dyn_with_temporality_def emit_metric_def cumulated_def with_merged_append map_filter_def)
  with Cons.IH [of ?s] show ?case by (auto simp: emit_cumulative_def c values_of_def)
qed (simp add: emit_cumulative_def values_of_def)

lemma checkpoint_sends:
  assumes "is_live s" and "distinct (map fst totals)" and "(name, g) \<in> set total_fields"
  shows "cumulated (mac_net_checkpoint totals s) name [(''interface'', k)]
    = cumulated s name [(''interface'', k)] @ (case map_of totals k of Some t \<Rightarrow> [f_u64 (g t)] | None \<Rightarrow> [])"
  using assms(1,2)
proof (induction totals arbitrary: s)
  case (Cons x totals)
  obtain iface t where x: "x = (iface, t)" by (cases x)
  let ?cs = "[(''system.net.bytes_recv'', f_u64 (ns_rx_bytes t)), (''system.net.bytes_sent'', f_u64 (ns_tx_bytes t)),
        (''system.net.packets_recv'', f_u64 (ns_rx_packets t)), (''system.net.packets_sent'', f_u64 (ns_tx_packets t))]"
  have v: "values_of name ?cs = [f_u64 (g t)]" using assms(3) by (auto simp: total_fields_def values_of_def)
  note live = emit_cumulative_live [OF Cons.prems(1), of "[(''interface'', iface)]" ?cs name "[(''interface'', k)]"]
  have n: "map_of totals iface = None" using Cons.prems(2) by (simp add: x map_of_eq_None_iff)
  from Cons.IH [of "emit_cumulative [(''interface'', iface)] ?cs s"] Cons.prems(2) live v n show ?case
    by (auto simp: mac_net_checkpoint_def x)
qed (simp add: mac_net_checkpoint_def)

lemma fold_totals_distinct:
  "fold (mac_net_one d flt) rows (s, prev, totals) = (s', prev', totals') \<Longrightarrow> distinct (map fst totals) \<Longrightarrow> distinct (map fst totals')"
proof (induction rows arbitrary: s prev totals)
  case (Cons x rows)
  obtain s1 p1 t1 where one: "mac_net_one d flt x (s, prev, totals) = (s1, p1, t1)" by (rule prod_cases3)
  then have "distinct (map fst t1)" using Cons.prems(2)
    by (auto simp: mac_net_one_def Let_def distinct_update split: prod.splits option.splits if_splits)
  with Cons one show ?case by simp
qed simp

section \<open>Properties\<close>

lemma sum_unat_fits: "sum_list (map unat ws) < 2 ^ 64 \<Longrightarrow> unat (sum_list ws :: u64) = sum_list (map unat ws)"
  by (induction ws) (simp_all add: unat_add_fits del: power_numeral)

lemma tracks_step: "tracks T \<Longrightarrow> (a, b) \<in> set (steps_of T) \<Longrightarrow> b - a < 2 ^ 32"
  by (induction T rule: induct_list012) auto

lemma f_val_deltas:
  assumes "map (\<lambda>x. unat (g x)) xs = map (\<lambda>t. t mod 2 ^ 32) T" and "tracks T" and "T \<noteq> []"
  shows "sum_list (map f_val (map (\<lambda>(p, c). f_u64 (delta32 (g c) (g p))) (steps_of xs))) = of_nat (last T - hd T)"
proof -
  have small: "n < 2 ^ 53" if "n \<in> set (map (\<lambda>(a, b). b - a) (steps_of T))" for n
  proof -
    from that tracks_step [OF assms(2)] have "n < 2 ^ 32" by auto
    then show ?thesis by (rule less_trans) simp
  qed
  note eq = delta_steps [OF assms(1,2)]
  have "map f_val (map (\<lambda>(p, c). f_u64 (delta32 (g c) (g p))) (steps_of xs))
      = map of_nat (map (\<lambda>(p, c). unat (delta32 (g c) (g p))) (steps_of xs))"
  proof (rule nth_equalityI)
    fix i assume "i < length (map f_val (map (\<lambda>(p, c). f_u64 (delta32 (g c) (g p))) (steps_of xs)))"
    then have i: "i < length (steps_of xs)" by simp
    obtain p c where pc: "steps_of xs ! i = (p, c)" by (rule prod.exhaust)
    have "(\<lambda>(p, c). unat (delta32 (g c) (g p))) (steps_of xs ! i) \<in> set (map (\<lambda>(p, c). unat (delta32 (g c) (g p))) (steps_of xs))"
      using i by simp
    then have "unat (delta32 (g c) (g p)) < 2 ^ 53" using small pc by (simp add: eq del: power_numeral)
    then show "map f_val (map (\<lambda>(p, c). f_u64 (delta32 (g c) (g p))) (steps_of xs)) ! i
        = map of_nat (map (\<lambda>(p, c). unat (delta32 (g c) (g p))) (steps_of xs)) ! i"
      using i pc by (simp add: f_u64_small del: power_numeral)
  qed simp
  moreover have "sum_list (map of_nat ns) = (of_nat (sum_list ns) :: rat)" for ns :: "nat list" by (induction ns) simp_all
  ultimately show ?thesis using growth_tracks [OF assms(2,3)] by (simp only: eq)
qed

text \<open>
  C24: the macOS network collector follows the traffic although the kernel's counters have 32 bits.
  Let \<open>T\<close> be the unbounded counter behind the readings of an interface, which grows by less than
  \<open>2 ^ 32\<close> from one reading to the next. Over any sequence of collections, whatever else
  \<open>getifaddrs\<close> lists, the deltas sent add up to the growth of \<open>T\<close>; for bytes and packets the
  total is the first reading plus this growth, and a checkpoint sends it, once for the interface.
\<close>

theorem mac_net_counters_refine:
  assumes "is_live s" and run: "fold (mac_net_collect d flt) rs (s, [], []) = (s', prev', totals')"
    and "(name, g) \<in> set net_fields" and xs: "xs = readings_of (mac_reading d flt) iface (if_rows rs)"
    and T: "map (\<lambda>x. unat (g x)) xs = map (\<lambda>t. t mod 2 ^ 32) T" "tracks T" "T \<noteq> []"
  shows "counted_sum s' name [(''interface'', iface)]
       = counted_sum s name [(''interface'', iface)] + of_nat (last T - hd T)
    \<and> ((name, g) \<in> set total_fields \<and> hd T mod 2 ^ 32 + (last T - hd T) < 2 ^ 53 \<and> is_live c \<longrightarrow>
         cumulated (mac_net_checkpoint totals' c) name [(''interface'', iface)]
       = cumulated c name [(''interface'', iface)] @ [Fin (of_nat (hd T mod 2 ^ 32 + (last T - hd T)))])"
proof -
  note run' = run [unfolded fold_mac_net_collect]
  have ne: "xs \<noteq> []" using T(1,3) by auto
  then have hd: "unat (g (hd xs)) = hd T mod 2 ^ 32" using T(1,3) by (metis (no_types, lifting) list.map_sel(1))
  have vals: "concat (map (\<lambda>(p, c). values_of name (if_counters (if_delta p c))) ys) = map (\<lambda>(p, c). f_u64 (delta32 (g c) (g p))) ys" for ys
    by (induction ys) (auto simp: if_values [OF assms(3)])
  have sent: "counted_sum s' name [(''interface'', iface)]
      = counted_sum s name [(''interface'', iface)] + of_nat (last T - hd T)"
    using mac_rows.fold_rows [OF assms(1), where ls = "if_rows rs" and prev = "[]" and k = iface and name = name and d = d and flt = flt]
      f_val_deltas [OF T]
    by (simp add: fold_mac_row [OF run'] xs [symmetric] vals Let_def counted_sum_def)
  have "cumulated (mac_net_checkpoint totals' c) name [(''interface'', iface)]
       = cumulated c name [(''interface'', iface)] @ [Fin (of_nat (hd T mod 2 ^ 32 + (last T - hd T)))]"
    if tf: "(name, g) \<in> set total_fields" and small: "hd T mod 2 ^ 32 + (last T - hd T) < 2 ^ 53" and "is_live c"
  proof -
    let ?ws = "map (\<lambda>(p, c). delta32 (g c) (g p)) (steps_of xs)"
    obtain t where t: "map_of totals' iface = Some t" "g t = g (hd xs) + sum_list ?ws"
      using fold_totals [OF tf run', of xs iface "g (hd xs)"] ne by (auto simp: xs)
    have "map unat ?ws = map (\<lambda>(a, b). b - a) (steps_of T)"
      using delta_steps [OF T(1,2)] by (simp add: case_prod_unfold comp_def)
    then have sum: "sum_list (map unat ?ws) = last T - hd T" using growth_tracks [OF T(2,3)] by simp
    have bound: "(2 :: nat) ^ 53 < 2 ^ 64" by simp
    have "last T - hd T < 2 ^ 64" using small bound by linarith
    then have "unat (sum_list ?ws) = last T - hd T" using sum_unat_fits [of ?ws] by (simp only: sum)
    moreover have "hd T mod 2 ^ 32 + (last T - hd T) < 2 ^ 64" using small bound by linarith
    ultimately have "unat (g t) = hd T mod 2 ^ 32 + (last T - hd T)" using unat_add_fits [of "g (hd xs)" "sum_list ?ws"] t hd by simp
    then have "f_u64 (g t) = Fin (of_nat (hd T mod 2 ^ 32 + (last T - hd T)))" using f_u64_small [of "g t"] small by simp
    with checkpoint_sends [OF that(3) _ tf, of totals' iface] fold_totals_distinct [OF run'] t show ?thesis by simp
  qed
  with sent show ?thesis by blast
qed

definition demo_if :: "32 word \<Rightarrow> ifaddr list option" where
  "demo_if n =
     Some [\<lparr>ifa_name = ''en0'', ifa_family = Some 2, ifa_data = None\<rparr>,
           \<lparr>ifa_name = ''en0'', ifa_family = Some 18,
            ifa_data = Some \<lparr>ifi_ipackets = 1, ifi_ierrors = 0, ifi_opackets = 1, ifi_oerrors = 0, ifi_ibytes = n,
                             ifi_obytes = 1, ifi_iqdrops = 0\<rparr>\<rparr>]"

lemma demo_if_readings:
  "map (\<lambda>x. unat (ns_rx_bytes x))
     (readings_of (mac_reading ref_deps \<lparr>df_include = [], df_exclude = []\<rparr>) ''en0'' (if_rows [demo_if 4294967000, demo_if 704]))
   = [4294967000, 704]"
  by (simp add: if_rows_def demo_if_def read_if_stats_def map_filter_def if_stats_of_def AF_LINK_def stats_of_if_data_def
      readings_of_def mac_reading_def device_allows_def from_utf8_lossy_valid utf8_valid_ascii code_def)

theorem mac_net_counters_refine_witness:
  "\<exists>s' prev' totals'. fold (mac_net_collect ref_deps \<lparr>df_include = [], df_exclude = []\<rparr>) [demo_if 4294967000, demo_if 704]
       (\<lparr>inner = Live [], tags = []\<rparr>, [], []) = (s', prev', totals')
     \<and> counted_sum s' ''system.net.bytes_recv'' [(''interface'', ''en0'')] = 1000
     \<and> cumulated (mac_net_checkpoint totals' \<lparr>inner = Live [], tags = []\<rparr>) ''system.net.bytes_recv'' [(''interface'', ''en0'')]
         = [Fin 4294968000]"
proof -
  let ?flt = "\<lparr>df_include = [], df_exclude = []\<rparr> :: device_filter"
  let ?s = "\<lparr>inner = Live [], tags = []\<rparr> :: sink"
  obtain s' prev' totals' where
    run: "fold (mac_net_collect ref_deps ?flt) [demo_if 4294967000, demo_if 704] (?s, [], []) = (s', prev', totals')"
    by (rule prod_cases3)
  from mac_net_counters_refine [OF _ run _ refl, of "''system.net.bytes_recv''" ns_rx_bytes "''en0''" "[4294967000, 4294968000]" ?s]
    demo_if_readings run show ?thesis
    by (simp add: is_live_def net_fields_def total_fields_def counted_sum_def counted_def cumulated_def map_filter_def)
qed

section \<open>CPU percentages\<close>

text \<open>A tick in which no counter decreased sends values between 0 and 100, one after a wrap of a counter sends nothing.\<close>

definition ticks_sum :: "cpu_ticks \<Rightarrow> nat" where
  "ticks_sum t = unat (tk_user t) + unat (tk_system t) + unat (tk_idle t) + unat (tk_nice t)"

lemma unat_ticks_total: "ticks_sum t < 2 ^ 64 \<Longrightarrow> unat (ticks_total t) = ticks_sum t"
  by (simp add: ticks_total_def ticks_sum_def unat_add_fits del: power_numeral)

lemma mac_cpu_range:
  assumes "tk_user p \<le> tk_user c" "tk_system p \<le> tk_system c" "tk_idle p \<le> tk_idle c" "tk_nice p \<le> tk_nice c"
    and "ticks_sum c < 2 ^ 64" and "(name, v) \<in> set (ticks_gauges label p c)"
  shows "in_percent v"
proof -
  define dt where "dt = sat_sub (ticks_total c) (ticks_total p)"
  have le: "unat (tk_user p) \<le> unat (tk_user c)" "unat (tk_system p) \<le> unat (tk_system c)"
    "unat (tk_idle p) \<le> unat (tk_idle c)" "unat (tk_nice p) \<le> unat (tk_nice c)"
    using assms(1-4) by (simp_all add: word_le_nat_alt)
  then have sp: "ticks_sum p < 2 ^ 64" using assms(5) unfolding ticks_sum_def by linarith
  have dt: "unat dt = ticks_sum c - ticks_sum p" by (simp add: dt_def unat_sat_sub unat_ticks_total [OF assms(5)] unat_ticks_total [OF sp])
  have nz: "dt \<noteq> 0" using assms(6) by (auto simp: ticks_gauges_def dt_def)
  then have pos: "0 < unat dt" by (simp add: unat_gt_0)
  have un: "unat (tk_user c + tk_nice c) = unat (tk_user c) + unat (tk_nice c)" "unat (tk_user p + tk_nice p) = unat (tk_user p) + unat (tk_nice p)"
    using assms(5) sp by (simp_all add: ticks_sum_def unat_add_fits del: power_numeral)
  have b: "unat (tk_user c + tk_nice c) - unat (tk_user p + tk_nice p) \<le> unat dt" "unat (tk_system c) - unat (tk_system p) \<le> unat dt"
    "unat (tk_idle c) - unat (tk_idle p) \<le> unat dt"
    using le by (simp_all add: dt un ticks_sum_def)
  let ?idle = "cpu_pct dt (tk_idle c) (tk_idle p)"
  obtain rest where "ticks_gauges label p c =
      [(''system.cpu.user'', cpu_pct dt (tk_user c + tk_nice c) (tk_user p + tk_nice p)),
       (''system.cpu.system'', cpu_pct dt (tk_system c) (tk_system p)), (''system.cpu.idle'', ?idle)] @ rest"
    "rest = [] \<or> (\<exists>b. cpu_busy_percent ?idle = Some b \<and> rest = [(''system.cpu.busy_percent'', b)])"
    using nz by (cases "cpu_busy_percent ?idle") (simp_all add: ticks_gauges_def Let_def dt_def [symmetric])
  with assms(6) have "v \<in> {cpu_pct dt (tk_user c + tk_nice c) (tk_user p + tk_nice p), cpu_pct dt (tk_system c) (tk_system p), ?idle}
      \<or> cpu_busy_percent ?idle = Some v" by auto
  then show ?thesis using cpu_pct_range [OF pos] b busy_range by auto
qed

lemma mac_cpu_wrap_silent: "ticks_total c \<le> ticks_total p \<Longrightarrow> ticks_gauges label p c = []"
  by (auto simp: ticks_gauges_def sat_sub_def)

section \<open>Containers\<close>

text \<open>The mounts that could be read, with what was read.\<close>

fun space_readings :: "(string \<Rightarrow> read_answer) \<Rightarrow> mount_info list \<Rightarrow> mounts \<Rightarrow> (mount_info \<times> space_stats) list" where
  "space_readings answers [] sp = []"
| "space_readings answers (m # ms) sp =
     (case space_reader_read (answers (mo_mount_point m)) (mo_mount_point m) sp of
        (None, sp') \<Rightarrow> space_readings answers ms sp'
      | (Some st, sp') \<Rightarrow> (m, st) # space_readings answers ms sp')"

definition container :: "mount_info \<times> space_stats \<Rightarrow> f64 \<times> f64" where
  "container x = (sp_total (snd x), sp_free (snd x))"

definition emit_space :: "mount_info \<times> space_stats \<Rightarrow> sink \<Rightarrow> sink" where
  "emit_space x s = space_emit (snd x) [(''mount'', mo_mount_point (fst x)), (''device'', mo_device (fst x))] s"

lemma space_readings_mounts: "x \<in> set (space_readings answers ms sp) \<Longrightarrow> fst x \<in> set ms"
proof (induction ms arbitrary: sp)
  case (Cons m ms)
  obtain r sp1 where rd: "space_reader_read (answers (mo_mount_point m)) (mo_mount_point m) sp = (r, sp1)" by (rule prod.exhaust)
  with Cons show ?case by (cases r) auto
qed simp

lemma mac_space_one_new:
  "space_reader_read (answers (mo_mount_point m)) (mo_mount_point m) sp = (Some st, sp1) \<Longrightarrow> container (m, st) \<notin> seen \<Longrightarrow>
     mac_space_one answers m (s, sp, seen) = (emit_space (m, st) s, sp1, insert (container (m, st)) seen)"
  by (simp add: mac_space_one_def container_def emit_space_def)

lemma mac_space_one_old:
  "space_reader_read (answers (mo_mount_point m)) (mo_mount_point m) sp = (r, sp1) \<Longrightarrow>
     (\<And>st. r = Some st \<Longrightarrow> container (m, st) \<in> seen) \<Longrightarrow> mac_space_one answers m (s, sp, seen) = (s, sp1, seen)"
  by (cases r) (simp_all add: mac_space_one_def container_def)

lemma mac_space_reports:
  assumes "fold (mac_space_one answers) ms (s, sp, seen) = (s', sp', seen')"
    and "sorted (map (\<lambda>m. length (mo_mount_point m)) ms)"
  shows "\<exists>rs. s' = fold emit_space rs s \<and> subseq rs (space_readings answers ms sp) \<and> distinct (map container rs)
    \<and> (\<forall>x \<in> set rs. container x \<notin> seen)
    \<and> (\<forall>x \<in> set (space_readings answers ms sp). container x \<in> seen \<or>
         (\<exists>y \<in> set rs. container y = container x \<and> length (mo_mount_point (fst y)) \<le> length (mo_mount_point (fst x))))"
  using assms
proof (induction ms arbitrary: s sp seen)
  case (Cons m ms)
  obtain r sp1 where rd: "space_reader_read (answers (mo_mount_point m)) (mo_mount_point m) sp = (r, sp1)" by (rule prod.exhaust)
  show ?case
  proof (cases "\<exists>st. r = Some st \<and> container (m, st) \<notin> seen")
    case True
    then obtain st where r: "r = Some st" and new: "container (m, st) \<notin> seen" by auto
    let ?x = "(m, st)"
    from Cons.prems rd r new have "fold (mac_space_one answers) ms (emit_space ?x s, sp1, insert (container ?x) seen) = (s', sp', seen')"
      by (simp add: mac_space_one_new)
    from Cons.IH [OF this] Cons.prems(2) obtain rs where
      rs: "s' = fold emit_space rs (emit_space ?x s)" "subseq rs (space_readings answers ms sp1)" "distinct (map container rs)"
      "\<forall>x \<in> set rs. container x \<notin> insert (container ?x) seen"
      "\<forall>x \<in> set (space_readings answers ms sp1). container x \<in> insert (container ?x) seen \<or>
         (\<exists>y \<in> set rs. container y = container x \<and> length (mo_mount_point (fst y)) \<le> length (mo_mount_point (fst x)))"
      by auto
    have short: "length (mo_mount_point m) \<le> length (mo_mount_point (fst x))" if "x \<in> set (space_readings answers ms sp1)" for x
      using space_readings_mounts [OF that] Cons.prems(2) by auto
    show ?thesis
    proof (intro exI [of _ "?x # rs"] conjI)
      show "\<forall>x \<in> set (space_readings answers (m # ms) sp). container x \<in> seen \<or>
         (\<exists>y \<in> set (?x # rs). container y = container x \<and> length (mo_mount_point (fst y)) \<le> length (mo_mount_point (fst x)))"
        using rs(5) short rd r by fastforce
    qed (use rs new rd r in auto)
  next
    case False
    with Cons.prems rd have "fold (mac_space_one answers) ms (s, sp1, seen) = (s', sp', seen')"
      using mac_space_one_old [where answers = answers and m = m, OF rd, of seen s] by auto
    from Cons.IH [OF this] Cons.prems(2) obtain rs where
      rs: "s' = fold emit_space rs s" "subseq rs (space_readings answers ms sp1)" "distinct (map container rs)"
      "\<forall>x \<in> set rs. container x \<notin> seen"
      "\<forall>x \<in> set (space_readings answers ms sp1). container x \<in> seen \<or>
         (\<exists>y \<in> set rs. container y = container x \<and> length (mo_mount_point (fst y)) \<le> length (mo_mount_point (fst x)))"
      by auto
    with False rd show ?thesis
      by (cases r) (auto intro!: exI [of _ rs])
  qed
qed (auto intro!: exI [of _ "[]"])

text \<open>
  The space of a container is reported once. Whatever the mounts are, what a collection sends is
  the space of some of the mounts that could be read, no two with the same total and free bytes;
  every mount that could be read is reported or shares these with a reported one whose path is
  no longer.
\<close>

theorem mac_disk_reports_once:
  assumes "mac_collect_disk_space answers (discover_mounts d flt fs_types stats) (s, sp) = (s', sp')"
    and "readings = space_readings answers (discover_mounts d flt fs_types stats) sp"
  shows "\<exists>rs. s' = fold emit_space rs s \<and> subseq rs readings \<and> distinct (map container rs)
    \<and> (\<forall>x \<in> set readings. \<exists>y \<in> set rs. container y = container x
         \<and> length (mo_mount_point (fst y)) \<le> length (mo_mount_point (fst x)))"
proof -
  obtain seen where "fold (mac_space_one answers) (discover_mounts d flt fs_types stats) (s, sp, {}) = (s', sp', seen)"
    using assms(1) by (auto simp: mac_collect_disk_space_def split: prod.splits)
  from mac_space_reports [OF this] show ?thesis by (auto simp: discover_mounts_def assms(2))
qed

text \<open>
  A counter that starts again from zero, as that of an interface which is attached anew, is taken for
  one that wrapped: all that was missing to \<open>2 ^ 32\<close> is sent as traffic.
\<close>

theorem mac_reset_counts_as_wrap:
  assumes "cur < prev" and "unat prev < 2 ^ 32"
  shows "unat (delta32 cur prev) = unat cur + (2 ^ 32 - unat prev)"
proof -
  have "unat cur < unat prev" using assms(1) by (simp add: word_less_nat_alt)
  with assms(2) delta32_exact [of cur "unat cur + 2 ^ 32" prev "unat prev"] show ?thesis by simp
qed

end
