(* ===== verification/Dry_Run.thy ===== *)
theory Dry_Run
  imports Agent Tailer Unified Eventlog
begin

text \<open>
  \<open>witness --dry-run\<close> (\<open>dry_run\<close> of \<open>src/main.rs\<close>), and before it the log sources as the tasks that
  a run or a dry run starts: a task works on the file with its position and on a sink. What the dry
  run prints is its report.
\<close>

section \<open>The sources as tasks\<close>

text \<open>\<open>tail_files\<close> over a sequence of polls, rescans and saves, up to the shutdown.\<close>

datatype tail_event =
  Tail_Poll "nat \<Rightarrow> nat" "file_id \<Rightarrow> world" "file_id \<Rightarrow> nat \<times> nat" nat save_io
| Tail_Glob "path \<Rightarrow> world" "string \<Rightarrow> path list option" "path \<Rightarrow> bool"
| Tail_Save save_io nat

fun tail_event_step ::
    "deps \<Rightarrow> string list \<Rightarrow> file_parse_opts \<Rightarrow> multiline_opts option \<Rightarrow> tail_event \<Rightarrow> tail_state \<Rightarrow> tail_state" where
  "tail_event_step d pats opts ml (Tail_Poll clock ws clk now io) st = on_poll d opts ml clock ws clk now io st"
| "tail_event_step d pats opts ml (Tail_Glob w expand is_file) st = on_glob w (resolve_globs expand is_file pats) st"
| "tail_event_step d pats opts ml (Tail_Save io now) st = on_save io now st"

record files_run =
  fr_world :: "path \<Rightarrow> world"
  fr_expand :: "string \<Rightarrow> path list option"
  fr_is_file :: "path \<Rightarrow> bool"
  fr_start :: nat
  fr_events :: "tail_event list"
  fr_clock :: "nat \<Rightarrow> nat"
  fr_worlds :: "file_id \<Rightarrow> world"
  fr_io :: save_io

definition tail_files ::
    "deps \<Rightarrow> string list \<Rightarrow> file_parse_opts \<Rightarrow> multiline_opts option \<Rightarrow> files_run \<Rightarrow> disk \<times> sink \<Rightarrow> disk \<times> sink" where
  "tail_files d pats opts ml r st =
     (case st of (disk, s) \<Rightarrow>
      let st0 = tail_init (fr_world r) (resolve_globs (fr_expand r) (fr_is_file r) pats) disk s (fr_start r);
          st1 = fold (tail_event_step d pats opts ml) (fr_events r) st0;
          st2 = on_cancel d opts ml (fr_clock r) (fr_worlds r) (fr_io r) st1
      in (ts_disk st2, ts_sink st2))"

text \<open>The files that hold the positions: cursor, checkpoint, bookmark of each channel, offsets.\<close>

record positions =
  pos_journal :: disk
  pos_unified :: disk
  pos_channel :: "string \<Rightarrow> disk"
  pos_offsets :: disk

text \<open>What a task meets while it runs.\<close>

datatype task_run =
  Meets_Journal "journal_attempt list"
| Meets_Unified "unified_attempt list"
| Meets_Channels "string \<Rightarrow> pump_attempt list"
| Meets_Files files_run

definition run_pump :: "deps \<Rightarrow> (string \<Rightarrow> pump_attempt list) \<Rightarrow> string \<times> string \<times> event_filter \<Rightarrow> sink \<times> positions \<Rightarrow> sink \<times> positions" where
  "run_pump d attempts pump st =
     (case pump of (ch, q, flt) \<Rightarrow> case st of (s, p) \<Rightarrow>
      case run_channel d flt (attempts ch) 1000 (pos_channel p ch, s) of
        (delays, disk, s') \<Rightarrow> (s', p\<lparr>pos_channel := (pos_channel p)(ch := disk)\<rparr>))"

definition run_tail_task :: "deps \<Rightarrow> tail_task \<Rightarrow> task_run \<Rightarrow> sink \<times> positions \<Rightarrow> sink \<times> positions" where
  "run_tail_task d task r st =
     (case st of (s, p) \<Rightarrow>
      case (task, r) of
        (Tail_Journal flt, Meets_Journal as) \<Rightarrow>
          (case tail_journal d flt as (pos_journal p, s) of (x, delays, disk, s') \<Rightarrow> (s', p\<lparr>pos_journal := disk\<rparr>))
      | (Tail_Unified predicate, Meets_Unified as) \<Rightarrow>
          (case tail_unified_log d as (pos_unified p, s) of (x, delays, disk, s') \<Rightarrow> (s', p\<lparr>pos_unified := disk\<rparr>))
      | (Tail_EventLog channels query event_ids exclude, Meets_Channels attempts) \<Rightarrow>
          fold (run_pump d attempts) (eventlog_pumps query event_ids exclude channels) (s, p)
      | (Tail_Files pats opts ml, Meets_Files fr) \<Rightarrow>
          (case tail_files d pats opts ml fr (pos_offsets p, s) of (disk, s') \<Rightarrow> (s', p\<lparr>pos_offsets := disk\<rparr>))
      | _ \<Rightarrow> (s, p))"

section \<open>The report\<close>

definition collector_name :: "collector \<Rightarrow> string" where
  "collector_name c =
     (case c of
        Load_Collector \<Rightarrow> ''load'' | Memory_Collector \<Rightarrow> ''memory'' | Cpu_Collector _ \<Rightarrow> ''cpu'' | Disk_Collector _ \<Rightarrow> ''disk''
      | Network_Collector _ _ \<Rightarrow> ''network'' | Tcp_Collector \<Rightarrow> ''tcp'' | Cgroup_Collector _ \<Rightarrow> ''cgroups''
      | Container_Collector _ \<Rightarrow> ''container'' | Process_Collector _ \<Rightarrow> ''process''
      | Mac_Load_Collector \<Rightarrow> ''load'' | Mac_Memory_Collector \<Rightarrow> ''memory'' | Mac_Cpu_Collector _ \<Rightarrow> ''cpu''
      | Mac_Disk_Collector _ \<Rightarrow> ''disk'' | Mac_Network_Collector _ _ _ \<Rightarrow> ''network'')"

datatype metrics_section = Metrics_Disabled | Metrics_Windows | Metrics_Unavailable | Metrics_Collected "string list"

definition platform_supported :: "target_os \<Rightarrow> bool" where
  "platform_supported os \<longleftrightarrow> os \<in> {Os_Linux, Os_MacOS}"

definition metrics_section_of :: "target_os \<Rightarrow> collector list \<Rightarrow> metrics_section" where
  "metrics_section_of os cs =
     (if cs = [] then
        (if platform_supported os then Metrics_Disabled else if os = Os_Windows then Metrics_Windows else Metrics_Unavailable)
      else Metrics_Collected (map collector_name cs))"

text \<open>The server, the interval and whether the warning about a plain URL is printed.\<close>

datatype remote_section = Remote_Enabled string nat bool | Remote_Disabled

definition remote_section_of :: "agent_config \<Rightarrow> remote_section" where
  "remote_section_of cfg =
     (case ac_server cfg of
        Some server \<Rightarrow>
          if ac_config_poll_interval cfg \<noteq> 0
          then Remote_Enabled server (ac_config_poll_interval cfg) (\<not> starts_with server ''https://'')
          else Remote_Disabled
      | None \<Rightarrow> Remote_Disabled)"

text \<open>A file by its age in seconds: no metadata, no age, or an age.\<close>

datatype file_status = File_Error | File_Tailing | File_Skipped nat

definition file_status_of :: "nat option option \<Rightarrow> file_status" where
  "file_status_of age =
     (case age of
        None \<Rightarrow> File_Error
      | Some None \<Rightarrow> File_Tailing
      | Some (Some secs) \<Rightarrow> if 86400 < secs then File_Skipped (secs div 86400) else File_Tailing)"

datatype logs_section =
  Logs_Error string
| Logs_None
| Logs_Source tail_task
| Logs_Files tail_task "(string \<times> (path \<times> file_status) list) list"

definition logs_section_of ::
    "deps \<Rightarrow> target_os \<Rightarrow> host_tools \<Rightarrow> (string \<Rightarrow> path list) \<Rightarrow> (path \<Rightarrow> nat option option) \<Rightarrow> agent_config \<Rightarrow> logs_section" where
  "logs_section_of d os tools matches age cfg =
     (case resolve_log_source os tools (ac_log_source cfg) of
        Inl msg \<Rightarrow> Logs_Error msg
      | Inr r \<Rightarrow>
          (case tail_task_of d cfg r of
             None \<Rightarrow> Logs_None
           | Some task \<Rightarrow>
               (case r of
                  Resolved_Files \<Rightarrow>
                    Logs_Files task (map (\<lambda>pat. (pat, map (\<lambda>p. (p, file_status_of (age p))) (matches pat))) (ac_logs cfg))
                | _ \<Rightarrow> Logs_Source task)))"

section \<open>The dry run\<close>

text \<open>Two ticks, the first into a sink that discards; absent when a collector panics.\<close>

definition dry_run_metrics :: "deps \<Rightarrow> tick_env \<Rightarrow> tick_env \<Rightarrow> collector list \<Rightarrow> sink \<Rightarrow> sink option" where
  "dry_run_metrics d env1 env2 cs s =
     (if cs = [] then Some s
      else (case collect_all d env1 False cs sink_discard of
              (_, None) \<Rightarrow> None
            | (_, Some cs1) \<Rightarrow>
                (case collect_all d env2 False cs1 s of (_, None) \<Rightarrow> None | (s', Some cs2) \<Rightarrow> Some s')))"

definition dry_run_logs :: "deps \<Rightarrow> logs_section \<Rightarrow> task_run \<Rightarrow> sink \<times> positions \<Rightarrow> sink \<times> positions" where
  "dry_run_logs d logs r st =
     (case logs of
        Logs_Source task \<Rightarrow> run_tail_task d task r st
      | Logs_Files task _ \<Rightarrow> run_tail_task d task r st
      | _ \<Rightarrow> st)"

record dry_env =
  de_file :: "string option"
  de_tools :: host_tools
  de_interned :: "string list"
  de_cgroup :: "string option"
  de_page_size :: u64
  de_clk_tck :: int
  de_tick1 :: tick_env
  de_tick2 :: tick_env
  de_matches :: "string \<Rightarrow> path list"
  de_age :: "path \<Rightarrow> nat option option"
  de_task :: task_run

record dry_report =
  rp_metrics :: metrics_section
  rp_remote :: remote_section
  rp_logs :: logs_section
  rp_sink :: sink

definition dry_count :: "sink \<Rightarrow> nat" where
  "dry_count s = (case inner s of DryRun n \<Rightarrow> n | _ \<Rightarrow> 0)"

text \<open>The result is an exit status, or the report with the positions as they are left.\<close>

definition dry_run :: "deps \<Rightarrow> target_os \<Rightarrow> dry_env \<Rightarrow> positions \<Rightarrow> (nat + dry_report \<times> positions) rust" where
  "dry_run d os env p =
     (case load_config d os (de_file env) of
        Inl e \<Rightarrow> Returns (Inl 1)
      | Inr cfg \<Rightarrow>
          (let s0 = sink_dry_run 0 (ac_tags cfg) (de_interned env);
               cs = platform_collectors d os (de_cgroup env) (de_page_size env) (de_clk_tck env) (ac_system cfg);
               logs = logs_section_of d os (de_tools env) (de_matches env) (de_age env) cfg
           in case dry_run_metrics d (de_tick1 env) (de_tick2 env) cs s0 of
                None \<Rightarrow> Panics
              | Some s1 \<Rightarrow>
                  (case dry_run_logs d logs (de_task env) (s1, p) of
                     (s2, p') \<Rightarrow>
                       Returns (Inr (\<lparr>rp_metrics = metrics_section_of os cs, rp_remote = remote_section_of cfg,
                                      rp_logs = logs, rp_sink = s2\<rparr>, p')))))"

end
