(* ===== verification/Sink_Users.thy ===== *)
theory Sink_Users
  imports Collectors
begin

text \<open>
  The sink as its clients see it. The locale \<open>metric_invariant\<close> takes any property of a sink that the
  emission of a metric (\<open>src/sink.rs\<close>) keeps; it is then kept by every collector. The locale
  \<open>sink_invariant\<close> adds the attempt to send a log entry; the log sources follow in \<open>Sink_Sources\<close>.
\<close>

definition metric_calls :: "(string \<Rightarrow> f64 \<Rightarrow> labels \<Rightarrow> tell_call) set" where
  "metric_calls =
     {Tell_gauge, Tell_gauge_dyn, Tell_counter, Tell_counter_dyn} \<union> range (\<lambda>t n v l. Tell_counter_dyn_with_temporality n v l t)"

locale metric_invariant =
  fixes I :: "sink \<Rightarrow> bool"
  assumes emit: "I s \<Longrightarrow> call \<in> metric_calls \<Longrightarrow> I (emit_metric call kind s name v ls)"

locale sink_invariant = metric_invariant +
  fixes d :: deps
  assumes send: "I s \<Longrightarrow> I (snd (try_log_with_service d s e))"

section \<open>Folds\<close>

lemma fold_keeps: "P st \<Longrightarrow> (\<And>x st. P st \<Longrightarrow> P (f x st)) \<Longrightarrow> P (fold f xs st)"
  by (induction xs arbitrary: st) simp_all

lemma fold_keeps_fst:
  "P (fst st) \<Longrightarrow> (\<And>x s p. P s \<Longrightarrow> P (fst (f x (s, p)))) \<Longrightarrow> P (fst (fold f xs st))"
  by (rule fold_keeps [where P = "\<lambda>st. P (fst st)"]) (auto simp: split_paired_all)

named_theorems keeps \<open>operations that keep an invariant of the sink\<close>

context metric_invariant
begin

section \<open>Single metrics\<close>

lemma emits [keeps]:
  "I s \<Longrightarrow> I (gauge s name v ls)" "I s \<Longrightarrow> I (gauge_dyn s name v ls)" "I s \<Longrightarrow> I (counter s name v ls)"
  "I s \<Longrightarrow> I (counter_dyn s name v ls)" "I s \<Longrightarrow> I (counter_dyn_with_temporality s name v ls t)"
  by (simp_all add: gauge_def gauge_dyn_def counter_def counter_dyn_def counter_dyn_with_temporality_def emit metric_calls_def)

lemma opt_gauge_inv [keeps]: "I s \<Longrightarrow> I (opt_gauge name v s)"
  by (simp add: opt_gauge_def keeps split: option.split)

lemma opt_gauge_of_inv [keeps]: "I s \<Longrightarrow> I (opt_gauge_of name buf parse s)"
  by (simp add: opt_gauge_of_def keeps split: option.split)

lemma lists_keep [keeps]:
  "I s \<Longrightarrow> I (emit_gauges_dyn ls gs s)" "I s \<Longrightarrow> I (emit_counters_dyn ls gs s)" "I s \<Longrightarrow> I (emit_cumulative ls gs s)"
  "I s \<Longrightarrow> I (counters gs s)" "I s \<Longrightarrow> I (fold (\<lambda>(n, v) s. gauge s n v ls) gs s)"
  by (auto simp: emit_gauges_dyn_def emit_counters_dyn_def emit_cumulative_def counters_def keeps
      intro!: fold_keeps [where P = I])

section \<open>Linux collectors\<close>

lemma cpu_line_inv: "I s \<Longrightarrow> I (fst (cpu_line line (s, r)))"
  by (cases r) (auto simp: emit_deltas_def keeps Let_def split: list.split option.split)

lemma cpu_collect_inv: "I s \<Longrightarrow> I (fst (cpu_collect fs s prev))"
proof (cases "read_procfs fs ''/proc/stat''")
  case (Some buf)
  assume "I s"
  then have "I (fst (fold cpu_line (str_lines buf) (s, prev, 0, False)))" by (intro fold_keeps_fst [where P = I]) (simp_all add: cpu_line_inv)
  with Some show ?thesis by (auto simp: cpu_collect_def keeps split: prod.split)
qed (simp add: cpu_collect_def)

lemma gauge_collectors_keep:
  "I s \<Longrightarrow> I (mem_collect fs s)" "I s \<Longrightarrow> I (load_collect fs s)" "I s \<Longrightarrow> I (tcp_collect fs s)"
  by (auto simp: mem_collect_def mem_emit_def load_collect_def tcp_collect_def tcp_emit_def Let_def keeps
      intro!: fold_keeps [where P = I] split: option.split)

lemma disk_space_one_inv: "I s \<Longrightarrow> I (fst (disk_space_one answers m (s, sp)))"
  by (auto simp: disk_space_one_def space_emit_def keeps split: prod.split option.split)

lemma diskstats_line_inv: "I s \<Longrightarrow> I (fst (diskstats_line d' flt line (s, prev)))"
  by (auto simp: diskstats_line_def keeps split: option.split prod.split)

lemma disk_collect_inv: "I s \<Longrightarrow> I (fst (disk_collect d' fs answers (s, c)))"
proof -
  assume s: "I s"
  have io: "I (fst (collect_diskstats d' flt buf (s, prev)))" for flt buf prev
    unfolding collect_diskstats_def by (rule fold_keeps_fst [where P = I]) (simp_all add: s diskstats_line_inv)
  have space: "I (fst (collect_disk_space answers ms (s1, sp)))" if "I s1" for ms s1 sp
    unfolding collect_disk_space_def by (rule fold_keeps_fst [where P = I]) (simp_all add: that disk_space_one_inv)
  obtain s1 prev where 1: "(case read_procfs fs ''/proc/diskstats'' of
      Some buf \<Rightarrow> collect_diskstats d' (dc_filter c) buf (s, dc_prev c) | None \<Rightarrow> (s, dc_prev c)) = (s1, prev)" by (rule prod.exhaust)
  then have "I s1" using s io by (auto split: option.splits) (metis fst_conv)
  from space [OF this] 1 show ?thesis
    by (simp add: disk_collect_def Let_def split: prod.split)
      (metis fst_conv)
qed

lemma net_line_inv: "I s \<Longrightarrow> I (fst (net_line d' flt line (s, prev)))"
  by (auto simp: net_line_def Let_def keeps split: option.split prod.split)

lemma net_collect_inv: "I s \<Longrightarrow> I (fst (net_collect d' flt fs (s, prev)))"
  unfolding net_collect_def
  by (auto intro!: fold_keeps_fst [where P = I] simp: net_line_inv split: option.split)

lemma checkpoints_keep [keeps]: "I s \<Longrightarrow> I (disk_checkpoint prev s)" "I s \<Longrightarrow> I (net_checkpoint nprev s)" "I s \<Longrightarrow> I (mac_net_checkpoint nprev s)"
  by (auto simp: disk_checkpoint_def net_checkpoint_def mac_net_checkpoint_def keeps intro!: fold_keeps [where P = I])

lemma cgroup_collect_inv: "I s \<Longrightarrow> I (fst (cgroup_collect fs (s, c)))"
  by (auto simp: cgroup_collect_def Let_def keeps split: option.split)

lemma container_one_inv: "I s \<Longrightarrow> I (fst (container_one fs c (s, prev)))"
  by (auto simp: container_one_def collect_cpu_def collect_memory_def Let_def keeps split: option.split)

lemma container_collect_inv: "I s \<Longrightarrow> I (fst (container_collect fs discovered (s, c)))"
proof -
  assume "I s"
  then have "I (fst (fold (container_one fs) cs (s, cc_prev c)))" for cs
    by (intro fold_keeps_fst [where P = I]) (simp_all add: container_one_inv)
  then show ?thesis by (simp add: container_collect_def Let_def split_beta)
qed

lemma top_gauges_keep [keeps]: "I s \<Longrightarrow> I (top_gauges key name val n snaps s)"
  by (auto simp: top_gauges_def keeps intro!: fold_keeps [where P = I])

lemma process_collect_inv: "I s \<Longrightarrow> process_collect fs ns now now2 f g (s, c) = Some (s', c') \<Longrightarrow> I s'"
  by (auto simp: process_collect_def Let_def keeps split: option.splits if_splits)

section \<open>macOS collectors\<close>

lemma emit_cpu_inv: "I s \<Longrightarrow> I (fst (emit_cpu label cur (s, prev)))"
  by (auto simp: emit_cpu_def keeps split: option.split)

lemma mac_cpu_collect_inv: "I s \<Longrightarrow> I (fst (mac_cpu_collect r (s, prev)))"
proof (cases "read_cpu_ticks r")
  case (Some per_cpu)
  assume s: "I s"
  have rest: "I (fst (fold (\<lambda>(i, t). emit_cpu (show_nat i) t) xs (s2, p2)))" if "I s2" for xs s2 p2
    by (rule fold_keeps_fst [where P = I]) (auto simp: that emit_cpu_inv)
  obtain s1 p1 where e: "emit_cpu ''total'' (sum_ticks per_cpu) (s, prev) = (s1, p1)" by (rule prod.exhaust)
  with emit_cpu_inv [OF s] have "I s1" by (metis fst_conv)
  with rest Some e show ?thesis by (simp add: mac_cpu_collect_def Let_def keeps)
qed (simp add: mac_cpu_collect_def)

lemma mac_gauge_collectors_keep:
  "I s \<Longrightarrow> I (mac_load_collect ret loads n s)" "I s \<Longrightarrow> I (mac_mem_collect r s)"
  by (auto simp: mac_load_collect_def mac_mem_collect_def Let_def keeps split: option.split prod.split)

lemma mac_space_one_inv: "I s \<Longrightarrow> I (fst (mac_space_one answers m (s, p)))"
  by (cases p) (auto simp: mac_space_one_def space_emit_def keeps split: prod.split option.split)

lemma mac_disk_collect_inv: "I s \<Longrightarrow> I (fst (mac_disk_collect d' stats answers (s, c)))"
proof -
  assume "I s"
  then have "I (fst (fold (mac_space_one answers) ms (s, sp, {})))" for ms sp
    by (intro fold_keeps_fst [where P = I]) (simp_all add: mac_space_one_inv)
  then show ?thesis by (simp add: mac_disk_collect_def mac_collect_disk_space_def Let_def split_beta)
qed

lemma mac_net_one_inv: "I s \<Longrightarrow> I (fst (mac_net_one d' flt x (s, p)))"
  by (cases p) (auto simp: mac_net_one_def Let_def keeps split: prod.split option.split)

lemma mac_net_collect_inv: "I s \<Longrightarrow> I (fst (mac_net_collect d' flt r (s, p)))"
  unfolding mac_net_collect_def
  by (auto intro!: fold_keeps_fst [where P = I] simp: mac_net_one_inv split: option.split)

section \<open>Any collector\<close>

lemmas collect_inv =
  cpu_collect_inv gauge_collectors_keep disk_collect_inv net_collect_inv cgroup_collect_inv container_collect_inv
  mac_cpu_collect_inv mac_gauge_collectors_keep mac_disk_collect_inv mac_net_collect_inv

lemma collector_inv: "I s \<Longrightarrow> collector_collect d' env s c = Some (s', c') \<Longrightarrow> I s'"
  by (cases c)
    (auto simp: collector_collect_def map_prod_def split_beta intro: collect_inv process_collect_inv)

lemma collector_checkpoint_inv: "I s \<Longrightarrow> I (collector_checkpoint s c)"
  by (cases c) (simp_all add: collector_checkpoint_def keeps)

end

end
