(* ===== verification/Sink_Sources.thy ===== *)
theory Sink_Sources
  imports Sink_Users Tailer Unified Eventlog
begin

text \<open>
  The four log sources keep every invariant of the sink that its operations keep: the file tailer with
  and without multi-line records, journald, the unified log and the Event Log.
\<close>

context sink_invariant
begin

lemma sendD: "try_log_with_service d s e = (ok, s') \<Longrightarrow> I s \<Longrightarrow> I s'"
  by (metis send snd_conv)

lemma sink_log_inv: "I s \<Longrightarrow> I (sink_log d s l m c p)"
  by (simp add: sink_log_def try_log_def send)

section \<open>Files\<close>

lemma try_emit_line_inv: "try_emit_line d opts b p s = (ok, p', s') \<Longrightarrow> I s \<Longrightarrow> I s'"
  by (auto simp: try_emit_line_def Let_def dest: sendD split: if_splits prod.splits bool.splits)

lemma flush_partial_inv: "flush_partial d t s = (t', s') \<Longrightarrow> I s \<Longrightarrow> I s'"
  by (auto simp: flush_partial_def Let_def sink_log_inv split: if_splits)

lemma tail_loop_inv: "tail_loop d opts r t s b l = (x, t', s', b') \<Longrightarrow> I s \<Longrightarrow> I s'"
proof (induction r arbitrary: t s b l rule: measure_induct_rule [of reader_size])
  case (less r)
  obtain res buf r' where rd: "read_line d r [] 0 = (res, buf, r')" by (rule prod_cases3)
  show ?case
  proof (cases "\<exists>n. res = Inr n \<and> n \<noteq> 0")
    case True
    then obtain n where n: "res = Inr n" "n \<noteq> 0" by blast
    then have "reader_size r' < reader_size r" using read_line_progress [OF rd [unfolded n(1)]] by simp
    note IH = less.IH [OF this]
    obtain ok p s1 where e: "try_emit_line d opts (butlast buf) (partial t) s = (ok, p, s1)" by (rule prod_cases3)
    note s1 = try_emit_line_inv [OF e less.prems(2)]
    show ?thesis
      using less.prems rd n e s1 by (auto simp: tail_loop.simps [of d opts r] Let_def split: if_splits bool.splits intro: IH)
  next
    case False
    with less.prems rd show ?thesis by (cases res) (auto simp: tail_loop.simps [of d opts r])
  qed
qed

lemma read_lines_inv: "read_lines d opts r t s = (t', s', n) \<Longrightarrow> I s \<Longrightarrow> I s'"
  by (auto simp: read_lines_def dest: tail_loop_inv split: option.splits prod.splits)

lemma drain_retained_inv: "drain_retained d w opts t s = (t', s', n) \<Longrightarrow> I s \<Longrightarrow> I s'"
  by (auto simp: drain_retained_def Let_def dest: tail_loop_inv flush_partial_inv split: option.splits prod.splits if_splits)

section \<open>Multi-line records\<close>

lemma ship_inv: "ship d opts t s = (ok, t', s') \<Longrightarrow> I s \<Longrightarrow> I s'"
  by (auto simp: ship_def dest: sendD split: option.splits if_splits prod.splits bool.splits)

lemma commit_line_inv: "commit_line d opts ml now t b n s = (c, t', s') \<Longrightarrow> I s \<Longrightarrow> I s'"
proof -
  assume c: "commit_line d opts ml now t b n s = (c, t', s')" and s: "I s"
  let ?ship = "is_start d ml (partial t @ lossy d b) \<and> (case agg t of None \<Rightarrow> False | Some a \<Rightarrow> has_record a)"
  obtain ok t1 s1 where 1: "(if ?ship then ship d opts t s else (True, t, s)) = (ok, t1, s1)" by (rule prod_cases3)
  then have "I s1" using s by (auto dest: ship_inv split: if_splits)
  with c 1 show ?thesis by (auto simp: commit_line_def Let_def split: if_splits option.splits)
qed

lemma read_loop_inv: "read_loop d opts ml clock r t s c l = (x, t', s') \<Longrightarrow> I s \<Longrightarrow> I s'"
proof (induction r arbitrary: t s c l rule: measure_induct_rule [of reader_size])
  case (less r)
  obtain res buf r' where rd: "read_line d r [] 0 = (res, buf, r')" by (rule prod_cases3)
  show ?case
  proof (cases "\<exists>n. res = Inr n \<and> n \<noteq> 0")
    case True
    then obtain n where n: "res = Inr n" "n \<noteq> 0" by blast
    then have "reader_size r' < reader_size r" using read_line_progress [OF rd [unfolded n(1)]] by simp
    note IH = less.IH [OF this]
    obtain co t1 s1 where e: "commit_line d opts ml (clock l) t (butlast buf) n s = (co, t1, s1)" by (rule prod_cases3)
    note s1 = commit_line_inv [OF e less.prems(2)]
    show ?thesis
      using less.prems rd n e s1
      by (auto simp: read_loop.simps [of d opts ml clock r] split: if_splits commit.splits option.splits intro: IH)
  next
    case False
    with less.prems rd show ?thesis by (cases res) (auto simp: read_loop.simps [of d opts ml clock r])
  qed
qed

lemma read_live_inv: "read_live d opts ml clock op t s = (t', s', n) \<Longrightarrow> I s \<Longrightarrow> I s'"
  by (auto simp: read_live_def Let_def dest: read_loop_inv split: option.splits prod.splits)

lemma drain_inv: "drain d w opts ml clock t s = (t', s', n) \<Longrightarrow> I s \<Longrightarrow> I s'"
  by (auto simp: drain_def Let_def dest: read_loop_inv ship_inv split: option.splits prod.splits stop_reason.splits)

lemma flush_final_inv: "flush_final d opts ml t s = (t', s') \<Longrightarrow> I s \<Longrightarrow> I s'"
  by (auto simp: flush_final_def dest: ship_inv split: prod.splits)

lemma flush_if_expired_inv: "flush_if_expired d opts ml n1 n2 t s = (r, t', s') \<Longrightarrow> I s \<Longrightarrow> I s'"
  by (auto simp: flush_if_expired_def Let_def dest: ship_inv split: option.splits prod.splits if_splits)

section \<open>The tail loop\<close>

lemma read_current_inv: "read_current d w opts ml clock f len t s = (r, t', s') \<Longrightarrow> I s \<Longrightarrow> I s'"
proof -
  assume c: "read_current d w opts ml clock f len t s = (r, t', s')" and s: "I s"
  obtain t1 s1 where 1: "(if len < pos t then (let t0 = t\<lparr>pos := 0\<rparr> in
      case ml of Some _ \<Rightarrow> (reset t0, s) | None \<Rightarrow> flush_partial d t0 s) else (t, s)) = (t1, s1)" by (rule prod.exhaust)
  then have "I s1" using s by (auto simp: Let_def dest: flush_partial_inv split: if_splits option.splits)
  with c 1 show ?thesis
    by (cases ml) (auto simp: read_current_def Let_def dest: read_live_inv read_lines_inv split: if_splits prod.splits)
qed

lemma check_and_read_inv: "check_and_read d w opts ml clock t s = (r, t', s') \<Longrightarrow> I s \<Longrightarrow> I s'"
  by (auto simp: check_and_read_def Let_def dest: flush_partial_inv read_current_inv
      split: option.splits if_splits prod.splits)

lemma poll_one_inv: "poll_one d opts ml clock w i (tr, s, n) = (tr', s', n') \<Longrightarrow> I s \<Longrightarrow> I s'"
proof (cases "map_of (tr_files tr) i")
  case (Some t)
  assume p: "poll_one d opts ml clock w i (tr, s, n) = (tr', s', n')" and s: "I s"
  obtain t1 s1 m where 1: "(case ml of Some m \<Rightarrow> drain d w opts m clock t s | None \<Rightarrow> drain_retained d w opts t s) = (t1, s1, m)"
    by (rule prod_cases3)
  then have s1: "I s1" using s by (auto dest: drain_inv drain_retained_inv split: option.splits)
  obtain r t2 s2 where 2: "check_and_read d w opts ml clock t s = (r, t2, s2)" by (rule prod_cases3)
  note s2 = check_and_read_inv [OF 2 s]
  have "s' \<in> {s, s1, s2}"
    using p Some 1 2 by (cases r) (auto simp: poll_one_def Let_def split: if_splits)
  with s s1 s2 show ?thesis by auto
qed (simp add: poll_one_def)

lemma poll_one_keeps_st: "I (fst (snd st)) \<Longrightarrow> I (fst (snd (poll_one d opts ml clock w i st)))"
  by (metis poll_one_inv prod.collapse)

lemma poll_all_inv: "poll_all d opts ml clock ws tr s = (tr', s', n) \<Longrightarrow> I s \<Longrightarrow> I s'"
proof -
  assume p: "poll_all d opts ml clock ws tr s = (tr', s', n)" and s: "I s"
  have "I (fst (snd (fold (\<lambda>i. poll_one d opts ml clock (ws i) i) is (tr, s, 0))))" for "is"
    by (rule fold_keeps [where P = "\<lambda>st. I (fst (snd st))"]) (simp_all add: s poll_one_keeps_st)
  from this [of "map fst (tr_files tr)"] p show ?thesis by (simp add: poll_all_def)
qed

lemma flush_expired_list_inv: "flush_expired_list d opts m clk fs s nr = (fs', s', nr') \<Longrightarrow> I s \<Longrightarrow> I s'"
  by (induction fs arbitrary: s nr fs' nr') (auto simp: Let_def dest!: flush_if_expired_inv split: prod.splits)

lemma flush_files_inv: "flush_files d opts ml fs s = (fs', s') \<Longrightarrow> I s \<Longrightarrow> I s'"
  by (induction fs arbitrary: s fs')
    (auto dest!: flush_final_inv flush_partial_inv split: prod.splits option.splits)

lemma on_poll_inv: "I (ts_sink st) \<Longrightarrow> I (ts_sink (on_poll d opts ml clock ws clk now io st))"
proof -
  assume s: "I (ts_sink st)"
  obtain tr s1 n where 1: "poll_all d opts ml clock ws (ts_tracked st) (ts_sink st) = (tr, s1, n)" by (rule prod_cases3)
  obtain fs s2 p where 2: "flush_expired_records d opts ml clk (tr_files tr) s1 = (fs, s2, p)" by (rule prod_cases3)
  have "I s2" using 2 poll_all_inv [OF 1 s] by (auto simp: flush_expired_records_def dest: flush_expired_list_inv split: option.splits)
  with 1 2 show ?thesis by (simp add: on_poll_def Let_def)
qed

lemma on_cancel_inv: "I (ts_sink st) \<Longrightarrow> I (ts_sink (on_cancel d opts ml clock ws io st))"
  by (auto simp: on_cancel_def Let_def dest: poll_all_inv flush_files_inv split: prod.splits)

lemma on_glob_inv: "ts_sink (on_glob w paths st) = ts_sink st" "ts_sink (on_save io now st) = ts_sink st"
  by (simp_all add: on_glob_def on_save_def)

section \<open>journald\<close>

lemma retry_inv:
  "(\<And>s. I s \<Longrightarrow> I (snd (process s))) \<Longrightarrow> retry process ws s = Some (r, s') \<Longrightarrow> I s \<Longrightarrow> I s'"
proof (induction ws arbitrary: s)
  case Nil
  then show ?case by (auto split: outcome.splits prod.splits) (metis snd_conv)+
next
  case (Cons w ws)
  obtain oc s1 where p: "process s = (oc, s1)" by (rule prod.exhaust)
  with Cons.prems have "I s1" by (metis snd_conv)
  with Cons p show ?case by (auto split: outcome.splits if_splits)
qed

lemma journal_process_inv: "I s \<Longrightarrow> I (snd (journal_process_entry d flt line s))"
  by (auto simp: journal_process_entry_def Let_def dest: sendD split: option.splits prod.splits bool.splits)

lemma handle_entry_inv: "handle_entry d flt line ws io (rs, disk, s) = Some (ok, rs', disk', s') \<Longrightarrow> I s \<Longrightarrow> I s'"
proof -
  assume h: "handle_entry d flt line ws io (rs, disk, s) = Some (ok, rs', disk', s')" and s: "I s"
  then obtain r s1 where r: "retry (journal_process_entry d flt line) ws s = Some (r, s1)"
    by (auto simp: handle_entry_def split: option.splits)
  have "s' = s1" using h r by (auto simp: handle_entry_def Let_def split: option.splits outcome.splits if_splits)
  with retry_inv [OF journal_process_inv r s] show ?thesis by simp
qed

lemma journal_loop_inv: "journal_loop d flt es (rs, disk, s) = (x, rs', disk', s') \<Longrightarrow> I s \<Longrightarrow> I s'"
proof (induction es arbitrary: rs disk s)
  case (Cons e es)
  then show ?case
    by (cases e) (auto dest: handle_entry_inv split: if_splits option.splits prod.splits bool.splits)
qed simp

lemma tail_journal_from_inv: "tail_journal_from d flt as b (disk, s) = (x, ds, disk', s') \<Longrightarrow> I s \<Longrightarrow> I s'"
proof (induction as arbitrary: b disk s x ds)
  case (Cons a as)
  obtain y disk1 s1 where 1: "run_journalctl d flt (ja_spawned a) (ja_events a) (disk, s) = (y, disk1, s1)" by (rule prod_cases3)
  then have "I s1" using Cons.prems(2) by (auto simp: run_journalctl_def dest: journal_loop_inv split: if_splits prod.splits)
  with Cons 1 show ?case by (auto split: loop_exit.splits if_splits prod.splits)
qed simp

section \<open>Unified log\<close>

lemma unified_process_inv: "I s \<Longrightarrow> I (snd (unified_process_entry d dedupe line s))"
  by (auto simp: unified_process_entry_def Let_def dest: sendD split: option.splits prod.splits bool.splits)

lemma ship_line_inv:
  "ship_line d dedupe rec line io ws (us, disk, s, fs) = Some (x, us', disk', s', fs') \<Longrightarrow> I s \<Longrightarrow> I s'"
proof (induction ws arbitrary: us disk s fs)
  case Nil
  obtain r s1 where p: "unified_process_entry d dedupe line s = (r, s1)" by (rule prod.exhaust)
  with Nil.prems(2) have "I s1" using unified_process_inv by (metis snd_conv)
  with Nil p show ?case by (auto simp: ship_line.simps [of d dedupe rec line io "[]"] split: prod.splits record_outcome.splits)
next
  case (Cons w ws)
  obtain r s1 where p: "unified_process_entry d dedupe line s = (r, s1)" by (rule prod.exhaust)
  with Cons.prems(2) have "I s1" using unified_process_inv by (metis snd_conv)
  with Cons p show ?case
    by (auto simp: ship_line.simps [of d dedupe rec line io "w # ws"] Let_def split: prod.splits record_outcome.splits if_splits)
qed

lemma read_stream_inv: "read_stream d dedupe rec es (us, disk, s, fs) = (x, us', disk', s') \<Longrightarrow> I s \<Longrightarrow> I s'"
proof (induction es arbitrary: us disk s fs)
  case (Cons e es)
  then show ?case
    by (cases e) (auto simp del: ship_line.simps dest: ship_line_inv split: if_splits option.splits prod.splits line_outcome.splits)
qed simp

lemma run_cycle_inv: "run_cycle d cs (disk, s) = (x, disk', s') \<Longrightarrow> I s \<Longrightarrow> I s'"
proof (induction cs arbitrary: disk s x)
  case (Cons c cs)
  let ?us = "unified_state_new (load_checkpoint d disk)"
  obtain bx us1 disk1 s1 where b: "(case load_checkpoint d disk of
      Some cp \<Rightarrow> run_backfill d (uc_show c) cp (uc_backfill c) (?us, disk, s) | None \<Rightarrow> (Phase_Done, ?us, disk, s)) = (bx, us1, disk1, s1)"
    by (rule prod_cases4)
  then have s1: "I s1" using Cons.prems(2) by (auto simp: run_backfill_def dest: read_stream_inv split: option.splits if_splits)
  obtain lx us2 disk2 s2 where l: "run_live d (uc_stream c) (uc_live c) (us1, disk1, s1) = (lx, us2, disk2, s2)" by (rule prod_cases4)
  then have s2: "I s2" using s1 by (auto simp: run_live_def dest: read_stream_inv split: if_splits)
  have "(x, disk', s') \<in> {(Exit_Cancelled, disk1, s1), (Exit_Failed, disk1, s1), (Exit_Running, disk1, s1), (Exit_Cancelled, disk2, s2),
      (Exit_Failed, disk2, s2), (Exit_Running, disk2, s2), run_cycle d cs (disk2, s2)}"
    using Cons.prems(1) b l by (cases lx) (auto simp: Let_def split: if_splits)
  with s1 s2 Cons.IH [of disk2 s2 x] show ?case by (auto simp: eq_commute)
qed simp

lemma tail_unified_from_inv: "tail_unified_from d as b (disk, s) = (x, ds, disk', s') \<Longrightarrow> I s \<Longrightarrow> I s'"
proof (induction as arbitrary: b disk s x ds)
  case (Cons a as)
  obtain y disk1 s1 where 1: "run_cycle d (ut_cycles a) (disk, s) = (y, disk1, s1)" by (rule prod_cases3)
  note s1 = run_cycle_inv [OF 1 Cons.prems(2)]
  with Cons 1 show ?case by (auto split: loop_exit.splits if_splits prod.splits)
qed simp

section \<open>Event Log\<close>

lemma event_process_inv: "I s \<Longrightarrow> I (snd (event_process_entry d flt m xml s))"
  by (auto simp: event_process_entry_def Let_def dest: sendD split: option.splits prod.splits bool.splits sum.splits)

lemma ship_event_inv: "ship_event d flt ev (pu, s) = Some (x, pu', s') \<Longrightarrow> I s \<Longrightarrow> I s'"
proof (cases "ev_xml ev")
  case (Some xml)
  assume h: "ship_event d flt ev (pu, s) = Some (x, pu', s')" and s: "I s"
  with Some obtain r s1 where r: "retry (event_process_entry d flt None xml) (ev_waits ev) s = Some (r, s1)"
    by (auto simp: ship_event_def split: option.splits)
  have "s' = s1" using h r Some by (auto simp: ship_event_def split: option.splits if_splits)
  with retry_inv [OF event_process_inv r s] show ?thesis by simp
qed (simp add: ship_event_def)

lemma drain_batch_inv: "drain_batch d flt evs e (pu, s) = (x, pu', s') \<Longrightarrow> I s \<Longrightarrow> I s'"
  by (induction evs arbitrary: pu s) (auto dest: ship_event_inv split: option.splits prod.splits event_outcome.splits)

lemma pull_loop_inv: "pull_loop d flt xs (pu, s) = (x, pu', s') \<Longrightarrow> I s \<Longrightarrow> I s'"
proof (induction xs arbitrary: pu s)
  case (Cons y xs)
  then show ?case by (cases y) (auto dest: drain_batch_inv split: prod.splits batch_outcome.splits)
qed simp

lemma pump_once_inv: "pump_once d flt env (disk, s) = (x, disk', s') \<Longrightarrow> I s \<Longrightarrow> I s'"
  by (auto simp: pump_once_def dest: pull_loop_inv split: if_splits subscribe_answer.splits prod.splits)

lemma run_channel_inv: "run_channel d flt as b (disk, s) = (ds, disk', s') \<Longrightarrow> I s \<Longrightarrow> I s'"
proof (induction as arbitrary: b disk s ds)
  case (Cons a as)
  obtain y disk1 s1 where 1: "pump_once d flt (pt_pump a) (disk, s) = (y, disk1, s1)" by (rule prod_cases3)
  note s1 = pump_once_inv [OF 1 Cons.prems(2)]
  with Cons 1 show ?case by (auto simp: map_prod_def split: pump_exit.splits if_splits prod.splits)
qed simp

end

end
