(* ===== verification/Dry_Run_Props.thy ===== *)
theory Dry_Run_Props
  imports Dry_Run Sink_Sources Agent_Props Journal_Props Restart
begin

text \<open>
  What a dry run does, over every collector and log source: the sink stays one that counts, and the
  position of the log source moves. The invariants of the sink reach the whole agent through the
  locales \<open>metric_invariant\<close> and \<open>sink_invariant\<close>, interpreted here on the live sink and on the
  counting one.
\<close>

section \<open>The metric task keeps the invariants of the sink\<close>

context metric_invariant
begin

lemma collect_all_inv: "I s \<Longrightarrow> I (fst (collect_all d' env ck cs s))"
proof (induction cs arbitrary: s)
  case (Cons c cs)
  show ?case
  proof (cases "collector_collect d' env s c")
    case (Some r)
    obtain s1 c' where r: "r = (s1, c')" by (rule prod.exhaust)
    let ?s2 = "if ck then collector_checkpoint s1 c' else s1"
    have "I s1" using collector_inv [OF Cons.prems] Some r by simp
    then have "I ?s2" by (simp add: collector_checkpoint_inv)
    from Cons.IH [OF this] Some r show ?thesis by (auto simp: Let_def split: prod.splits option.splits)
  qed (simp add: Cons.prems)
qed simp

lemma dry_run_metrics_inv: "dry_run_metrics d' e1 e2 cs s = Some s' \<Longrightarrow> I s \<Longrightarrow> I s'"
  by (auto simp: dry_run_metrics_def split: if_splits prod.splits option.splits) (metis collect_all_inv fst_conv)

lemma metric_tick_inv: "I (fst st) \<Longrightarrow> I (fst (metric_tick d' fresh every env st))"
  using collect_all_inv by (auto simp: metric_tick_def Let_def split: prod.splits option.splits) (metis fst_conv)+

lemma metric_loop_inv: "metric_loop d' fresh interval envs s = Returns (s', t) \<Longrightarrow> I s \<Longrightarrow> I s'"
proof -
  assume m: "metric_loop d' fresh interval envs s = Returns (s', t)" and s: "I s"
  have "I (fst (fold (metric_tick d' fresh every) envs (s, t0)))" for every t0
    by (rule fold_keeps [where P = "\<lambda>st. I (fst st)"]) (simp_all add: s metric_tick_inv)
  with m s show ?thesis by (auto simp: metric_loop_def split: if_splits rust.splits) (metis fst_conv)
qed

end

section \<open>Tasks keep the invariants of the sink\<close>

context sink_invariant
begin

lemma tail_event_inv: "I (ts_sink st) \<Longrightarrow> I (ts_sink (tail_event_step d pats opts ml e st))"
  by (cases e) (simp_all add: on_poll_inv on_glob_inv)

lemma tail_files_inv: "tail_files d pats opts ml r (disk, s) = (disk', s') \<Longrightarrow> I s \<Longrightarrow> I s'"
proof -
  assume t: "tail_files d pats opts ml r (disk, s) = (disk', s')" and s: "I s"
  let ?st = "tail_init (fr_world r) (resolve_globs (fr_expand r) (fr_is_file r) pats) disk s (fr_start r)"
  have "I (ts_sink (fold (tail_event_step d pats opts ml) (fr_events r) ?st))"
    by (rule fold_keeps [where P = "\<lambda>st. I (ts_sink st)"]) (simp_all add: tail_event_inv tail_init_def Let_def s split: prod.split)
  with t show ?thesis by (auto simp: tail_files_def Let_def on_cancel_inv)
qed

lemma run_pump_inv: "I (fst st) \<Longrightarrow> I (fst (run_pump d attempts pump st))"
  by (auto simp: run_pump_def dest: run_channel_inv split: prod.splits)

lemma run_tail_task_inv: "I (fst st) \<Longrightarrow> I (fst (run_tail_task d task r st))"
proof -
  assume s: "I (fst st)"
  have "I (fst (fold (run_pump d attempts) pumps st))" for attempts pumps
    by (rule fold_keeps [where P = "\<lambda>st. I (fst st)"]) (simp_all add: s run_pump_inv)
  with s show ?thesis
    by (auto simp: run_tail_task_def tail_journal_def tail_unified_log_def
        dest: tail_journal_from_inv tail_unified_from_inv tail_files_inv
        split: prod.splits tail_task.splits task_run.splits)
qed

lemma dry_run_logs_inv: "I (fst st) \<Longrightarrow> I (fst (dry_run_logs d logs r st))"
  by (simp add: dry_run_logs_def run_tail_task_inv split: logs_section.split)

end

section \<open>The counting sink\<close>

definition dry_sink :: "labels \<Rightarrow> sink \<Rightarrow> bool" where
  "dry_sink ts s \<longleftrightarrow> (\<exists>n. s = \<lparr>inner = DryRun n, tags = ts\<rparr>)"

interpretation dry: sink_invariant "dry_sink ts" d for ts d
  by unfold_locales (auto simp: dry_sink_def emit_metric_def try_log_with_service_def)

section \<open>The live sink\<close>

text \<open>A call for a metric, with the given labels in front of its own.\<close>

definition tagged :: "labels \<Rightarrow> tell_call \<Rightarrow> bool" where
  "tagged ts c \<longleftrightarrow>
     (case c of
        Tell_log _ _ \<Rightarrow> False
      | Tell_gauge _ _ ls \<Rightarrow> prefix ts ls
      | Tell_gauge_dyn _ _ ls \<Rightarrow> prefix ts ls
      | Tell_counter _ _ ls \<Rightarrow> prefix ts ls
      | Tell_counter_dyn _ _ ls \<Rightarrow> prefix ts ls
      | Tell_counter_dyn_with_temporality _ _ ls _ \<Rightarrow> prefix ts ls)"

definition live_tagged :: "labels \<Rightarrow> tell_call list \<Rightarrow> sink \<Rightarrow> bool" where
  "live_tagged ts h s \<longleftrightarrow> (\<exists>more. s = \<lparr>inner = Live (h @ more), tags = ts\<rparr> \<and> (\<forall>c \<in> set more. tagged ts c))"

lemma tagged_merged: "call \<in> metric_calls \<Longrightarrow> tagged ts (call name v (if ts = [] then ls else with_merged ts ls))"
  by (auto simp: metric_calls_def tagged_def with_merged_append)

interpretation live: metric_invariant "live_tagged ts h" for ts h
proof
  fix s call kind name v ls
  assume "live_tagged ts h s" and c: "call \<in> metric_calls"
  then obtain more where m: "s = \<lparr>inner = Live (h @ more), tags = ts\<rparr>" "\<forall>c \<in> set more. tagged ts c"
    by (auto simp: live_tagged_def)
  let ?c = "call name v (if ts = [] then ls else with_merged ts ls)"
  have "emit_metric call kind s name v ls = \<lparr>inner = Live (h @ more @ [?c]), tags = ts\<rparr>"
    by (simp add: m(1) emit_metric_def)
  moreover have "\<forall>c \<in> set (more @ [?c]). tagged ts c" using m(2) tagged_merged [OF c] by simp
  ultimately show "live_tagged ts h (emit_metric call kind s name v ls)" unfolding live_tagged_def by blast
qed

lemma live_tagged_start: "live_tagged ts h \<lparr>inner = Live h, tags = ts\<rparr>"
  by (simp add: live_tagged_def)

text \<open>
  C25: global tags. Every call that the metric task makes on a live sink, over any number of ticks and
  with every collector of either platform, is one for a metric and carries the configured tags,
  sorted by key, in front of its own labels; nothing sent before is changed and the tags of the
  sink stay.
\<close>

theorem metrics_carry_tags:
  assumes "metric_loop d fresh interval envs (sink_live h (ac_tags cfg) table) = Returns (s', t)"
  shows "\<exists>more. s' = \<lparr>inner = Live (h @ more), tags = sort_key fst (ac_tags cfg)\<rparr>
    \<and> (\<forall>c \<in> set more. tagged (sort_key fst (ac_tags cfg)) c)"
proof -
  have "sink_live h (ac_tags cfg) table = \<lparr>inner = Live h, tags = sort_key fst (ac_tags cfg)\<rparr>"
    by (simp add: sink_live_def leak_tags_fst)
  from live.metric_loop_inv [OF assms [unfolded this] live_tagged_start] show ?thesis by (simp add: live_tagged_def)
qed

definition demo_tagged_cfg :: agent_config where
  "demo_tagged_cfg = (default_config Os_MacOS demo_key)\<lparr>ac_tags := [(''env'', ''x'')]\<rparr>"

definition demo_load_env :: tick_env where
  "demo_load_env = demo_env\<lparr>te_mac := (te_mac demo_env)\<lparr>mac_loadavg := (3, Fin 1, Fin 2, Fin 3)\<rparr>\<rparr>"

theorem metrics_carry_tags_witness:
  "\<exists>s' t c cs. metric_loop ref_deps [Mac_Load_Collector] 15000 [demo_load_env] (sink_live [] (ac_tags demo_tagged_cfg) []) = Returns (s', t)
     \<and> s' = \<lparr>inner = Live (c # cs), tags = [(''env'', ''x'')]\<rparr> \<and> tagged [(''env'', ''x'')] c"
proof -
  let ?s = "sink_live [] (ac_tags demo_tagged_cfg) []"
  obtain w where w: "checkpoint_ticks 15000 = Returns w" using checkpoint_ticks_eq [OF refl, of 15000] by auto
  obtain s' t c cs where m: "metric_loop ref_deps [Mac_Load_Collector] 15000 [demo_load_env] ?s = Returns (s', t)" "inner s' = Live (c # cs)"
    by (simp add: metric_loop_def w metric_tick_def collector_collect_def mac_load_collect_def demo_load_env_def demo_env_def
        sink_live_def gauge_def emit_metric_def opt_gauge_def Let_def mac_online_cpus_def)
  have "sort_key fst (ac_tags demo_tagged_cfg) = [(''env'', ''x'')]" by (simp add: demo_tagged_cfg_def)
  with metrics_carry_tags [OF m(1)] m show ?thesis by auto
qed

section \<open>A dry run sends nothing\<close>

lemma dry_run_parts:
  assumes "dry_run d os env p = Returns (Inr (r, p'))"
  obtains cfg s1 where "load_config d os (de_file env) = Inr cfg"
    and "dry_run_logs d (rp_logs r) (de_task env) (s1, p) = (rp_sink r, p')"
    and "dry_sink (sort_key fst (ac_tags cfg)) s1" and "dry_sink (sort_key fst (ac_tags cfg)) (rp_sink r)"
proof -
  obtain cfg where cfg: "load_config d os (de_file env) = Inr cfg"
    using assms by (auto simp: dry_run_def split: sum.splits)
  let ?s0 = "sink_dry_run 0 (ac_tags cfg) (de_interned env)" and ?ts = "sort_key fst (ac_tags cfg)"
  let ?cs = "platform_collectors d os (de_cgroup env) (de_page_size env) (de_clk_tck env) (ac_system cfg)"
  obtain s1 where m: "dry_run_metrics d (de_tick1 env) (de_tick2 env) ?cs ?s0 = Some s1"
    using assms cfg by (auto simp: dry_run_def Let_def split: option.splits)
  with assms cfg have l: "dry_run_logs d (rp_logs r) (de_task env) (s1, p) = (rp_sink r, p')"
    by (auto simp: dry_run_def Let_def split: prod.splits)
  have "dry_sink ?ts ?s0" by (simp add: dry_sink_def sink_dry_run_def leak_tags_fst)
  then have s1: "dry_sink ?ts s1" by (rule dry.dry_run_metrics_inv [OF m])
  moreover have "dry_sink ?ts (rp_sink r)" using dry.dry_run_logs_inv [of ?ts "(s1, p)" d "rp_logs r" "de_task env"] s1 l by simp
  ultimately show thesis using that cfg l by blast
qed

text \<open>
  A host on which no collector is compiled in, with a journal of one entry, and a configuration that
  reads the journal.
\<close>

definition demo_dry_deps :: deps where
  "demo_dry_deps = demo_journal_deps\<lparr>toml_read := (\<lambda>s.
     if s = ''dry'' then Some [(''api_key'', T_String demo_key), (''log_source'', T_String ''journald'')] else None)\<rparr>"

definition demo_dry_io :: checkpoint_io where
  "demo_dry_io = \<lparr>ck_create = True, ck_room = 9, ck_sync = True, ck_rename = True\<rparr>"

definition demo_attempt :: journal_attempt where
  "demo_attempt = \<lparr>ja_spawned = True, ja_events = [Ev_Line ''j'' [] demo_dry_io] @ [Ev_Cancel demo_dry_io],
     ja_cancelled = True, ja_slept = True\<rparr>"

definition demo_dry_env :: dry_env where
  "demo_dry_env = \<lparr>de_file = Some ''dry'', de_tools = \<lparr>journal_available = True, unified_available = False\<rparr>,
     de_interned = [], de_cgroup = None, de_page_size = 4096, de_clk_tck = 100, de_tick1 = demo_env, de_tick2 = demo_env,
     de_matches = (\<lambda>_. []), de_age = (\<lambda>_. None), de_task = Meets_Journal [demo_attempt]\<rparr>"

definition demo_positions :: positions where
  "demo_positions = \<lparr>pos_journal = (None, None), pos_unified = (None, None), pos_channel = (\<lambda>_. (None, None)), pos_offsets = (None, None)\<rparr>"

lemma demo_dry_config: "load_config demo_dry_deps Os_Other (Some ''dry'') = Inr ((default_config Os_Other demo_key)\<lparr>ac_log_source := Source_Journald\<rparr>)"
proof -
  have key: "validate_api_key demo_key = Inr ()" using demo_key_ok by (simp add: validate_api_key_ok)
  have "de_agent_config Os_Other [(''api_key'', T_String demo_key), (''log_source'', T_String ''journald'')] =
      Some ((default_config Os_Other demo_key)\<lparr>ac_log_source := Source_Journald\<rparr>)"
    by (simp add: de_agent_config_def default_config_def default_endpoint_def default_config_poll_interval_def
        default_interval_def default_log_source_def default_eventlog_channels_def default_multiline_timeout_ms_def
        default_multiline_max_bytes_def default_batch_size_def)
  moreover have "utf8_valid ''dry''" by (simp add: utf8_valid_ascii code_def)
  ultimately show ?thesis
    by (simp add: load_config_def parse_config_def demo_dry_deps_def key default_config_def)
qed

lemma demo_dry_run:
  obtains r p' where "dry_run demo_dry_deps Os_Other demo_dry_env demo_positions = Returns (Inr (r, p'))"
    and "rp_logs r = Logs_Source (Tail_Journal \<lparr>sf_include = [], sf_exclude = []\<rparr>)"
proof -
  have "de_file demo_dry_env = Some ''dry''" by (simp add: demo_dry_env_def)
  then have "load_config demo_dry_deps Os_Other (de_file demo_dry_env) = Inr ((default_config Os_Other demo_key)\<lparr>ac_log_source := Source_Journald\<rparr>)"
    by (simp add: demo_dry_config)
  moreover obtain s2 p' where "dry_run_logs demo_dry_deps (Logs_Source (Tail_Journal \<lparr>sf_include = [], sf_exclude = []\<rparr>))
      (Meets_Journal [demo_attempt]) (sink_dry_run 0 [] [], demo_positions) = (s2, p')" by (rule prod.exhaust)
  ultimately show thesis
    using that by (simp add: dry_run_def dry_run_metrics_def platform_collectors_def logs_section_of_def resolve_log_source_def
        tail_task_of_def journal_filter_def default_config_def demo_dry_env_def Let_def)
qed



section \<open>A dry run moves the position\<close>

lemma dry_journal_process:
  "dry_sink ts s \<Longrightarrow> fst (journal_process_entry d flt l s) =
     (if journal_parse d l = None then ParseFailed else Handled (journal_cursor d l))"
  by (auto simp: journal_process_entry_def journal_cursor_def dry_sink_def try_log_with_service_def Let_def
      split: option.splits prod.splits)

lemma dry_handle_entry:
  assumes "dry_sink ts s"
  obtains rs' disk' s' where "handle_entry d flt l ws io (rs, disk, s) = Some (True, rs', disk', s')"
    and "dry_sink ts s'" and "last_cursor rs' = position_after (journal_cursor d) (last_cursor rs) [l]"
proof -
  note p = dry_journal_process [OF assms, of d flt l]
  have r: "retry (journal_process_entry d flt l) ws s =
      Some (Some (fst (journal_process_entry d flt l s)), snd (journal_process_entry d flt l s))"
    by (rule retry_accepted) (simp add: p)
  have "\<exists>rs' disk' s'. handle_entry d flt l ws io (rs, disk, s) = Some (True, rs', disk', s')
      \<and> last_cursor rs' = position_after (journal_cursor d) (last_cursor rs) [l]"
  proof (cases "journal_parse d l")
    case None
    then show ?thesis by (simp add: handle_entry_def r p position_after_def journal_cursor_def [of d l])
  next
    case (Some e)
    show ?thesis
      by (simp add: handle_entry_def r p Some Let_def position_after_def)
  qed
  then obtain rs' disk' s' where h: "handle_entry d flt l ws io (rs, disk, s) = Some (True, rs', disk', s')"
    and c: "last_cursor rs' = position_after (journal_cursor d) (last_cursor rs) [l]" by blast
  from dry.handle_entry_inv [OF h assms] h c that show thesis by blast
qed

lemma dry_journal_loop:
  "dry_sink ts s \<Longrightarrow> \<forall>e \<in> set es. \<exists>l ws i. e = Ev_Line l ws i \<Longrightarrow>
     \<exists>rs' disk' s'. journal_loop d flt (es @ [Ev_Cancel io]) (rs, disk, s) = (Exit_Cancelled, rs', save_cursor io (last_cursor rs') disk', s')
       \<and> last_cursor rs' = position_after (journal_cursor d) (last_cursor rs) (arrived_lines JOURNAL_MAX_LINE_LEN es)"
proof (induction es arbitrary: rs disk s)
  case (Cons e es)
  then obtain l ws i where e: "e = Ev_Line l ws i" by auto
  show ?case
  proof (cases "JOURNAL_MAX_LINE_LEN < length l")
    case True
    with Cons e show ?thesis by auto
  next
    case False
    obtain rs1 disk1 s1 where h: "handle_entry d flt l ws i (rs, disk, s) = Some (True, rs1, disk1, s1)"
      and s1: "dry_sink ts s1" and c: "last_cursor rs1 = position_after (journal_cursor d) (last_cursor rs) [l]"
      using dry_handle_entry [OF Cons.prems(1)] by metis
    have ap: "position_after (journal_cursor d) (last_cursor rs) (l # arrived_lines JOURNAL_MAX_LINE_LEN es) =
        position_after (journal_cursor d) (last_cursor rs1) (arrived_lines JOURNAL_MAX_LINE_LEN es)"
      using position_after_append [of "journal_cursor d" "last_cursor rs" "[l]" "arrived_lines JOURNAL_MAX_LINE_LEN es"]
      unfolding c by (simp only: append_Cons append_Nil)
    have "\<forall>e \<in> set es. \<exists>l ws i. e = Ev_Line l ws i" using Cons.prems(2) by simp
    from Cons.IH [OF s1 this] show ?thesis unfolding e by (simp add: False h ap)
  qed
qed (auto simp del: split_paired_Ex)

text \<open>
  C36: a dry run moves the position. When a dry run reads the journal for its two seconds, nothing
  is sent, but its shutdown saves the cursor of the last entry it has shown, in the file from which
  the agent resumes.
\<close>

theorem dry_run_moves_cursor:
  assumes run: "dry_run d os env p = Returns (Inr (r, p'))" and logs: "rp_logs r = Logs_Source (Tail_Journal flt)"
    and task: "de_task env = Meets_Journal (a # as)" and sp: "ja_spawned a" and ev: "ja_events a = es @ [Ev_Cancel io]"
    and lines: "\<forall>e \<in> set es. \<exists>l ws i. e = Ev_Line l ws i"
    and c: "position_after (journal_cursor d) (load_cursor (pos_journal p)) (arrived_lines JOURNAL_MAX_LINE_LEN es) = Some c"
    and io: "ck_create io" "ck_sync io" "ck_rename io" "length c \<le> ck_room io"
  shows "delivered (rp_sink r) = [] \<and> pos_journal p' = (Some c, None)"
proof -
  obtain cfg s1 where "load_config d os (de_file env) = Inr cfg"
    and l: "dry_run_logs d (rp_logs r) (de_task env) (s1, p) = (rp_sink r, p')"
    and s1: "dry_sink (sort_key fst (ac_tags cfg)) s1" and s2: "dry_sink (sort_key fst (ac_tags cfg)) (rp_sink r)"
    by (rule dry_run_parts [OF run])
  from s2 have "delivered (rp_sink r) = []" by (auto simp: dry_sink_def delivered_def)
  let ?rs = "reader_state_new (load_cursor (pos_journal p))"
  obtain rs' disk' s' where loop: "journal_loop d flt (ja_events a) (?rs, pos_journal p, s1) =
      (Exit_Cancelled, rs', save_cursor io (last_cursor rs') disk', s')" and last: "last_cursor rs' = Some c"
    using dry_journal_loop [OF s1 lines, of d flt io ?rs "pos_journal p"] ev c by (auto simp: reader_state_new_def)
  have "pos_journal p' = save_cursor io (Some c) disk'"
    using l loop last by (auto simp: logs task sp dry_run_logs_def run_tail_task_def tail_journal_def run_journalctl_def)
  with io have "pos_journal p' = (Some c, None)" by (simp add: save_cursor_def write_checkpoint_def split: prod.split)
  with \<open>delivered (rp_sink r) = []\<close> show ?thesis by simp
qed

theorem dry_run_moves_cursor_witness:
  "\<exists>r p'. dry_run demo_dry_deps Os_Other demo_dry_env demo_positions = Returns (Inr (r, p'))
     \<and> delivered (rp_sink r) = [] \<and> pos_journal demo_positions = (None, None) \<and> pos_journal p' = (Some ''c1'', None)"
proof -
  obtain r p' where run: "dry_run demo_dry_deps Os_Other demo_dry_env demo_positions = Returns (Inr (r, p'))"
    and logs: "rp_logs r = Logs_Source (Tail_Journal \<lparr>sf_include = [], sf_exclude = []\<rparr>)"
    by (rule demo_dry_run)
  have "journal_parse demo_dry_deps = journal_parse demo_journal_deps" by (rule ext) (simp add: journal_parse_def demo_dry_deps_def)
  then have c: "position_after (journal_cursor demo_dry_deps) (load_cursor (pos_journal demo_positions))
      (arrived_lines JOURNAL_MAX_LINE_LEN [Ev_Line ''j'' [] demo_dry_io]) = Some ''c1''"
    by (simp add: JOURNAL_MAX_LINE_LEN_def position_after_def journal_cursor_def demo_journal_parse)
  have "delivered (rp_sink r) = [] \<and> pos_journal p' = (Some ''c1'', None)"
    by (rule dry_run_moves_cursor [OF run logs _ _ _ _ c, where a = demo_attempt and as = "[]" and io = demo_dry_io])
      (simp_all add: demo_dry_env_def demo_attempt_def demo_dry_io_def)
  with run show ?thesis by (auto simp: demo_positions_def)
qed

end
