(* ===== verification/File_Identity.thy ===== *)
theory File_Identity
  imports Tailer Host
begin

text \<open>
  The identity of a file on each platform (\<open>FileId\<close> and \<open>file_id_of\<close> of \<open>src/logs/watcher.rs\<close>) and
  the place of the offsets file. The tail loop is modelled over identities that the file system
  supplies; here is how they arise from the metadata, from an open handle and from the path.
  \<open>hash\<close> stands for the hash of the standard library, on an identifier of 16 bytes and on a path.
\<close>

section \<open>Identities\<close>

definition from_metadata :: "nat \<times> nat \<Rightarrow> file_id" where
  "from_metadata meta = \<lparr>dev = fst meta, ino = snd meta\<rparr>"

definition from_path :: "(string \<Rightarrow> nat) \<Rightarrow> path \<Rightarrow> file_id" where
  "from_path hash p = \<lparr>dev = 0, ino = hash p\<rparr>"

text \<open>\<open>info\<close> is what \<open>GetFileInformationByHandleEx\<close> returns for the handle: volume and identifier.\<close>

definition from_file :: "(string \<Rightarrow> nat) \<Rightarrow> (nat \<times> string) option \<Rightarrow> path \<Rightarrow> file_id" where
  "from_file hash info p =
     (case info of Some (volume_serial, ident) \<Rightarrow> fold_file_id hash volume_serial ident | None \<Rightarrow> from_path hash p)"

text \<open>\<open>opened\<close> is the handle's information when the file can be opened.\<close>

definition file_id_of ::
    "target_os \<Rightarrow> (string \<Rightarrow> nat) \<Rightarrow> path \<Rightarrow> nat \<times> nat \<Rightarrow> (nat \<times> string) option option \<Rightarrow> file_id" where
  "file_id_of os hash p meta opened =
     (case os of
        Os_Windows \<Rightarrow> (case opened of Some info \<Rightarrow> from_file hash info p | None \<Rightarrow> from_path hash p)
      | Os_Other \<Rightarrow> from_path hash p
      | _ \<Rightarrow> from_metadata meta)"

definition STATE_FILE_NAME :: string where "STATE_FILE_NAME = ''offsets''"

definition state_file_path :: "host_env \<Rightarrow> path" where
  "state_file_path env =
     (if he_os env = Os_Windows then path_join_win (state_dir env) STATE_FILE_NAME else path_join (state_dir env) STATE_FILE_NAME)"

section \<open>What an identity tells\<close>

text \<open>The identifier of 16 bytes when its upper half is zero, as on NTFS.\<close>

definition ntfs_ident :: "string \<Rightarrow> bool" where
  "ntfs_ident ident \<longleftrightarrow> length ident = 16 \<and> le_value (drop 8 ident) = 0"

lemma ntfs_ident_inject:
  assumes "ntfs_ident a" "ntfs_ident b" "le_value (take 8 a) = le_value (take 8 b)"
  shows "a = b"
proof -
  have "take 8 a = take 8 b" using assms by (intro le_value_inject) (simp_all add: ntfs_ident_def)
  moreover have "drop 8 a = drop 8 b" using assms by (intro le_value_inject) (simp_all add: ntfs_ident_def)
  ultimately show ?thesis by (metis append_take_drop_id)
qed

text \<open>
  A rotated file is told from its replacement. On Unix two files have the same identity exactly
  when device and inode agree; on Windows, for files of NTFS volumes that can be opened and queried, exactly
  when volume and identifier agree: the folding into 64 bits loses nothing.
\<close>

theorem file_id_of_exact:
  "file_id_of Os_Linux hash p m1 x1 = file_id_of Os_Linux hash p m2 x2 \<longleftrightarrow> m1 = m2"
  "ntfs_ident a \<Longrightarrow> ntfs_ident b \<Longrightarrow>
     file_id_of Os_Windows hash p m1 (Some (Some (v, a))) = file_id_of Os_Windows hash p m2 (Some (Some (w, b))) \<longleftrightarrow> v = w \<and> a = b"
  by (auto simp: file_id_of_def from_metadata_def prod_eq_iff from_file_def fold_file_id_def ntfs_ident_def Let_def
      intro: ntfs_ident_inject)

text \<open>
  The identity of an unchanged file is not stable on Windows: when the file cannot be opened for
  a moment, as under an exclusive lock, its identity is the hash of its path, and every later poll that can open
  it takes it for a rotated one.
\<close>

theorem open_failure_changes_identity:
  assumes "v \<noteq> 0"
  shows "file_id_of Os_Windows hash p m None \<noteq> file_id_of Os_Windows hash p m (Some (Some (v, ident)))"
  using assms by (simp add: file_id_of_def from_file_def from_path_def fold_file_id_def Let_def)

theorem open_failure_changes_identity_witness:
  "file_id_of Os_Windows (\<lambda>_. 1) ''C'' (0, 0) None \<noteq> file_id_of Os_Windows (\<lambda>_. 1) ''C'' (0, 0) (Some (Some (7, ''i'')))"
  by (rule open_failure_changes_identity) simp

end
