(* ===== verification/Config_File.thy ===== *)
theory Config_File
  imports Remote_Config
begin

text \<open>
  The configuration file with its mode and owner, as \<open>write_config_atomic\<close> and \<open>chown_root_witness\<close> of
  \<open>src/remote_config.rs\<close> leave it on Unix, and what is logged about a change of authority. The
  contents alone are \<open>write_config_atomic\<close> of \<open>Remote_Config\<close>, which this theory refines.
\<close>

section \<open>Files with their attributes\<close>

record file_attrs =
  fa_mode :: nat
  fa_owner :: nat
  fa_group :: nat

type_synonym attr_file = "(string \<times> file_attrs) option"

text \<open>
  What the write meets: the results of the calls, the attributes of a new file, the group
  \<open>witness\<close> if it exists, and whether the change of the owner is permitted.
\<close>

record attr_io =
  ai_io :: config_io
  ai_new :: file_attrs
  ai_witness_group :: "nat option"
  ai_chown :: bool

definition chown_root_witness :: "path \<Rightarrow> attr_io \<Rightarrow> file_attrs \<Rightarrow> file_attrs" where
  "chown_root_witness p io a =
     (if CHR 0x00 \<in> set (from_utf8_lossy p) then a
      else (case ai_witness_group io of
              None \<Rightarrow> a
            | Some gid \<Rightarrow> if ai_chown io then a\<lparr>fa_owner := 0, fa_group := gid\<rparr> else a))"

text \<open>\<open>File::create\<close> truncates a temporary file that is left over and keeps its attributes.\<close>

definition created_attrs :: "attr_io \<Rightarrow> attr_file \<Rightarrow> file_attrs" where
  "created_attrs io tmp = (case tmp of Some (_, a) \<Rightarrow> a | None \<Rightarrow> ai_new io)"

definition write_config_attrs ::
    "path \<Rightarrow> attr_io \<Rightarrow> string \<Rightarrow> attr_file \<times> attr_file \<Rightarrow> bool \<times> attr_file \<times> attr_file" where
  "write_config_attrs tmp_path io bytes disk =
     (case disk of (live_file, tmp) \<Rightarrow>
      let a = created_attrs io tmp; ci = ai_io io in
      if \<not> cw_create ci then (False, live_file, tmp)
      else if \<not> (length bytes \<le> cw_room ci \<and> cw_sync ci) then (False, live_file, Some (take (cw_room ci) bytes, a))
      else if \<not> cw_chmod ci then (False, live_file, Some (bytes, a))
      else (let a' = chown_root_witness tmp_path io (a\<lparr>fa_mode := 416\<rparr>)
            in if cw_rename ci then (True, Some (bytes, a'), None) else (False, live_file, Some (bytes, a'))))"

section \<open>Changes of authority\<close>

datatype authority_warning = Endpoint_Changed string | Api_Key_Changed string | Server_Dropped

definition log_authority_changes :: "bool \<Rightarrow> bool \<Rightarrow> bool \<Rightarrow> string \<Rightarrow> authority_warning list" where
  "log_authority_changes ep key srv hash =
     (if ep then [Endpoint_Changed hash] else [])
     @ (if key then [Api_Key_Changed hash] else [])
     @ (if srv then [Server_Dropped] else [])"

section \<open>What is left on the disk\<close>

definition file_contents :: "attr_file \<times> attr_file \<Rightarrow> string option \<times> string option" where
  "file_contents = map_prod (map_option fst) (map_option fst)"

text \<open>The contents are those of the model without attributes.\<close>

theorem write_config_attrs_refines:
  "map_prod (\<lambda>ok. ok) file_contents (write_config_attrs p io bytes disk) = write_config_atomic (ai_io io) bytes (file_contents disk)"
  by (cases disk) (simp add: write_config_attrs_def write_config_atomic_def file_contents_def Let_def)

text \<open>
  The live file is either as it was, with its attributes, or the new text with mode \<open>0640\<close>: the API key
  in a remote configuration is never readable for all users at the live path. A new file
  belongs to root and the group of the service, or else to the process that wrote it.
\<close>

theorem installed_config_restricted:
  assumes "write_config_attrs p io bytes (live_file, tmp) = (ok, live', tmp')"
  shows "if ok then \<exists>a. live' = Some (bytes, a) \<and> fa_mode a = 416 \<and> tmp' = None
           \<and> (Some (fa_group a) = ai_witness_group io \<and> fa_owner a = 0
              \<or> fa_owner a = fa_owner (created_attrs io tmp) \<and> fa_group a = fa_group (created_attrs io tmp))
         else live' = live_file"
  using assms by (auto simp: write_config_attrs_def chown_root_witness_def Let_def split: if_splits option.splits)

text \<open>
  A write that fails after the file was created leaves the text, or its first part, at the temporary path
  with the attributes of a new file: the restriction comes after the data.
\<close>

theorem failed_write_unrestricted:
  assumes "write_config_attrs p io bytes (live_file, None) = (False, live', Some (left, a))" and "\<not> cw_chmod (ai_io io) \<or> \<not> cw_sync (ai_io io)"
  shows "prefix left bytes \<and> a = ai_new io"
  using assms by (auto simp: write_config_attrs_def created_attrs_def Let_def take_is_prefix split: if_splits)

text \<open>A warning names an authority exactly when the new configuration differs in it from the running one.\<close>

theorem authority_changes_logged:
  assumes "classify_response d os pc applied resp = Inr (Changed bdy hash ep key srv)"
    and "parse_config d os bdy = Inr c"
  shows "set (log_authority_changes ep key srv hash) =
    {w. w = Endpoint_Changed hash \<and> ac_endpoint c \<noteq> pc_endpoint pc
      \<or> w = Api_Key_Changed hash \<and> ac_api_key c \<noteq> pc_api_key pc \<or> w = Server_Dropped \<and> ac_server c = None}"
  using assms by (auto simp: classify_response_def log_authority_changes_def Let_def split: if_splits sum.splits option.splits)

end
